(* ===== verification/Prelude.thy ===== *)
theory Prelude
  imports Main "HOL-Library.AList" "HOL-Library.Word" "HOL-Library.Char_ord"
begin

text \<open>
  The vocabulary shared by every component: byte strings, Go maps as association lists
  without duplicate keys, and the generic list lemmas the component proofs use.

  A Go \<open>string\<close> and a Go \<open>[]byte\<close> are both a finite sequence of bytes, and an Isabelle
  \<open>char\<close> is a byte, so both are \<open>char list\<close>.  A Go \<open>map[string]string\<close> is an association
  list with distinct keys (\<open>wf_map\<close>): \<open>len(m)\<close> is the length, \<open>m[k] = v\<close> is
  \<open>AList.update k v m\<close> and \<open>m[k]\<close> is \<open>map_of m k\<close>.  Where the iteration order of a
  \<open>range\<close> over a map matters, the order is that of the list, so a statement about every
  order quantifies over the list.
\<close>

named_theorems wire "lemmas about byte-level encoders and decoders"
named_theorems gomap "lemmas about Go maps as association lists"

type_synonym bytes = "char list"
type_synonym attrs = "(string \<times> string) list"
type_synonym u32 = "32 word"
type_synonym u64 = "64 word"

abbreviation ord :: "char \<Rightarrow> nat" where
  "ord c \<equiv> of_char c"

lemma ord_eq_char: "ord c = n \<Longrightarrow> c = char_of n"
  by (metis char_of_char)

lemma charOf_eq: "n < 256 \<Longrightarrow> char_of n = c \<longleftrightarrow> ord c = n"
  by (metis char_of_char of_char_of mod_less)

lemma eq_charOf: "n < 256 \<Longrightarrow> c = char_of n \<longleftrightarrow> ord c = n"
  using charOf_eq by metis

lemma ord_less_256 [simp]: "ord c < 256"
  using of_char_mod_256 [of c] by (metis mod_less_divisor zero_less_numeral)

subsection \<open>Go maps\<close>

definition wf_map :: "('k \<times> 'v) list \<Rightarrow> bool" where
  "wf_map m \<longleftrightarrow> distinct (map fst m)"

lemma wf_map_Nil [simp, gomap]: "wf_map []"
  by (simp add: wf_map_def)

lemma wf_map_update [simp, gomap]: "wf_map m \<Longrightarrow> wf_map (AList.update k v m)"
  by (simp add: wf_map_def distinct_update)

lemma map_of_update [simp, gomap]: "map_of (AList.update k v m) = (map_of m)(k \<mapsto> v)"
  by (rule update_conv')

lemma dom_update_keys [gomap]: "fst ` set (AList.update k v m) = insert k (fst ` set m)"
  by (simp add: dom_update)

lemma length_update [gomap]:
  "length (AList.update k v m) = (if k \<in> fst ` set m then length m else Suc (length m))"
  by (induction m) auto

lemma length_update_le [gomap]: "length (AList.update k v m) \<le> Suc (length m)"
  by (simp add: length_update)

lemma set_update_subset [gomap]: "set (AList.update k v m) \<subseteq> insert (k, v) (set m)"
  by (induction m) auto

lemma wf_map_filter [simp, gomap]: "wf_map m \<Longrightarrow> wf_map (filter P m)"
  by (simp add: wf_map_def distinct_map_filter)

lemma wf_map_map_val [simp, gomap]: "wf_map (map (\<lambda>(k, v). (k, f k v)) m) = wf_map m"
  by (simp add: wf_map_def comp_def case_prod_unfold)

lemma map_of_None_iff [gomap]: "map_of m k = None \<longleftrightarrow> k \<notin> fst ` set m"
  by (rule map_of_eq_None_iff)

lemma update_new: "map_of m k = None \<Longrightarrow> AList.update k v m = m @ [(k, v)]"
  by (induction m) (auto split: if_splits)

subsection \<open>Lists\<close>

lemma take_append_exact [simp]: "length xs = n \<Longrightarrow> take n (xs @ ys) = xs"
  by simp

lemma drop_append_exact [simp]: "length xs = n \<Longrightarrow> drop n (xs @ ys) = ys"
  by simp

lemma sum_list_map_length_concat: "sum_list (map length xss) = length (concat xss)"
  by (simp add: length_concat)

lemma all_le_Suc: "(\<forall>i \<le> Suc n. P i) \<longleftrightarrow> P 0 \<and> (\<forall>i \<le> n. P (Suc i))"
  by (metis Suc_le_mono le0 not0_implies_Suc)

end
