(* ===== verification/GoStrings.thy ===== *)
theory GoStrings
  imports Prelude
begin

text \<open>
  The functions of Go's \<open>strings\<close> and \<open>strconv\<close> packages the program calls, on byte
  strings.  Case mapping of a string that holds a byte outside ASCII goes through the
  Unicode tables of the Go distribution; those tables are the argument \<open>U\<close> of the
  functions that need them, and a string of ASCII bytes never consults it.
\<close>

subsection \<open>Prefixes and suffixes\<close>

definition hasPrefix :: "string \<Rightarrow> string \<Rightarrow> bool" where
  "hasPrefix s p \<longleftrightarrow> take (length p) s = p"

definition hasSuffix :: "string \<Rightarrow> string \<Rightarrow> bool" where
  "hasSuffix s p \<longleftrightarrow> length p \<le> length s \<and> drop (length s - length p) s = p"

definition trimPrefix :: "string \<Rightarrow> string \<Rightarrow> string" where
  "trimPrefix s p = (if hasPrefix s p then drop (length p) s else s)"

definition trimSuffix :: "string \<Rightarrow> string \<Rightarrow> string" where
  "trimSuffix s p = (if hasSuffix s p then take (length s - length p) s else s)"

lemma hasPrefix_append [simp]: "hasPrefix (p @ s) p"
  by (simp add: hasPrefix_def)

lemma hasPrefix_iff: "hasPrefix s p \<longleftrightarrow> (\<exists>t. s = p @ t)"
  unfolding hasPrefix_def by (metis append_eq_conv_conj append_take_drop_id)

lemma hasSuffix_append [simp]: "hasSuffix (s @ p) p"
  by (simp add: hasSuffix_def)

lemma hasSuffix_iff: "hasSuffix s p \<longleftrightarrow> (\<exists>t. s = t @ p)"
  unfolding hasSuffix_def
  by (metis append_take_drop_id diff_diff_cancel diff_le_self hasSuffix_append hasSuffix_def)

lemma trimPrefix_append [simp]: "trimPrefix (p @ s) p = s"
  by (simp add: trimPrefix_def)

lemma trimSuffix_append [simp]: "trimSuffix (s @ p) p = s"
  by (simp add: trimSuffix_def)

lemma hasPrefix_Nil [simp]: "hasPrefix s []"
  by (simp add: hasPrefix_def)

lemma hasPrefix_Cons [simp]: "hasPrefix (c # s) (d # p) \<longleftrightarrow> c = d \<and> hasPrefix s p"
  by (auto simp: hasPrefix_def)

lemma hasPrefix_empty [simp]: "hasPrefix [] (d # p) = False"
  by (simp add: hasPrefix_def)

lemma hasPrefix_refl [simp]: "hasPrefix s s"
  by (simp add: hasPrefix_def)

subsection \<open>Searching and splitting\<close>

text \<open>\<open>strings.IndexByte\<close>; the \<open>-1\<close> of Go is \<open>None\<close>.\<close>

fun indexByte :: "string \<Rightarrow> char \<Rightarrow> nat option" where
  "indexByte [] c = None"
| "indexByte (x # xs) c = (if x = c then Some 0 else map_option Suc (indexByte xs c))"

fun strIndex :: "string \<Rightarrow> string \<Rightarrow> nat option" where
  "strIndex [] p = (if p = [] then Some 0 else None)"
| "strIndex (x # xs) p =
     (if hasPrefix (x # xs) p then Some 0 else map_option Suc (strIndex xs p))"

definition containsStr :: "string \<Rightarrow> string \<Rightarrow> bool" where
  "containsStr s p \<longleftrightarrow> strIndex s p \<noteq> None"

fun lastIndexByte :: "string \<Rightarrow> char \<Rightarrow> nat option" where
  "lastIndexByte [] c = None"
| "lastIndexByte (x # xs) c =
     (case lastIndexByte xs c of Some i \<Rightarrow> Some (Suc i)
      | None \<Rightarrow> if x = c then Some 0 else None)"

text \<open>\<open>strings.Split\<close> with a one-byte separator, and \<open>strings.Join\<close>.\<close>

fun splitByte :: "char \<Rightarrow> string \<Rightarrow> string list" where
  "splitByte sep [] = [[]]"
| "splitByte sep (c # cs) =
     (if c = sep then [] # splitByte sep cs
      else (c # hd (splitByte sep cs)) # tl (splitByte sep cs))"

fun joinStr :: "string \<Rightarrow> string list \<Rightarrow> string" where
  "joinStr sep [] = []"
| "joinStr sep [x] = x"
| "joinStr sep (x # y # ys) = x @ sep @ joinStr sep (y # ys)"

lemma splitByte_nonempty [simp]: "splitByte sep s \<noteq> []"
  by (cases s) auto

lemma join_split: "joinStr [sep] (splitByte sep s) = s"
proof (induction s)
  case (Cons c cs)
  obtain x xs where "splitByte sep cs = x # xs"
    using splitByte_nonempty by (meson neq_Nil_conv)
  with Cons show ?case by (cases xs) auto
qed simp

lemma splitByte_nosep: "sep \<notin> set s \<Longrightarrow> splitByte sep s = [s]"
  by (induction s) auto

lemma splitByte_append: "sep \<notin> set s \<Longrightarrow> splitByte sep (s @ sep # t) = s # splitByte sep t"
  by (induction s) auto

lemma split_join:
  "xs \<noteq> [] \<Longrightarrow> (\<forall>x \<in> set xs. sep \<notin> set x) \<Longrightarrow> splitByte sep (joinStr [sep] xs) = xs"
  by (induction "[sep]" xs rule: joinStr.induct) (auto simp: splitByte_nosep splitByte_append)

lemma splitByte_no_sep_in: "x \<in> set (splitByte sep s) \<Longrightarrow> sep \<notin> set x"
proof (induction s arbitrary: x)
  case (Cons c cs)
  obtain y ys where "splitByte sep cs = y # ys"
    using splitByte_nonempty by (meson neq_Nil_conv)
  with Cons show ?case by (auto split: if_splits)
qed simp

lemma indexByte_None [simp]: "indexByte s c = None \<longleftrightarrow> c \<notin> set s"
  by (induction s) auto

lemma indexByte_Some:
  "indexByte s c = Some i \<Longrightarrow> i < length s \<and> s ! i = c \<and> c \<notin> set (take i s)"
  by (induction s arbitrary: i) (auto split: if_splits)

lemma indexByte_append: "c \<notin> set s \<Longrightarrow> indexByte (s @ c # t) c = Some (length s)"
  by (induction s) auto

lemma lastIndexByte_None [simp]: "lastIndexByte s c = None \<longleftrightarrow> c \<notin> set s"
  by (induction s) (auto split: option.splits)

lemma lastIndexByte_append: "c \<notin> set t \<Longrightarrow> lastIndexByte (s @ c # t) c = Some (length s)"
  by (induction s) (auto split: option.splits)

lemma lastIndexByte_Some:
  "lastIndexByte s c = Some i \<Longrightarrow> i < length s \<and> s ! i = c \<and> c \<notin> set (drop (Suc i) s)"
  by (induction s arbitrary: i) (auto split: option.splits if_splits)

lemma strIndex_None: "strIndex s p = None \<longleftrightarrow> (\<forall>i \<le> length s. \<not> hasPrefix (drop i s) p)"
proof (induction s)
  case (Cons x xs)
  show ?case
    using Cons by (simp add: all_le_Suc)
qed (auto simp: hasPrefix_def)

lemma strIndex_Some: "strIndex s p = Some i \<Longrightarrow> i \<le> length s \<and> hasPrefix (drop i s) p"
  by (induction s arbitrary: i) (auto split: if_splits)

lemma containsStr_iff: "containsStr s p \<longleftrightarrow> (\<exists>a b. s = a @ p @ b)"
proof
  assume "containsStr s p"
  then obtain i where "hasPrefix (drop i s) p"
    unfolding containsStr_def using strIndex_Some by blast
  then obtain t where "drop i s = p @ t" by (auto simp: hasPrefix_iff)
  then have "s = take i s @ p @ t" by (metis append_take_drop_id)
  then show "\<exists>a b. s = a @ p @ b" by blast
next
  assume "\<exists>a b. s = a @ p @ b"
  then obtain a b where s: "s = a @ p @ b" by blast
  have "hasPrefix (drop (length a) s) p" and "length a \<le> length s"
    using s by simp_all
  then show "containsStr s p"
    unfolding containsStr_def using strIndex_None by blast
qed

end
