(* ===== verification/GoText.thy ===== *)
theory GoText
  imports GoStrings
begin

text \<open>
  White-space trimming and case mapping of Go's \<open>strings\<close> package.  \<open>strings.TrimSpace\<close>
  removes every Unicode white-space character at both ends; its UTF-8 encodings are the
  25 byte strings of \<open>unicodeSpaces\<close>.
\<close>

subsection \<open>TrimSpace\<close>

definition unicodeSpaces :: "string list" where
  "unicodeSpaces =
     map (\<lambda>n. [char_of n]) [9, 10, 11, 12, 13, (32::nat)]
     @ [[CHR 0xC2, CHR 0x85], [CHR 0xC2, CHR 0xA0], [CHR 0xE1, CHR 0x9A, CHR 0x80]]
     @ map (\<lambda>n. [CHR 0xE2, CHR 0x80, char_of n])
         [128, 129, 130, 131, 132, 133, 134, 135, 136, 137, 138, 168, 169, (175::nat)]
     @ [[CHR 0xE2, CHR 0x81, CHR 0x9F], [CHR 0xE3, CHR 0x80, CHR 0x80]]"

definition dropPat :: "string list \<Rightarrow> string \<Rightarrow> string option" where
  "dropPat ps s = (case find (\<lambda>p. p \<noteq> [] \<and> hasPrefix s p) ps of
     None \<Rightarrow> None | Some p \<Rightarrow> Some (drop (length p) s))"

lemma dropPat_shorter: "dropPat ps s = Some t \<Longrightarrow> length t < length s"
  by (auto simp: dropPat_def find_Some_iff hasPrefix_iff split: option.splits)

function trimWith :: "string list \<Rightarrow> string \<Rightarrow> string" where
  "trimWith ps s = (case dropPat ps s of None \<Rightarrow> s | Some t \<Rightarrow> trimWith ps t)"
  by pat_completeness auto
termination
  by (relation "measure (\<lambda>(ps, s). length s)") (auto dest: dropPat_shorter)

declare trimWith.simps [simp del]

definition trimLeftSpace :: "string \<Rightarrow> string" where
  "trimLeftSpace s = trimWith unicodeSpaces s"

definition trimRightSpace :: "string \<Rightarrow> string" where
  "trimRightSpace s = rev (trimWith (map rev unicodeSpaces) (rev s))"

definition trimSpace :: "string \<Rightarrow> string" where
  "trimSpace s = trimRightSpace (trimLeftSpace s)"

lemma trimWith_stop: "dropPat ps s = None \<Longrightarrow> trimWith ps s = s"
  by (subst trimWith.simps) simp

lemma trimWith_None: "dropPat ps (trimWith ps s) = None"
proof (induction ps s rule: trimWith.induct)
  case (1 ps s)
  show ?case
    by (cases "dropPat ps s") (use 1 in \<open>simp_all add: trimWith.simps [of ps s]\<close>)
qed

lemma trimWith_suffix: "\<exists>a. s = a @ trimWith ps s"
proof (induction ps s rule: trimWith.induct)
  case (1 ps s)
  show ?case
  proof (cases "dropPat ps s")
    case None
    then show ?thesis by (simp add: trimWith_stop)
  next
    case (Some t)
    then obtain a where "t = a @ trimWith ps t" using 1 by blast
    moreover from Some obtain b where "s = b @ t"
      by (auto simp: dropPat_def hasPrefix_iff dest: find_Some_iff [THEN iffD1] split: option.splits)
    moreover have "trimWith ps s = trimWith ps t"
      using Some by (simp add: trimWith.simps [of ps s])
    ultimately have "s = (b @ a) @ trimWith ps s" by simp
    then show ?thesis by blast
  qed
qed

lemma set_trimWith: "set (trimWith ps s) \<subseteq> set s"
  using trimWith_suffix [of s ps] by (metis Un_upper2 set_append)

lemma set_trimSpace: "set (trimSpace s) \<subseteq> set s"
  unfolding trimSpace_def trimRightSpace_def trimLeftSpace_def
  using set_trimWith by (metis (no_types, lifting) order_trans set_rev)

lemma length_trimWith: "length (trimWith ps s) \<le> length s"
  using trimWith_suffix [of s ps] by (metis le_add2 length_append)

lemma length_trimSpace: "length (trimSpace s) \<le> length s"
  unfolding trimSpace_def trimRightSpace_def trimLeftSpace_def
  using length_trimWith by (metis (no_types, lifting) order_trans length_rev)

lemma trimSpace_infix: "\<exists>a b. s = a @ trimSpace s @ b"
proof -
  obtain a where a: "s = a @ trimLeftSpace s"
    unfolding trimLeftSpace_def using trimWith_suffix by blast
  obtain b where "rev (trimLeftSpace s) = b @ rev (trimSpace s)"
    unfolding trimSpace_def trimRightSpace_def
    using trimWith_suffix by (metis rev_rev_ident)
  then have "trimLeftSpace s = trimSpace s @ rev b"
    by (metis rev_append rev_rev_ident)
  with a show ?thesis by metis
qed

text \<open>The white-space bytes of ASCII, and what a byte has to be to survive trimming.\<close>

definition asciiSpace :: "char \<Rightarrow> bool" where
  "asciiSpace c \<longleftrightarrow> ord c \<in> {9, 10, 11, 12, 13, 32}"

definition startsWide :: "string \<Rightarrow> bool" where
  "startsWide p = (case p of [] \<Rightarrow> False | c # _ \<Rightarrow> asciiSpace c \<or> 128 \<le> ord c)"

lemma unicodeSpaces_start: "list_all startsWide unicodeSpaces"
  by (simp add: unicodeSpaces_def startsWide_def asciiSpace_def)

lemma unicodeSpaces_end: "list_all startsWide (map rev unicodeSpaces)"
  by (simp add: unicodeSpaces_def startsWide_def asciiSpace_def)

lemma dropPat_hd:
  assumes "list_all startsWide ps"
    and "s = [] \<or> (\<not> asciiSpace (hd s) \<and> ord (hd s) < 128)"
  shows "dropPat ps s = None"
proof -
  have "\<not> (p \<noteq> [] \<and> hasPrefix s p)" if "p \<in> set ps" for p
  proof -
    from assms(1) that obtain c q where "p = c # q" and "asciiSpace c \<or> 128 \<le> ord c"
      by (cases p) (auto simp: list_all_iff startsWide_def)
    with assms(2) show ?thesis by (cases s) auto
  qed
  then show ?thesis
    by (auto simp: dropPat_def find_None_iff split: option.splits dest: find_Some_iff [THEN iffD1])
qed

text \<open>A string that starts and ends with printable ASCII bytes is left as it is.\<close>

lemma trimSpace_id:
  assumes "s = [] \<or> (\<not> asciiSpace (hd s) \<and> ord (hd s) < 128 \<and> \<not> asciiSpace (last s) \<and> ord (last s) < 128)"
  shows "trimSpace s = s"
proof -
  have "trimLeftSpace s = s"
    unfolding trimLeftSpace_def
    by (rule trimWith_stop, rule dropPat_hd [OF unicodeSpaces_start]) (use assms in auto)
  moreover have "trimRightSpace s = s"
    unfolding trimRightSpace_def
    by (subst trimWith_stop, rule dropPat_hd [OF unicodeSpaces_end]) (use assms in \<open>auto simp: hd_rev\<close>)
  ultimately show ?thesis by (simp add: trimSpace_def)
qed

lemma trimSpace_Nil [simp]: "trimSpace [] = []"
  by (rule trimSpace_id) simp

text \<open>What is left after trimming neither starts nor ends with a white-space byte.\<close>

lemma asciiSpace_pat: "asciiSpace c \<Longrightarrow> [c] \<in> set unicodeSpaces"
  by (auto simp: unicodeSpaces_def asciiSpace_def dest!: ord_eq_char)

lemma dropPat_None_hd:
  assumes "dropPat ps s = None" and "\<And>c. asciiSpace c \<Longrightarrow> [c] \<in> set ps" and "s \<noteq> []"
  shows "\<not> asciiSpace (hd s)"
proof
  assume a: "asciiSpace (hd s)"
  have "find (\<lambda>p. p \<noteq> [] \<and> hasPrefix s p) ps \<noteq> None"
    using assms(2) [OF a] assms(3) by (auto simp: find_None_iff) (metis hasPrefix_Cons hasPrefix_Nil list.exhaust_sel list.simps(3))
  with assms(1) show False by (auto simp: dropPat_def split: option.splits)
qed

lemma trimSpace_last: "trimSpace s \<noteq> [] \<Longrightarrow> \<not> asciiSpace (last (trimSpace s))"
proof -
  assume ne: "trimSpace s \<noteq> []"
  let ?ps = "map rev unicodeSpaces" and ?t = "trimWith (map rev unicodeSpaces) (rev (trimLeftSpace s))"
  have "?t \<noteq> []" using ne by (simp add: trimSpace_def trimRightSpace_def)
  moreover have "\<And>c. asciiSpace c \<Longrightarrow> [c] \<in> set ?ps"
    using asciiSpace_pat by (force simp: image_iff)
  ultimately have "\<not> asciiSpace (hd ?t)"
    using dropPat_None_hd [OF trimWith_None] by blast
  then show ?thesis by (simp add: trimSpace_def trimRightSpace_def last_rev)
qed

subsection \<open>Case mapping\<close>

text \<open>
  \<open>strings.ToLower\<close> and \<open>strings.ToUpper\<close> map a string of ASCII bytes byte by byte and
  any other string rune by rune through the Unicode tables, the argument \<open>U\<close>.
\<close>

record unicodeTables =
  uniLower :: "string \<Rightarrow> string"
  uniUpper :: "string \<Rightarrow> string"

definition asciiLower :: "char \<Rightarrow> char" where
  "asciiLower c = (if 65 \<le> ord c \<and> ord c \<le> 90 then char_of (ord c + 32) else c)"

definition asciiUpper :: "char \<Rightarrow> char" where
  "asciiUpper c = (if 97 \<le> ord c \<and> ord c \<le> 122 then char_of (ord c - 32) else c)"

definition isAscii :: "string \<Rightarrow> bool" where
  "isAscii s \<longleftrightarrow> list_all (\<lambda>c. ord c < 128) s"

definition toLower :: "unicodeTables \<Rightarrow> string \<Rightarrow> string" where
  "toLower U s = (if isAscii s then map asciiLower s else uniLower U s)"

definition toUpper :: "unicodeTables \<Rightarrow> string \<Rightarrow> string" where
  "toUpper U s = (if isAscii s then map asciiUpper s else uniUpper U s)"

text \<open>Tables that leave every string alone: the instance the closed examples use.\<close>

definition asciiTables :: unicodeTables where
  "asciiTables = \<lparr>uniLower = id, uniUpper = id\<rparr>"

text \<open>
  \<open>strings.EqualFold(s, t)\<close> for a constant \<open>t\<close> of ASCII bytes: simple folding relates an
  ASCII letter to its other case, and outside ASCII only the long s (U+017F) to s and the
  Kelvin sign (U+212A) to k.
\<close>

fun foldAscii :: "string \<Rightarrow> string" where
  "foldAscii (a # b # c # s) =
     (if a = CHR 0xC5 \<and> b = CHR 0xBF then CHR ''s'' # foldAscii (c # s)
      else if a = CHR 0xE2 \<and> b = CHR 0x84 \<and> c = CHR 0xAA then CHR ''k'' # foldAscii s
      else asciiLower a # foldAscii (b # c # s))"
| "foldAscii [a, b] = (if a = CHR 0xC5 \<and> b = CHR 0xBF then ''s'' else [asciiLower a, asciiLower b])"
| "foldAscii [a] = [asciiLower a]"
| "foldAscii [] = []"

definition equalFold :: "string \<Rightarrow> string \<Rightarrow> bool" where
  "equalFold s t \<longleftrightarrow> foldAscii s = map asciiLower t"

lemma asciiLower_idem [simp]: "asciiLower (asciiLower c) = asciiLower c"
  by (auto simp: asciiLower_def)

lemma isAscii_Nil [simp]: "isAscii []"
  by (simp add: isAscii_def)

lemma isAscii_Cons [simp]: "isAscii (c # s) \<longleftrightarrow> ord c < 128 \<and> isAscii s"
  by (simp add: isAscii_def)

lemma isAscii_append [simp]: "isAscii (s @ t) \<longleftrightarrow> isAscii s \<and> isAscii t"
  by (simp add: isAscii_def)

lemma foldAscii_ascii: "isAscii s \<Longrightarrow> foldAscii s = map asciiLower s"
  by (induction s rule: foldAscii.induct) auto

lemma equalFold_refl: "isAscii s \<Longrightarrow> equalFold s s"
  by (simp add: equalFold_def foldAscii_ascii)

lemma equalFold_ascii: "isAscii s \<Longrightarrow> equalFold s t \<longleftrightarrow> map asciiLower s = map asciiLower t"
  by (simp add: equalFold_def foldAscii_ascii)

end
