(* ===== verification/GoNum.thy ===== *)
theory GoNum
  imports GoText
begin

text \<open>
  The number formatting and parsing of Go's \<open>strconv\<close>, \<open>fmt\<close> and \<open>encoding/hex\<close> the
  program uses, with the width limits of \<open>uint64\<close> and \<open>int\<close>.
\<close>

subsection \<open>Decimal\<close>

fun digits10 :: "nat \<Rightarrow> string" where
  "digits10 n = (if n < 10 then [char_of (48 + n)]
                 else digits10 (n div 10) @ [char_of (48 + n mod 10)])"

declare digits10.simps [simp del]

definition itoa :: "int \<Rightarrow> string" where
  "itoa i = (if i < 0 then CHR ''-'' # digits10 (nat (- i)) else digits10 (nat i))"

definition digitVal :: "char \<Rightarrow> nat option" where
  "digitVal c = (if 48 \<le> ord c \<and> ord c \<le> 57 then Some (ord c - 48) else None)"

fun decimalValue :: "string \<Rightarrow> nat \<Rightarrow> nat option" where
  "decimalValue [] acc = Some acc"
| "decimalValue (c # cs) acc =
     (case digitVal c of None \<Rightarrow> None | Some d \<Rightarrow> decimalValue cs (10 * acc + d))"

text \<open>\<open>strconv.ParseUint(s, 10, 64)\<close>; \<open>None\<close> is an error (syntax or range).\<close>

definition parseUint64 :: "string \<Rightarrow> nat option" where
  "parseUint64 s =
     (if s = [] then None
      else case decimalValue s 0 of None \<Rightarrow> None
           | Some n \<Rightarrow> if n < 18446744073709551616 then Some n else None)"

text \<open>\<open>strconv.Atoi\<close> on a 64-bit platform.\<close>

definition atoi :: "string \<Rightarrow> int option" where
  "atoi s =
     (let neg = (s \<noteq> [] \<and> hd s = CHR ''-'');
          t = (if s \<noteq> [] \<and> (hd s = CHR ''-'' \<or> hd s = CHR ''+'') then tl s else s)
      in if t = [] then None
         else case decimalValue t 0 of None \<Rightarrow> None
           | Some n \<Rightarrow> if neg then (if n \<le> 9223372036854775808 then Some (- int n) else None)
                       else if n < 9223372036854775808 then Some (int n) else None)"

text \<open>\<open>fmt.Sprintf("%06d", n)\<close>.\<close>

definition pad6 :: "nat \<Rightarrow> string" where
  "pad6 n = replicate (6 - length (digits10 n)) (CHR ''0'') @ digits10 n"

lemma digitVal_char [simp]: "d < 10 \<Longrightarrow> digitVal (char_of (48 + d)) = Some d"
  by (simp add: digitVal_def)

lemma digits10_nonempty [simp]: "digits10 n \<noteq> []"
  by (subst digits10.simps) simp

lemma decimalValue_append:
  "decimalValue (s @ t) acc = (case decimalValue s acc of None \<Rightarrow> None | Some n \<Rightarrow> decimalValue t n)"
  by (induction s arbitrary: acc) (auto split: option.splits)

lemma decimalValue_digits10 [wire]: "decimalValue (digits10 n) 0 = Some n"
proof (induction n rule: digits10.induct)
  case (1 n)
  show ?case
  proof (cases "n < 10")
    case True
    then show ?thesis by (simp add: digits10.simps [of n])
  next
    case False
    with 1 show ?thesis
      by (simp add: digits10.simps [of n] decimalValue_append)
  qed
qed

lemma decimalValue_zeros: "decimalValue (replicate k (CHR ''0'') @ s) 0 = decimalValue s 0"
  by (induction k) (auto simp: digitVal_def)

lemma parseUint64_pad6 [wire]: "n < 18446744073709551616 \<Longrightarrow> parseUint64 (pad6 n) = Some n"
  by (simp add: parseUint64_def pad6_def decimalValue_zeros decimalValue_digits10)

lemma digits10_digit: "c \<in> set (digits10 n) \<Longrightarrow> 48 \<le> ord c \<and> ord c \<le> 57"
proof (induction n rule: digits10.induct)
  case (1 n)
  have "n mod 10 < 10" by simp
  then have "ord (char_of (48 + n mod 10)) = 48 + n mod 10" by simp
  with 1 show ?case
    by (subst (asm) (2) digits10.simps) (auto split: if_splits)
qed

lemma digits10_inject: "digits10 m = digits10 n \<longleftrightarrow> m = n"
  by (metis decimalValue_digits10 option.inject)

subsection \<open>Hexadecimal\<close>

definition hexLower :: "nat \<Rightarrow> char" where
  "hexLower n = (if n < 10 then char_of (48 + n) else char_of (87 + n))"

definition hexUpper :: "nat \<Rightarrow> char" where
  "hexUpper n = (if n < 10 then char_of (48 + n) else char_of (55 + n))"

text \<open>\<open>hex.EncodeToString\<close>.\<close>

definition hexEncode :: "bytes \<Rightarrow> string" where
  "hexEncode bs = concat (map (\<lambda>b. [hexLower (ord b div 16), hexLower (ord b mod 16)]) bs)"

lemma length_hexEncode [simp]: "length (hexEncode bs) = 2 * length bs"
  by (induction bs) (auto simp: hexEncode_def)

definition lowerHexChar :: "char \<Rightarrow> bool" where
  "lowerHexChar c \<longleftrightarrow> (48 \<le> ord c \<and> ord c \<le> 57) \<or> (97 \<le> ord c \<and> ord c \<le> 102)"

lemma hexLower_char: "n < 16 \<Longrightarrow> lowerHexChar (hexLower n)"
  by (simp add: hexLower_def lowerHexChar_def)

lemma hexEncode_chars: "c \<in> set (hexEncode bs) \<Longrightarrow> lowerHexChar c"
proof -
  assume "c \<in> set (hexEncode bs)"
  then obtain b where "c = hexLower (ord b div 16) \<or> c = hexLower (ord b mod 16)"
    by (auto simp: hexEncode_def)
  moreover have "ord b div 16 < 16" and "ord b mod 16 < 16"
    using ord_less_256 [of b] by (auto simp: less_mult_imp_div_less)
  ultimately show ?thesis using hexLower_char by auto
qed

end
