(* ===== verification/Config.thy ===== *)
theory Config
  imports GoNum
begin

text \<open>
  \<open>config.go\<close>: the configuration and how \<open>LoadConfig\<close> resolves it from the environment, with
  \<open>time.ParseDuration\<close>.  The environment is a function from names to values, \<open>[]\<close> for an unset
  variable, as \<open>os.Getenv\<close> has it; durations are nanoseconds.
\<close>

subsection \<open>time.ParseDuration\<close>

definition twoTo63 :: nat where
  "twoTo63 = 9223372036854775808"

text \<open>\<open>leadingInt\<close>: the number at the front and what follows it, \<open>None\<close> on overflow.\<close>

fun leadingInt :: "string \<Rightarrow> nat \<Rightarrow> (nat \<times> string) option" where
  "leadingInt [] x = Some (x, [])"
| "leadingInt (c # s) x = (case digitVal c of
     None \<Rightarrow> Some (x, c # s)
   | Some d \<Rightarrow> if x > twoTo63 div 10 then None
               else if 10 * x + d > twoTo63 then None else leadingInt s (10 * x + d))"

text \<open>\<open>leadingFraction\<close>: digits past the 63-bit range are skipped; the scale counts the others.\<close>

fun leadingFraction :: "string \<Rightarrow> nat \<Rightarrow> nat \<Rightarrow> bool \<Rightarrow> nat \<times> nat \<times> string" where
  "leadingFraction [] x k over = (x, k, [])"
| "leadingFraction (c # s) x k over = (case digitVal c of
     None \<Rightarrow> (x, k, c # s)
   | Some d \<Rightarrow>
       if over \<or> x > (twoTo63 - 1) div 10 \<or> 10 * x + d > twoTo63 then leadingFraction s x k True
       else leadingFraction s (10 * x + d) (Suc k) False)"

definition durationUnit :: "string \<Rightarrow> nat option" where
  "durationUnit u = map_of
     [(''ns'', 1), (''us'', 1000), ([CHR 0xC2, CHR 0xB5, CHR ''s''], 1000), ([CHR 0xCE, CHR 0xBC, CHR ''s''], 1000),
      (''ms'', 1000000), (''s'', 1000000000), (''m'', 60000000000), (''h'', 3600000000000)] u"

definition notUnitChar :: "char \<Rightarrow> bool" where
  "notUnitChar c \<longleftrightarrow> c = CHR ''.'' \<or> digitVal c \<noteq> None"

lemma leadingInt_length: "leadingInt s x = Some (v, t) \<Longrightarrow> length t \<le> length s"
  by (induction s arbitrary: x) (force split: option.splits if_splits)+

lemma leadingFraction_length: "leadingFraction s x k over = (f, j, t) \<Longrightarrow> length t \<le> length s"
  by (induction s arbitrary: x k over) (force split: option.splits if_splits)+

text \<open>
  The loop of \<open>ParseDuration\<close>.  \<open>frac f unit k\<close> stands for the floating-point product
  \<open>uint64(float64(f) * (float64(unit) / 10^k))\<close>.
\<close>

definition durationHead :: "string \<Rightarrow> (nat \<times> nat \<times> nat \<times> string) option" where
  "durationHead s =
     (if s = [] \<or> \<not> notUnitChar (hd s) then None
      else case leadingInt s 0 of None \<Rightarrow> None
        | Some (v, s1) \<Rightarrow>
            (let (f, k, s2) = (if s1 \<noteq> [] \<and> hd s1 = CHR ''.'' then leadingFraction (tl s1) 0 0 False else (0, 0, s1));
                 pre = length s1 < length s;
                 post = s1 \<noteq> [] \<and> hd s1 = CHR ''.'' \<and> length s2 < length (tl s1)
             in if \<not> pre \<and> \<not> post then None else Some (v, f, k, s2)))"

lemma durationHead_length: "durationHead s = Some (v, f, k, t) \<Longrightarrow> length t \<le> length s"
  using leadingInt_length leadingFraction_length
  by (fastforce simp: durationHead_def Let_def split: option.splits prod.splits if_splits dest: leadingInt_length leadingFraction_length)

function durationLoop :: "(nat \<Rightarrow> nat \<Rightarrow> nat \<Rightarrow> nat) \<Rightarrow> string \<Rightarrow> nat \<Rightarrow> nat option" where
  "durationLoop frac s d =
     (if s = [] then Some d
      else case durationHead s of None \<Rightarrow> None
        | Some (v, f, k, s2) \<Rightarrow>
            (let u = takeWhile (\<lambda>c. \<not> notUnitChar c) s2; s3 = drop (length u) s2
             in if u = [] then None
                else case durationUnit u of None \<Rightarrow> None
                  | Some unit \<Rightarrow>
                      if v > twoTo63 div unit then None
                      else let w = v * unit + (if f > 0 then frac f unit k else 0)
                        in if f > 0 \<and> w > twoTo63 then None
                           else if (d + w) mod 18446744073709551616 > twoTo63 then None
                           else durationLoop frac s3 ((d + w) mod 18446744073709551616)))"
  by pat_completeness auto
termination
proof (relation "measure (\<lambda>(frac, s, d). length s)", goal_cases)
  case (2 frac s d a v b f c k s2 u s3 unit w)
  have u: "u \<noteq> []" and s3: "s3 = drop (length u) s2" and "length u \<le> length s2" and "length s2 \<le> length s"
    using 2 durationHead_length [of s v f k s2] by (auto simp: length_takeWhile_le)
  moreover have "length u > 0" using u by simp
  moreover have "length s3 = length s2 - length u" using s3 by simp
  ultimately have "length s3 < length s" by linarith
  then show ?case by simp
qed simp

declare durationLoop.simps [simp del]

definition parseDuration :: "(nat \<Rightarrow> nat \<Rightarrow> nat \<Rightarrow> nat) \<Rightarrow> string \<Rightarrow> int option" where
  "parseDuration frac s =
     (let neg = (s \<noteq> [] \<and> hd s = CHR ''-'');
          t = (if s \<noteq> [] \<and> (hd s = CHR ''-'' \<or> hd s = CHR ''+'') then tl s else s)
      in if t = ''0'' then Some 0
         else if t = [] then None
         else case durationLoop frac t 0 of None \<Rightarrow> None
           | Some d \<Rightarrow> if neg then Some (- int d) else if d > twoTo63 - 1 then None else Some (int d))"

subsection \<open>The configuration\<close>

type_synonym environ = "string \<Rightarrow> string"

abbreviation second :: int where
  "second \<equiv> 1000000000"

abbreviation millisecond :: int where
  "millisecond \<equiv> 1000000"

definition defaultSpanBatchSize :: int where
  "defaultSpanBatchSize = 200"

definition defaultSpanFlushInterval :: int where
  "defaultSpanFlushInterval = 5 * second"

definition defaultProfileBatchSize :: int where
  "defaultProfileBatchSize = 500"

record config =
  cfgEnabled :: bool
  cfgOrganisation :: string
  cfgProject :: string
  cfgApplication :: string
  cfgSpoolDir :: string
  cfgServiceName :: string
  cfgServiceVersion :: string
  cfgAPMEnabled :: bool
  cfgLogsEnabled :: bool
  cfgProfilerEnabled :: bool
  cfgMetricsEnabled :: bool
  cfgDSTEnabled :: bool
  cfgProfileInterval :: int
  cfgProfileDuration :: int
  cfgMetricsInterval :: int
  cfgProfileMaxStackDepth :: int
  cfgProfileBatchSize :: int
  cfgWallProfileEnabled :: bool
  cfgWallSampleInterval :: int
  cfgWallExcludeIdle :: bool
  cfgWallMaxStacks :: int
  cfgIOProfileEnabled :: bool
  cfgIOMinWait :: int
  cfgIOMaxSamples :: int
  cfgSpanBatchSize :: int
  cfgSpanFlushInterval :: int
  cfgSpanMaxBuffered :: int
  cfgHTTPCapture :: bool
  cfgHTTPCaptureBodies :: bool
  cfgHTTPMaxBody :: int
  cfgHTTPRedact :: bool
  cfgRedactPatterns :: "string list"
  cfgHTTPSkipPaths :: "string list"
  cfgMessagingCaptureBodies :: bool
  cfgMessagingMaxBody :: int
  cfgBackground :: bool

definition defaultRedactPatterns :: "string list" where
  "defaultRedactPatterns =
     [''password'', ''passwd'', ''secret'', ''token'', ''authorization'', ''api_key'', ''apikey'',
      ''access_key'', ''private_key'', ''cookie'', ''set-cookie'', ''session'', ''credit'', ''card'',
      ''ssn'', ''cvv'', ''bearer'']"

definition defaultHTTPSkipPaths :: "string list" where
  "defaultHTTPSkipPaths =
     [''/status'', ''/health'', ''/healthz'', ''/ready'', ''/readyz'', ''/livez'', ''/ws'', ''/job/status'',
      ''/api/stats'', ''/api/running-jobs'', ''/api/failed-jobs-paginated'']"

fun firstNonEmpty :: "string list \<Rightarrow> string" where
  "firstNonEmpty [] = []"
| "firstNonEmpty (v # vs) = (if trimSpace v \<noteq> [] then trimSpace v else firstNonEmpty vs)"

definition envBool :: "unicodeTables \<Rightarrow> environ \<Rightarrow> string \<Rightarrow> bool \<Rightarrow> bool" where
  "envBool U env key fallback =
     (let raw = trimSpace (env key) in
      if raw = [] then fallback
      else if toLower U raw \<in> {''1'', ''true'', ''yes'', ''on''} then True
      else if toLower U raw \<in> {''0'', ''false'', ''no'', ''off''} then False
      else fallback)"

definition envInt :: "environ \<Rightarrow> string \<Rightarrow> int \<Rightarrow> int" where
  "envInt env key fallback =
     (let raw = trimSpace (env key) in
      if raw = [] then fallback else case atoi raw of None \<Rightarrow> fallback | Some n \<Rightarrow> n)"

definition envDuration :: "(nat \<Rightarrow> nat \<Rightarrow> nat \<Rightarrow> nat) \<Rightarrow> environ \<Rightarrow> string \<Rightarrow> int \<Rightarrow> int" where
  "envDuration frac env key fallback =
     (let raw = trimSpace (env key) in
      if raw = [] then fallback else case parseDuration frac raw of None \<Rightarrow> fallback | Some d \<Rightarrow> d)"

definition envCSV :: "environ \<Rightarrow> string \<Rightarrow> string list \<Rightarrow> string list" where
  "envCSV env key fallback =
     (let raw = trimSpace (env key) in
      if raw = [] then fallback
      else let out = filter (\<lambda>p. p \<noteq> []) (map trimSpace (splitByte (CHR '','') raw))
        in if out = [] then fallback else out)"

definition envBoolCompat :: "unicodeTables \<Rightarrow> environ \<Rightarrow> string \<Rightarrow> string \<Rightarrow> bool \<Rightarrow> bool" where
  "envBoolCompat U env key deprecated fallback =
     (if trimSpace (env key) \<noteq> [] then envBool U env key fallback else envBool U env deprecated fallback)"

definition envIntCompat :: "environ \<Rightarrow> string \<Rightarrow> string \<Rightarrow> int \<Rightarrow> int" where
  "envIntCompat env key deprecated fallback =
     (if trimSpace (env key) \<noteq> [] then envInt env key fallback else envInt env deprecated fallback)"

definition envCSVCompat :: "environ \<Rightarrow> string \<Rightarrow> string \<Rightarrow> string list \<Rightarrow> string list" where
  "envCSVCompat env key deprecated fallback =
     (if trimSpace (env key) \<noteq> [] then envCSV env key fallback else envCSV env deprecated fallback)"

definition envConfig :: "unicodeTables \<Rightarrow> (nat \<Rightarrow> nat \<Rightarrow> nat \<Rightarrow> nat) \<Rightarrow> environ \<Rightarrow> config" where
  "envConfig U frac env = \<lparr>
       cfgEnabled = envBool U env ''CHRONOS_ENABLED'' True,
       cfgOrganisation = firstNonEmpty [env ''CHRONOS_ORGANISATION_ID'', env ''CHRONOS_ORGANISATION''],
       cfgProject = firstNonEmpty [env ''CHRONOS_PROJECT_ID'', env ''CHRONOS_PROJECT''],
       cfgApplication = firstNonEmpty [env ''CHRONOS_APPLICATION_ID'', env ''CHRONOS_APPLICATION''],
       cfgSpoolDir = env ''CHRONOS_SPOOL_DIRECTORY'',
       cfgServiceName = firstNonEmpty [env ''CHRONOS_SERVICE_NAME'', env ''CHRONOS_APPLICATION'', env ''CHRONOS_APPLICATION_ID''],
       cfgServiceVersion = env ''CHRONOS_SERVICE_VERSION'',
       cfgAPMEnabled = envBool U env ''CHRONOS_APM_ENABLED'' True,
       cfgLogsEnabled = envBool U env ''CHRONOS_LOGS_ENABLED'' True,
       cfgProfilerEnabled = envBool U env ''CHRONOS_PROFILER_ENABLED'' False,
       cfgMetricsEnabled = envBool U env ''CHRONOS_METRICS_ENABLED'' True,
       cfgDSTEnabled = envBool U env ''CHRONOS_DST_ENABLED'' False,
       cfgProfileInterval = envDuration frac env ''CHRONOS_GO_PROFILE_INTERVAL'' (90 * second),
       cfgProfileDuration = envDuration frac env ''CHRONOS_GO_PROFILE_DURATION'' (60 * second),
       cfgMetricsInterval = envDuration frac env ''CHRONOS_GO_METRICS_INTERVAL'' (15 * second),
       cfgProfileMaxStackDepth = envInt env ''CHRONOS_GO_PROFILE_MAX_STACK_DEPTH'' 64,
       cfgProfileBatchSize = envInt env ''CHRONOS_GO_PROFILE_BATCH_SIZE'' defaultProfileBatchSize,
       cfgWallProfileEnabled = envBool U env ''CHRONOS_GO_WALL_ENABLED'' True,
       cfgWallSampleInterval = envDuration frac env ''CHRONOS_GO_WALL_INTERVAL'' (100 * millisecond),
       cfgWallExcludeIdle = envBool U env ''CHRONOS_GO_WALL_EXCLUDE_IDLE'' True,
       cfgWallMaxStacks = envInt env ''CHRONOS_GO_WALL_MAX_STACKS'' 4096,
       cfgIOProfileEnabled = envBool U env ''CHRONOS_GO_IO_ENABLED'' True,
       cfgIOMinWait = envDuration frac env ''CHRONOS_GO_IO_MIN_WAIT'' millisecond,
       cfgIOMaxSamples = envInt env ''CHRONOS_GO_IO_MAX_SAMPLES'' 4096,
       cfgSpanBatchSize = envInt env ''CHRONOS_GO_SPAN_BATCH_SIZE'' defaultSpanBatchSize,
       cfgSpanFlushInterval = envDuration frac env ''CHRONOS_GO_SPAN_FLUSH_INTERVAL'' defaultSpanFlushInterval,
       cfgSpanMaxBuffered = envInt env ''CHRONOS_GO_SPAN_MAX_BUFFERED'' 10000,
       cfgHTTPCapture = envBoolCompat U env ''CHRONOS_HTTP_CAPTURE'' ''CHRONOS_GO_HTTP_CAPTURE'' True,
       cfgHTTPCaptureBodies = envBoolCompat U env ''CHRONOS_HTTP_CAPTURE_BODIES'' ''CHRONOS_GO_HTTP_CAPTURE_BODIES'' True,
       cfgHTTPMaxBody = envIntCompat env ''CHRONOS_HTTP_CAPTURE_MAX_BODY'' ''CHRONOS_GO_HTTP_CAPTURE_MAX_BODY'' 65536,
       cfgHTTPRedact = envBoolCompat U env ''CHRONOS_HTTP_CAPTURE_REDACT'' ''CHRONOS_GO_HTTP_CAPTURE_REDACT'' True,
       cfgRedactPatterns = envCSVCompat env ''CHRONOS_REDACT_PATTERNS'' ''CHRONOS_GO_REDACT_PATTERNS'' defaultRedactPatterns,
       cfgHTTPSkipPaths = envCSVCompat env ''CHRONOS_HTTP_SKIP_PATHS'' ''CHRONOS_GO_HTTP_SKIP_PATHS'' defaultHTTPSkipPaths,
       cfgMessagingCaptureBodies = envBoolCompat U env ''CHRONOS_MESSAGING_CAPTURE_BODIES'' ''CHRONOS_GO_MESSAGING_CAPTURE_BODIES'' True,
       cfgMessagingMaxBody = envIntCompat env ''CHRONOS_MESSAGING_CAPTURE_MAX_BODY'' ''CHRONOS_GO_MESSAGING_CAPTURE_MAX_BODY'' 0,
       cfgBackground = False\<rparr>"

definition loadConfig :: "unicodeTables \<Rightarrow> (nat \<Rightarrow> nat \<Rightarrow> nat \<Rightarrow> nat) \<Rightarrow> environ \<Rightarrow> config" where
  "loadConfig U frac env =
     (let c = envConfig U frac env;
          c1 = (if \<not> cfgEnabled c \<or> cfgOrganisation c = [] \<or> cfgProject c = [] \<or> cfgApplication c = []
                   \<or> cfgSpoolDir c = []
                then c\<lparr>cfgEnabled := False\<rparr> else c)
      in if cfgServiceName c1 = [] then c1\<lparr>cfgServiceName := cfgApplication c1\<rparr> else c1)"

definition applyProfileDefaults :: "config \<Rightarrow> config" where
  "applyProfileDefaults c = c\<lparr>
     cfgProfileMaxStackDepth := (if cfgProfileMaxStackDepth c \<le> 0 then 64 else cfgProfileMaxStackDepth c),
     cfgProfileBatchSize := (if cfgProfileBatchSize c \<le> 0 then defaultProfileBatchSize else cfgProfileBatchSize c),
     cfgWallSampleInterval := (if cfgWallSampleInterval c \<le> 0 then 100 * millisecond else cfgWallSampleInterval c),
     cfgWallMaxStacks := (if cfgWallMaxStacks c \<le> 0 then 4096 else cfgWallMaxStacks c),
     cfgIOMaxSamples := (if cfgIOMaxSamples c \<le> 0 then 4096 else cfgIOMaxSamples c)\<rparr>"

subsection \<open>Results\<close>

lemma loadConfig_enabled:
  "cfgEnabled (loadConfig U frac env) \<longleftrightarrow>
   cfgEnabled (envConfig U frac env) \<and> cfgOrganisation (envConfig U frac env) \<noteq> []
   \<and> cfgProject (envConfig U frac env) \<noteq> [] \<and> cfgApplication (envConfig U frac env) \<noteq> []
   \<and> cfgSpoolDir (envConfig U frac env) \<noteq> []"
  by (simp add: loadConfig_def Let_def)

text \<open>
  The SDK is inert unless it is identified.  \<open>LoadConfig\<close> leaves it enabled exactly when it
  is not switched off, the organisation, the project and the application each have a
  non-blank value under one of their two names, and a spool directory is given.
\<close>

theorem load_config_enabled_iff:
  "cfgEnabled (loadConfig U frac env) \<longleftrightarrow>
     envBool U env ''CHRONOS_ENABLED'' True
     \<and> \<not> (trimSpace (env ''CHRONOS_ORGANISATION_ID'') = [] \<and> trimSpace (env ''CHRONOS_ORGANISATION'') = [])
     \<and> \<not> (trimSpace (env ''CHRONOS_PROJECT_ID'') = [] \<and> trimSpace (env ''CHRONOS_PROJECT'') = [])
     \<and> \<not> (trimSpace (env ''CHRONOS_APPLICATION_ID'') = [] \<and> trimSpace (env ''CHRONOS_APPLICATION'') = [])
     \<and> env ''CHRONOS_SPOOL_DIRECTORY'' \<noteq> []"
  unfolding loadConfig_enabled by (simp add: envConfig_def)

definition compatKeys :: "(string \<times> string) list" where
  "compatKeys =
     [(''CHRONOS_HTTP_CAPTURE'', ''CHRONOS_GO_HTTP_CAPTURE''),
      (''CHRONOS_HTTP_CAPTURE_BODIES'', ''CHRONOS_GO_HTTP_CAPTURE_BODIES''),
      (''CHRONOS_HTTP_CAPTURE_MAX_BODY'', ''CHRONOS_GO_HTTP_CAPTURE_MAX_BODY''),
      (''CHRONOS_HTTP_CAPTURE_REDACT'', ''CHRONOS_GO_HTTP_CAPTURE_REDACT''),
      (''CHRONOS_MESSAGING_CAPTURE_BODIES'', ''CHRONOS_GO_MESSAGING_CAPTURE_BODIES''),
      (''CHRONOS_MESSAGING_CAPTURE_MAX_BODY'', ''CHRONOS_GO_MESSAGING_CAPTURE_MAX_BODY''),
      (''CHRONOS_REDACT_PATTERNS'', ''CHRONOS_GO_REDACT_PATTERNS''),
      (''CHRONOS_HTTP_SKIP_PATHS'', ''CHRONOS_GO_HTTP_SKIP_PATHS'')]"

text \<open>What a reader of one variable, or of a pair of spellings, depends on.\<close>

lemma env_reader_upd:
  "key \<noteq> d \<Longrightarrow> envBool U (env(d := v)) key b = envBool U env key b"
  "key \<noteq> d \<Longrightarrow> envInt (env(d := v)) key n = envInt env key n"
  "key \<noteq> d \<Longrightarrow> envDuration frac (env(d := v)) key n = envDuration frac env key n"
  "key \<noteq> d \<Longrightarrow> envCSV (env(d := v)) key xs = envCSV env key xs"
  by (simp_all add: envBool_def envInt_def envDuration_def envCSV_def)

lemma env_compat_upd:
  "key \<noteq> d \<Longrightarrow> e \<noteq> d \<or> trimSpace (env key) \<noteq> [] \<Longrightarrow> envBoolCompat U (env(d := v)) key e b = envBoolCompat U env key e b"
  "key \<noteq> d \<Longrightarrow> e \<noteq> d \<or> trimSpace (env key) \<noteq> [] \<Longrightarrow> envIntCompat (env(d := v)) key e n = envIntCompat env key e n"
  "key \<noteq> d \<Longrightarrow> e \<noteq> d \<or> trimSpace (env key) \<noteq> [] \<Longrightarrow> envCSVCompat (env(d := v)) key e xs = envCSVCompat env key e xs"
  by (auto simp: envBoolCompat_def envIntCompat_def envCSVCompat_def env_reader_upd)

text \<open>
  One capture policy reads the same across the estate.  When the estate-wide spelling of a
  capture or redaction setting has a non-blank value, even an invalid one, the deprecated
  \<open>CHRONOS_GO_\<close> spelling has no influence on any part of the configuration.
\<close>

theorem deprecated_key_ignored:
  assumes "(key, deprecated) \<in> set compatKeys" "trimSpace (env key) \<noteq> []"
  shows "loadConfig U frac (env(deprecated := v)) = loadConfig U frac env"
proof -
  have "envConfig U frac (env(deprecated := v)) = envConfig U frac env"
    using assms unfolding compatKeys_def
    by (simp only: list.set insert_iff empty_iff prod.inject) (elim disjE conjE; simp add: envConfig_def env_reader_upd env_compat_upd)
  then show ?thesis by (simp add: loadConfig_def)
qed

theorem deprecated_key_ignored_witness:
  "loadConfig asciiTables (\<lambda>_ _ _. 0) ((\<lambda>k. if k = ''CHRONOS_HTTP_CAPTURE'' then ''off'' else [])(''CHRONOS_GO_HTTP_CAPTURE'' := ''on''))
   = loadConfig asciiTables (\<lambda>_ _ _. 0) (\<lambda>k. if k = ''CHRONOS_HTTP_CAPTURE'' then ''off'' else [])"
proof -
  have "trimSpace ''off'' \<noteq> []" by code_simp
  then show ?thesis
    using deprecated_key_ignored [of "''CHRONOS_HTTP_CAPTURE''" "''CHRONOS_GO_HTTP_CAPTURE''"
        "\<lambda>k. if k = ''CHRONOS_HTTP_CAPTURE'' then ''off'' else []" asciiTables "\<lambda>_ _ _. 0" "''on''"]
    by (simp add: compatKeys_def)
qed

end
