(* ===== verification/Redact.thy ===== *)
theory Redact
  imports GoText
begin

text \<open>
  \<open>redact/redact.go\<close>: masking of values by the name of their key (\<open>IsSensitive\<close>, \<open>Map\<close>) and of
  machine credentials by their shape (\<open>Credentials\<close>).
\<close>

definition maskPrefix :: string where
  "maskPrefix = ''*********''"

definition maskValue :: "string \<Rightarrow> string" where
  "maskValue v = (if length v < 10 then maskPrefix else maskPrefix @ drop (length v - 4) v)"

definition isSensitive :: "unicodeTables \<Rightarrow> string \<Rightarrow> string list \<Rightarrow> bool" where
  "isSensitive U key patterns \<longleftrightarrow> list_ex (\<lambda>p. p \<noteq> [] \<and> containsStr (toLower U key) (toLower U p)) patterns"

definition redactMap :: "unicodeTables \<Rightarrow> attrs \<Rightarrow> string list \<Rightarrow> attrs" where
  "redactMap U m patterns = map (\<lambda>(k, v). (k, if isSensitive U k patterns then maskValue v else v)) m"

lemma map_of_redactMap [gomap]:
  "map_of (redactMap U m ps) k = map_option (\<lambda>v. if isSensitive U k ps then maskValue v else v) (map_of m k)"
  by (induction m) (auto simp: redactMap_def)

lemma wf_map_redactMap [simp, gomap]: "wf_map (redactMap U m ps) = wf_map m"
  by (simp add: redactMap_def wf_map_def comp_def case_prod_unfold)

subsection \<open>Credentials\<close>

text \<open>
  The regular expression \<open>(token_[A-Za-z0-9_-]{6,})\.[A-Za-z0-9_-]{16,}\<close>.  A dot is not in the
  class, so the greedy repetitions of a leftmost match are the maximal runs and there is
  nothing to backtrack into: \<open>credentialAt\<close> matches at the front of the text and returns the
  captured half and what follows the match.
\<close>

definition credChar :: "char \<Rightarrow> bool" where
  "credChar c \<longleftrightarrow> (65 \<le> ord c \<and> ord c \<le> 90) \<or> (97 \<le> ord c \<and> ord c \<le> 122)
     \<or> (48 \<le> ord c \<and> ord c \<le> 57) \<or> c = CHR ''_'' \<or> c = CHR ''-''"

definition credentialAt :: "string \<Rightarrow> (string \<times> string) option" where
  "credentialAt s =
     (if \<not> hasPrefix s ''token_'' then None
      else let ident = takeWhile credChar (drop 6 s);
               r = dropWhile credChar (drop 6 s)
        in if length ident < 6 \<or> r = [] \<or> hd r \<noteq> CHR ''.'' then None
           else let secret = takeWhile credChar (tl r)
             in if length secret < 16 then None
                else Some (''token_'' @ ident, dropWhile credChar (tl r)))"

lemma credentialAt_split:
  assumes "credentialAt s = Some (kept, rest)"
  obtains ident secret where "kept = ''token_'' @ ident" "s = kept @ CHR ''.'' # secret @ rest"
    "\<forall>c \<in> set ident. credChar c" "6 \<le> length ident" "\<forall>c \<in> set secret. credChar c" "16 \<le> length secret"
    "rest = [] \<or> \<not> credChar (hd rest)"
proof -
  let ?ident = "takeWhile credChar (drop 6 s)" and ?r = "dropWhile credChar (drop 6 s)"
  let ?secret = "takeWhile credChar (tl ?r)"
  have m: "hasPrefix s ''token_''" "6 \<le> length ?ident" "?r \<noteq> []" "hd ?r = CHR ''.''" "16 \<le> length ?secret"
    "kept = ''token_'' @ ?ident" "rest = dropWhile credChar (tl ?r)"
    using assms by (auto simp: credentialAt_def Let_def split: if_splits)
  from m(1) obtain t where t: "s = ''token_'' @ t" by (auto simp: hasPrefix_iff)
  have "t = ?ident @ ?r" by (simp add: t)
  moreover have "?r = CHR ''.'' # tl ?r" using m(3,4) by (metis list.collapse)
  moreover have "tl ?r = ?secret @ rest" using m(7) by simp
  ultimately have "s = kept @ CHR ''.'' # ?secret @ rest" using t m(6) by (metis append.assoc append_Cons)
  moreover have "rest = [] \<or> \<not> credChar (hd rest)" using m(7) by (metis hd_dropWhile)
  ultimately show thesis using that m by (metis set_takeWhileD)
qed

lemma credentialAt_shorter: "credentialAt s = Some (kept, rest) \<Longrightarrow> length rest < length s"
  by (erule credentialAt_split) simp

text \<open>\<open>ReplaceAllString\<close>: leftmost matches, left to right, none inside another.\<close>

function maskCredentials :: "string \<Rightarrow> string" where
  "maskCredentials s = (case s of [] \<Rightarrow> []
     | c # cs \<Rightarrow> (case credentialAt s of
           None \<Rightarrow> c # maskCredentials cs
         | Some (kept, rest) \<Rightarrow> kept @ CHR ''.'' # maskPrefix @ maskCredentials rest))"
  by pat_completeness auto
termination
  by (relation "measure length") (auto dest: credentialAt_shorter)

declare maskCredentials.simps [simp del]

definition credentials :: "string \<Rightarrow> string" where
  "credentials body = (if \<not> containsStr body ''token_'' then body else maskCredentials body)"

text \<open>A text in which the expression matches nowhere.\<close>

definition credentialFree :: "string \<Rightarrow> bool" where
  "credentialFree s \<longleftrightarrow> (\<forall>i \<le> length s. credentialAt (drop i s) = None)"

lemma credentialFree_Nil [simp]: "credentialFree []"
  by (simp add: credentialFree_def credentialAt_def hasPrefix_def)

lemma credentialFree_Cons: "credentialFree (c # s) \<longleftrightarrow> credentialAt (c # s) = None \<and> credentialFree s"
  by (simp add: credentialFree_def all_le_Suc)

lemma maskCredentials_Nil [simp]: "maskCredentials [] = []"
  by (subst maskCredentials.simps) simp

lemma maskCredentials_free: "credentialFree s \<Longrightarrow> maskCredentials s = s"
  by (induction s) (simp_all add: credentialFree_Cons maskCredentials.simps [of "_ # _"])

lemma not_containing_free: "\<not> containsStr s ''token_'' \<Longrightarrow> credentialFree s"
proof (unfold credentialFree_def, intro allI impI)
  fix i
  assume "\<not> containsStr s ''token_''"
  then have "\<not> hasPrefix (drop i s) ''token_''"
    by (metis append_take_drop_id containsStr_iff hasPrefix_iff)
  then show "credentialAt (drop i s) = None" by (simp add: credentialAt_def)
qed

text \<open>
  A match in terms of the maximal run at the front and the run behind the dot that follows it:
  masking keeps the first and never lengthens the second, so it creates no match.
\<close>

abbreviation credRun :: "string \<Rightarrow> string" where
  "credRun s \<equiv> takeWhile credChar s"

abbreviation credTail :: "string \<Rightarrow> string" where
  "credTail s \<equiv> dropWhile credChar s"

lemma token_cred: "\<forall>c \<in> set ''token_''. credChar c"
  by (simp add: credChar_def)

lemma credentialAt_None_iff:
  "credentialAt s = None \<longleftrightarrow>
   \<not> (hasPrefix (credRun s) ''token_'' \<and> 12 \<le> length (credRun s)
      \<and> (\<exists>r. credTail s = CHR ''.'' # r \<and> 16 \<le> length (credRun r)))"
proof (cases "hasPrefix s ''token_''")
  case True
  then obtain t where t: "s = ''token_'' @ t" by (auto simp: hasPrefix_iff)
  have run: "credRun s = ''token_'' @ credRun t" and tail: "credTail s = credTail t"
    unfolding t by (simp_all add: credChar_def)
  have d: "drop 6 s = t" by (simp add: t)
  have split: "(r = [] \<or> hd r \<noteq> CHR ''.'') = (\<nexists>r'. r = CHR ''.'' # r')" for r
    by (cases r) auto
  show ?thesis
    unfolding credentialAt_def run tail d Let_def
    using True by (cases "credTail t") (auto simp: not_le simp del: dropWhile_eq_Nil_conv)
next
  case False
  moreover have "s = credRun s @ credTail s" by simp
  ultimately have "\<not> hasPrefix (credRun s) ''token_''"
    unfolding hasPrefix_iff by (metis append.assoc)
  then show ?thesis using False by (simp add: credentialAt_def)
qed

lemma credentialAt_run_tail:
  assumes "credentialAt s = Some (kept, rest)"
  shows "credRun s = kept" "\<exists>secret. s = kept @ CHR ''.'' # secret @ rest \<and> credTail s = CHR ''.'' # secret @ rest"
proof -
  obtain ident secret where c: "kept = ''token_'' @ ident" "s = kept @ CHR ''.'' # secret @ rest"
    "\<forall>c \<in> set ident. credChar c" by (rule credentialAt_split [OF assms])
  have k: "\<forall>c \<in> set kept. credChar c" using c(1,3) token_cred by auto
  have dot: "\<not> credChar (CHR ''.'')" by (simp add: credChar_def)
  show "credRun s = kept" using k dot by (simp add: c(2))
  show "\<exists>secret. s = kept @ CHR ''.'' # secret @ rest \<and> credTail s = CHR ''.'' # secret @ rest"
    using k dot c(2) by (intro exI [of _ secret]) simp
qed

lemma mask_not_cred: "credRun (maskPrefix @ s) = []"
  by (simp add: maskPrefix_def credChar_def)

lemma maskCredentials_match:
  "credentialAt s = Some (kept, rest) \<Longrightarrow> maskCredentials s = kept @ CHR ''.'' # maskPrefix @ maskCredentials rest"
  by (cases s) (simp_all add: credentialAt_def hasPrefix_def maskCredentials.simps [of "_ # _"])

lemma maskCredentials_step:
  "credentialAt (c # cs) = None \<Longrightarrow> maskCredentials (c # cs) = c # maskCredentials cs"
  by (simp add: maskCredentials.simps [of "_ # _"])

lemma kept_run: 
  assumes "credentialAt s = Some (kept, rest)"
  shows "credRun (kept @ CHR ''.'' # t) = kept" "credTail (kept @ CHR ''.'' # t) = CHR ''.'' # t"
proof -
  have "\<forall>c \<in> set kept. credChar c"
    using credentialAt_run_tail(1) [OF assms] by (metis set_takeWhileD)
  then show "credRun (kept @ CHR ''.'' # t) = kept" "credTail (kept @ CHR ''.'' # t) = CHR ''.'' # t"
    by (simp_all add: credChar_def)
qed

lemma mask_run: "credRun (maskCredentials s) = credRun s"
proof (induction s)
  case (Cons c cs)
  show ?case
  proof (cases "credentialAt (c # cs)")
    case None
    then show ?thesis using Cons by (simp add: maskCredentials_step)
  next
    case (Some m)
    then obtain kept rest where m: "credentialAt (c # cs) = Some (kept, rest)" by (cases m) auto
    show ?thesis
      unfolding maskCredentials_match [OF m] kept_run(1) [OF m] credentialAt_run_tail(1) [OF m] ..
  qed
qed simp

lemma mask_tail:
  "credTail (maskCredentials s) = CHR ''.'' # r' \<Longrightarrow>
   \<exists>r. credTail s = CHR ''.'' # r \<and> length (credRun r') \<le> length (credRun r)"
proof (induction s)
  case (Cons c cs)
  show ?case
  proof (cases "credentialAt (c # cs)")
    case None
    show ?thesis
    proof (cases "credChar c")
      case True
      then show ?thesis using None Cons by (simp add: maskCredentials_step)
    next
      case False
      then have "c = CHR ''.''" "r' = maskCredentials cs"
        using None Cons.prems by (simp_all add: maskCredentials_step)
      then show ?thesis using False by (simp add: mask_run)
    qed
  next
    case (Some m)
    then obtain kept rest where m: "credentialAt (c # cs) = Some (kept, rest)" by (cases m) auto
    have "r' = maskPrefix @ maskCredentials rest"
      using Cons.prems unfolding maskCredentials_match [OF m] kept_run(2) [OF m] by simp
    then have "credRun r' = []" by (simp add: mask_not_cred)
    then show ?thesis using credentialAt_run_tail(2) [OF m] by auto
  qed
qed simp

lemma mask_creates_none:
  assumes "credentialAt (c # cs) = None"
  shows "credentialAt (c # maskCredentials cs) = None"
proof -
  have run: "credRun (c # maskCredentials cs) = credRun (c # cs)"
    by (simp add: mask_run)
  have "\<exists>r. credTail (c # cs) = CHR ''.'' # r \<and> length (credRun r') \<le> length (credRun r)"
    if "credTail (c # maskCredentials cs) = CHR ''.'' # r'" for r'
    using that mask_tail [of cs r'] by (auto simp: mask_run split: if_splits)
  then show ?thesis
    using assms unfolding credentialAt_None_iff run by (meson le_trans)
qed

lemma free_append:
  "(\<forall>i < length a. credentialAt (drop i a @ b) = None) \<Longrightarrow> credentialFree b \<Longrightarrow> credentialFree (a @ b)"
proof (induction a)
  case (Cons c a)
  have "credentialAt (drop i a @ b) = None" if "i < length a" for i
    using Cons.prems(1) [rule_format, of "Suc i"] that by simp
  moreover have "credentialAt (c # a @ b) = None" using Cons.prems(1) [rule_format, of 0] by simp
  ultimately show ?case using Cons by (simp add: credentialFree_Cons)
qed simp

lemma credentialAt_no_run: "credRun s = [] \<Longrightarrow> credentialAt s = None"
  by (simp add: credentialAt_None_iff)

lemma kept_free:
  assumes m: "credentialAt s = Some (kept, rest)" and free: "credentialFree t"
  shows "credentialFree (kept @ CHR ''.'' # maskPrefix @ t)"
proof -
  have cred: "\<forall>c \<in> set kept. credChar c"
    using credentialAt_run_tail(1) [OF m] by (metis set_takeWhileD)
  have dot: "\<not> credChar (CHR ''.'')" "\<not> credChar (CHR ''*'')" by (simp_all add: credChar_def)
  have "credentialAt (drop i kept @ CHR ''.'' # maskPrefix @ t) = None" for i
  proof -
    have "\<forall>c \<in> set (drop i kept). credChar c" using cred by (meson in_set_dropD)
    then have "credTail (drop i kept @ CHR ''.'' # maskPrefix @ t) = CHR ''.'' # maskPrefix @ t"
      using dot by simp
    then show ?thesis by (auto simp: credentialAt_None_iff mask_not_cred)
  qed
  moreover have "credentialFree (CHR ''.'' # maskPrefix @ t)"
    using free dot by (simp add: maskPrefix_def credentialFree_Cons credentialAt_no_run)
  ultimately show ?thesis by (intro free_append) auto
qed

lemma maskCredentials_credentialFree: "credentialFree (maskCredentials s)"
proof (induction s rule: maskCredentials.induct)
  case (1 s)
  show ?case
  proof (cases s)
    case (Cons c cs)
    show ?thesis
    proof (cases "credentialAt s")
      case None
      then show ?thesis
        using 1(1) [OF Cons] mask_creates_none [of c cs] Cons
        by (simp add: maskCredentials_step credentialFree_Cons)
    next
      case (Some m)
      then obtain kept rest where m: "credentialAt s = Some (kept, rest)" by (cases m) auto
      then show ?thesis
        using 1(2) [OF Cons] kept_free [OF m] by (simp add: maskCredentials_match)
    qed
  qed simp
qed

subsection \<open>Results\<close>

text \<open>
  C28: after \<open>Credentials\<close> no machine credential is left in a body: the expression matches
  nowhere in the result, so masking twice is masking once.
\<close>

theorem credentials_leave_none:
  "credentialFree (credentials body) \<and> credentials (credentials body) = credentials body"
proof -
  have free: "credentialFree (credentials t)" for t
    by (simp add: credentials_def not_containing_free maskCredentials_credentialFree)
  then have "maskCredentials (credentials body) = credentials body"
    by (rule maskCredentials_free)
  then show ?thesis using free [of body] by (simp add: credentials_def [where body = "credentials body"])
qed

text \<open>
  A credential on its own loses its secret half and keeps its identifier, whatever follows
  that cannot extend the secret.
\<close>

theorem credential_masked:
  assumes "\<forall>c \<in> set ident. credChar c" "6 \<le> length ident" "\<forall>c \<in> set secret. credChar c" "16 \<le> length secret"
    and "rest = [] \<or> \<not> credChar (hd rest)"
  shows "credentials (''token_'' @ ident @ CHR ''.'' # secret @ rest)
    = ''token_'' @ ident @ CHR ''.'' # maskPrefix @ maskCredentials rest"
proof -
  have dot: "\<not> credChar (CHR ''.'')" by (simp add: credChar_def)
  have r: "credRun (secret @ rest) = secret" "credTail (secret @ rest) = rest"
    using assms(3,5) by (cases rest; simp)+
  have "credentialAt (''token_'' @ ident @ CHR ''.'' # secret @ rest) = Some (''token_'' @ ident, rest)"
    using assms dot r by (simp add: credentialAt_def Let_def hasPrefix_def)
  from maskCredentials_match [OF this] show ?thesis
    by (simp add: credentials_def containsStr_iff) (metis append_Cons append_Nil)
qed

theorem credential_masked_witness:
  "credentials (''token_'' @ ''abcdef'' @ CHR ''.'' # ''0123456789abcdef'' @ [])
    = ''token_'' @ ''abcdef'' @ CHR ''.'' # maskPrefix @ maskCredentials []"
  by (rule credential_masked) (simp_all add: credChar_def)

text \<open>
  What remains of a sensitive value.  \<open>Map\<close> keeps the keys and the values under insensitive
  keys; a value under a sensitive key becomes the mask followed by at most its last four bytes,
  and by none of them when it has fewer than ten.
\<close>

theorem redact_map_reveals:
  "map fst (redactMap U m ps) = map fst m
   \<and> map_of (redactMap U m ps) k = map_option (\<lambda>v. if isSensitive U k ps then maskValue v else v) (map_of m k)
   \<and> (\<exists>tail. maskValue v = maskPrefix @ tail \<and> hasSuffix v tail \<and> length tail = (if length v < 10 then 0 else 4))"
proof -
  have "map fst (redactMap U m ps) = map fst m"
    by (simp add: redactMap_def comp_def case_prod_unfold)
  moreover have "hasSuffix v (drop (length v - 4) v)"
    by (metis append_take_drop_id hasSuffix_append)
  then have "\<exists>tail. maskValue v = maskPrefix @ tail \<and> hasSuffix v tail \<and> length tail = (if length v < 10 then 0 else 4)"
    by (simp add: maskValue_def hasSuffix_def)
  ultimately show ?thesis by (simp add: map_of_redactMap)
qed

text \<open>
  A match consumes its secret half, so when that half is itself the identifier of a second
  credential, the second secret stays in the text.
\<close>

theorem overlapping_credential_leaks:
  "credentials ''token_aaaaaa.token_bbbbbbbbbb.SECRETSECRETSECRET'' = ''token_aaaaaa.*********.SECRETSECRETSECRET''"
  by code_simp

end
