(* ===== verification/HeaderList.thy ===== *)
theory HeaderList
  imports GoText
begin

text \<open>
  Comma-separated header lists, the shape \<open>tracestate\<close> and \<open>baggage\<close> share: members are parsed one
  by one, bad ones skipped, the first member of a key kept, and at most a fixed number of them.
  \<open>header_members\<close> is the contract between that loop and the parser and renderer of a member.
\<close>

type_synonym member = "string \<times> string"

fun collectMembers :: "(string \<Rightarrow> member option) \<Rightarrow> nat \<Rightarrow> string list \<Rightarrow> member list \<Rightarrow> member list" where
  "collectMembers parse limit [] members = members"
| "collectMembers parse limit (raw # raws) members =
     (if limit \<le> length members then members
      else case parse raw of
          None \<Rightarrow> collectMembers parse limit raws members
        | Some m \<Rightarrow>
            if fst m \<in> fst ` set members then collectMembers parse limit raws members
            else collectMembers parse limit raws (members @ [m]))"

definition renderMembers :: "(member \<Rightarrow> string) \<Rightarrow> member list \<Rightarrow> string" where
  "renderMembers render ms = joinStr '','' (map render ms)"

lemma collect_limit:
  "length ms \<le> limit \<Longrightarrow> length (collectMembers parse limit raws ms) \<le> limit"
  by (induction parse limit raws ms rule: collectMembers.induct) (auto split: option.splits)

lemma collect_distinct:
  "distinct (map fst ms) \<Longrightarrow> distinct (map fst (collectMembers parse limit raws ms))"
  by (induction parse limit raws ms rule: collectMembers.induct) (auto split: option.splits)

lemma set_joinStr: "set (joinStr [c] xs) \<subseteq> insert c (\<Union>x \<in> set xs. set x)"
  by (induction "[c]" xs rule: joinStr.induct) auto

lemma hd_joinStr: "xs \<noteq> [] \<Longrightarrow> hd xs \<noteq> [] \<Longrightarrow> hd (joinStr sep xs) = hd (hd xs) \<and> joinStr sep xs \<noteq> []"
  by (induction sep xs rule: joinStr.induct) auto

lemma last_joinStr:
  "xs \<noteq> [] \<Longrightarrow> \<forall>x \<in> set xs. x \<noteq> [] \<Longrightarrow> last (joinStr sep xs) = last (last xs)"
proof (induction sep xs rule: joinStr.induct)
  case (3 sep x y ys)
  then have "joinStr sep (y # ys) \<noteq> []" using hd_joinStr [of "y # ys" sep] by auto
  with 3 show ?case by simp
qed auto

definition printable :: "char \<Rightarrow> bool" where
  "printable c \<longleftrightarrow> 32 \<le> ord c \<and> ord c \<le> 126"

lemma printable_not_space: "printable c \<Longrightarrow> c \<noteq> CHR '' '' \<Longrightarrow> \<not> asciiSpace c \<and> ord c < 128"
  using of_char_eq_iff [of c "CHR '' ''", where 'a = nat] by (auto simp: printable_def asciiSpace_def simp del: of_char_eq_iff)

text \<open>A rendered member: printable, without a comma, and with nothing at its ends to trim.\<close>

definition plainMember :: "string \<Rightarrow> bool" where
  "plainMember s \<longleftrightarrow> s \<noteq> [] \<and> (\<forall>c \<in> set s. printable c \<and> c \<noteq> CHR '','') \<and> hd s \<noteq> CHR '' '' \<and> last s \<noteq> CHR '' ''"

locale header_members =
  fixes parse :: "string \<Rightarrow> member option"
    and render :: "member \<Rightarrow> string"
    and good :: "member \<Rightarrow> bool"
    and limit :: nat
  assumes parse_good: "parse raw = Some m \<Longrightarrow> good m"
    and parse_render: "good m \<Longrightarrow> parse (render m) = Some m"
    and render_plain: "good m \<Longrightarrow> plainMember (render m)"
begin

abbreviation collect :: "string list \<Rightarrow> member list" where
  "collect raws \<equiv> collectMembers parse limit raws []"

lemma collect_good_acc: "\<forall>m \<in> set ms. good m \<Longrightarrow> \<forall>m \<in> set (collectMembers parse limit raws ms). good m"
proof (induction raws arbitrary: ms)
  case (Cons raw raws)
  show ?case
  proof (cases "parse raw")
    case (Some m)
    then have ms: "\<forall>x \<in> set (ms @ [m]). good x" using Cons.prems parse_good by auto
    show ?thesis
      using Cons.prems Cons.IH [OF Cons.prems] Cons.IH [OF ms] by (simp only: collectMembers.simps Some option.case split: if_split) simp
  qed (use Cons in simp)
qed simp

lemma collect_good: "m \<in> set (collect raws) \<Longrightarrow> good m"
  using collect_good_acc [of "[]" raws] by simp

lemma collect_rendered:
  assumes "\<forall>m \<in> set ms. good m" "distinct (map fst (acc @ ms))" "length (acc @ ms) \<le> limit"
  shows "collectMembers parse limit (map render ms) acc = acc @ ms"
  using assms
proof (induction ms arbitrary: acc)
  case (Cons m ms)
  then have "collectMembers parse limit (map render ms) (acc @ [m]) = (acc @ [m]) @ ms"
    by (intro Cons.IH) auto
  then show ?case using Cons.prems by (auto simp: parse_render)
qed simp

lemma rendered_stable:
  assumes "\<forall>m \<in> set ms. good m" "distinct (map fst ms)" "length ms \<le> limit" "ms \<noteq> []"
  shows "trimSpace (renderMembers render ms) = renderMembers render ms" "renderMembers render ms \<noteq> []"
    "collect (splitByte (CHR '','') (renderMembers render ms)) = ms"
proof -
  let ?xs = "map render ms"
  have p: "\<forall>x \<in> set ?xs. plainMember x" using assms(1) render_plain by simp
  have ne: "?xs \<noteq> []" using assms(4) by simp
  have hd: "hd (renderMembers render ms) = hd (hd ?xs)" "renderMembers render ms \<noteq> []"
    using hd_joinStr [OF ne] p ne by (simp_all add: renderMembers_def plainMember_def hd_map)
  have last: "last (renderMembers render ms) = last (last ?xs)"
    unfolding renderMembers_def using last_joinStr [OF ne] p by (simp add: plainMember_def)
  have "plainMember (hd ?xs)" "plainMember (last ?xs)"
    using p hd_in_set [OF ne] last_in_set [OF ne] by metis+
  then have "trimSpace (renderMembers render ms) = renderMembers render ms"
    unfolding plainMember_def by (intro trimSpace_id) (simp add: hd last printable_not_space)
  then show "trimSpace (renderMembers render ms) = renderMembers render ms" "renderMembers render ms \<noteq> []"
    using hd by auto
  have "splitByte (CHR '','') (renderMembers render ms) = ?xs"
    unfolding renderMembers_def using ne p by (intro split_join) (auto simp: plainMember_def)
  then show "collect (splitByte (CHR '','') (renderMembers render ms)) = ms"
    using collect_rendered [of ms "[]"] assms by simp
qed

lemma rendered_printable:
  "c \<in> set (renderMembers render (collect raws)) \<Longrightarrow> printable c"
proof -
  assume "c \<in> set (renderMembers render (collect raws))"
  then consider "c = CHR '',''" | m where "m \<in> set (collect raws)" "c \<in> set (render m)"
    using set_joinStr [of "CHR '',''" "map render (collect raws)"] by (auto simp: renderMembers_def)
  then show ?thesis
  proof cases
    case 2
    then have "plainMember (render m)" using render_plain collect_good by blast
    then show ?thesis using 2 by (simp add: plainMember_def)
  qed (simp add: printable_def)
qed

end

end
