(* ===== verification/Propagation.thy ===== *)
theory Propagation
  imports HeaderList GoNum
begin

text \<open>
  \<open>propagation.go\<close>: the W3C trace context on the wire.  What a process writes
  (\<open>FormatTraceparent\<close>), what it is willing to believe (\<open>ParseTraceparentContext\<close>), and the
  companion headers it forwards (\<open>NormalizeTracestate\<close>, \<open>NormalizeBaggage\<close>).
\<close>

subsection \<open>traceparent\<close>

record remoteContext =
  rcTraceID :: string
  rcSpanID :: string
  rcSampled :: bool
  rcTracestate :: string
  rcBaggage :: string

definition noRemote :: remoteContext where
  "noRemote = \<lparr>rcTraceID = [], rcSpanID = [], rcSampled = False, rcTracestate = [], rcBaggage = []\<rparr>"

definition remoteValid :: "remoteContext \<Rightarrow> bool" where
  "remoteValid r \<longleftrightarrow> rcTraceID r \<noteq> [] \<and> rcSpanID r \<noteq> []"

definition lowerHex :: "string \<Rightarrow> nat \<Rightarrow> bool" where
  "lowerHex v n \<longleftrightarrow> length v = n \<and> list_all lowerHexChar v"

definition allZero :: "string \<Rightarrow> bool" where
  "allZero v \<longleftrightarrow> list_all (\<lambda>c. c = CHR ''0'') v \<and> v \<noteq> []"

definition hexNibble :: "char \<Rightarrow> nat option" where
  "hexNibble c =
     (if 48 \<le> ord c \<and> ord c \<le> 57 then Some (ord c - 48)
      else if 97 \<le> ord c \<and> ord c \<le> 102 then Some (ord c - 97 + 10)
      else if 65 \<le> ord c \<and> ord c \<le> 70 then Some (ord c - 65 + 10)
      else None)"

text \<open>\<open>strconv.ParseUint(s, 16, 8)\<close> of a string of two characters.\<close>

definition parseHexByte :: "string \<Rightarrow> nat option" where
  "parseHexByte s = (case s of
     [a, b] \<Rightarrow> (case (hexNibble a, hexNibble b) of (Some h, Some l) \<Rightarrow> Some (16 * h + l) | _ \<Rightarrow> None)
   | _ \<Rightarrow> None)"

definition parseTraceparentContext :: "string \<Rightarrow> remoteContext option" where
  "parseTraceparentContext header =
     (case splitByte (CHR ''-'') (trimSpace header) of
        [version, trace, span, flags] \<Rightarrow>
          if version \<noteq> ''00'' then None
          else if \<not> lowerHex trace 32 \<or> \<not> lowerHex span 16 \<or> \<not> lowerHex flags 2 then None
          else if allZero trace \<or> allZero span then None
          else (case parseHexByte flags of None \<Rightarrow> None
            | Some n \<Rightarrow> Some (noRemote\<lparr>rcTraceID := trace, rcSpanID := span, rcSampled := odd n\<rparr>))
      | _ \<Rightarrow> None)"

text \<open>\<open>ParseTraceparent\<close>: the identity alone.\<close>

definition parseTraceparent :: "string \<Rightarrow> (string \<times> string) option" where
  "parseTraceparent header = map_option (\<lambda>r. (rcTraceID r, rcSpanID r)) (parseTraceparentContext header)"

definition formatTraceparent :: "string \<Rightarrow> string \<Rightarrow> bool \<Rightarrow> string" where
  "formatTraceparent trace span sampled =
     (if trace = [] \<or> span = [] then []
      else ''00-'' @ trace @ ''-'' @ span @ ''-'' @ (if sampled then ''01'' else ''00''))"

definition validIds :: "string \<Rightarrow> string \<Rightarrow> bool" where
  "validIds trace span \<longleftrightarrow> lowerHex trace 32 \<and> lowerHex span 16 \<and> \<not> allZero trace \<and> \<not> allZero span"

lemma lowerHexChar_plain: "lowerHexChar c \<Longrightarrow> c \<noteq> CHR ''-'' \<and> \<not> asciiSpace c \<and> ord c < 128"
  by (auto simp: lowerHexChar_def asciiSpace_def)

lemma lowerHex_no_dash: "lowerHex v n \<Longrightarrow> CHR ''-'' \<notin> set v"
  by (auto simp: lowerHex_def list_all_iff dest: lowerHexChar_plain)

lemma parse_format:
  assumes "validIds trace span"
  shows "parseTraceparentContext (formatTraceparent trace span sampled)
    = Some (noRemote\<lparr>rcTraceID := trace, rcSpanID := span, rcSampled := sampled\<rparr>)"
proof -
  define flags where "flags = (if sampled then ''01'' else ''00'')"
  have ids: "lowerHex trace 32" "lowerHex span 16" "\<not> allZero trace" "\<not> allZero span"
    using assms by (simp_all add: validIds_def)
  have ne: "trace \<noteq> []" "span \<noteq> []" using ids by (auto simp: lowerHex_def)
  have fmt: "formatTraceparent trace span sampled = ''00'' @ CHR ''-'' # trace @ CHR ''-'' # span @ CHR ''-'' # flags"
    by (simp add: formatTraceparent_def ne flags_def)
  have trim: "trimSpace (formatTraceparent trace span sampled) = formatTraceparent trace span sampled"
    unfolding fmt by (rule trimSpace_id) (simp add: flags_def asciiSpace_def)
  have dash: "CHR ''-'' \<notin> set ''00''" "CHR ''-'' \<notin> set trace" "CHR ''-'' \<notin> set span" "CHR ''-'' \<notin> set flags"
    using ids by (simp_all add: lowerHex_no_dash flags_def)
  have split: "splitByte (CHR ''-'') (trimSpace (formatTraceparent trace span sampled)) = [''00'', trace, span, flags]"
    unfolding fmt trim [unfolded fmt] using dash by (simp add: splitByte_append splitByte_nosep)
  have "lowerHex flags 2" by (simp add: flags_def lowerHex_def lowerHexChar_def)
  moreover have "parseHexByte flags = Some (if sampled then 1 else 0)"
    by (simp add: flags_def parseHexByte_def hexNibble_def)
  ultimately show ?thesis
    unfolding parseTraceparentContext_def split using ids by simp
qed

lemma parse_valid:
  "parseTraceparentContext h = Some r \<Longrightarrow>
   validIds (rcTraceID r) (rcSpanID r) \<and> rcTracestate r = [] \<and> rcBaggage r = []"
  by (auto simp: parseTraceparentContext_def validIds_def noRemote_def split: list.splits if_splits option.splits)

subsection \<open>tracestate\<close>

definition maxTracestateEntries :: nat where
  "maxTracestateEntries = 32"

definition tracestateKeyStart :: "char \<Rightarrow> bool \<Rightarrow> bool" where
  "tracestateKeyStart c digitsAllowed \<longleftrightarrow>
     (97 \<le> ord c \<and> ord c \<le> 122) \<or> (digitsAllowed \<and> 48 \<le> ord c \<and> ord c \<le> 57)"

definition keyTailChar :: "char \<Rightarrow> bool" where
  "keyTailChar c \<longleftrightarrow> (97 \<le> ord c \<and> ord c \<le> 122) \<or> (48 \<le> ord c \<and> ord c \<le> 57) \<or> c \<in> set ''_-*/''"

definition tracestateKeyTail :: "string \<Rightarrow> bool" where
  "tracestateKeyTail tail \<longleftrightarrow> list_all keyTailChar tail"

definition validTracestateKey :: "string \<Rightarrow> bool" where
  "validTracestateKey key =
     (case indexByte key (CHR ''@'') of
        Some i \<Rightarrow>
          (let tenant = take i key; system = drop (Suc i) key in
           1 \<le> length tenant \<and> length tenant \<le> 241 \<and> 1 \<le> length system \<and> length system \<le> 14
           \<and> tracestateKeyStart (hd tenant) True \<and> tracestateKeyTail (tl tenant)
           \<and> tracestateKeyStart (hd system) False \<and> tracestateKeyTail (tl system))
      | None \<Rightarrow>
          1 \<le> length key \<and> length key \<le> 256 \<and> tracestateKeyStart (hd key) False \<and> tracestateKeyTail (tl key))"

definition validTracestateValue :: "string \<Rightarrow> bool" where
  "validTracestateValue v \<longleftrightarrow> 1 \<le> length v \<and> length v \<le> 256
     \<and> list_all (\<lambda>c. 32 \<le> ord c \<and> ord c \<le> 126 \<and> c \<noteq> CHR '','' \<and> c \<noteq> CHR ''='') v
     \<and> last v \<noteq> CHR '' '' \<and> last v \<noteq> CHR 0x09"

definition renderPlain :: "member \<Rightarrow> string" where
  "renderPlain m = fst m @ CHR ''='' # snd m"

definition tracestateMember :: "string \<Rightarrow> member option" where
  "tracestateMember raw =
     (let member = trimSpace raw in
      if member = [] then None
      else case indexByte member (CHR ''='') of
          None \<Rightarrow> None
        | Some i \<Rightarrow>
            if i = 0 then None
            else if validTracestateKey (take i member) \<and> validTracestateValue (drop (Suc i) member)
            then Some (take i member, drop (Suc i) member) else None)"

definition normalizeTracestate :: "string \<Rightarrow> string" where
  "normalizeTracestate header =
     (let h = trimSpace header in
      if h = [] then []
      else renderMembers renderPlain
        (collectMembers tracestateMember maxTracestateEntries (splitByte (CHR '','') h) []))"

definition goodTracestate :: "member \<Rightarrow> bool" where
  "goodTracestate m \<longleftrightarrow> validTracestateKey (fst m) \<and> validTracestateValue (snd m)"

lemma keyStart_char: "tracestateKeyStart c b \<Longrightarrow> printable c \<and> c \<noteq> CHR '','' \<and> c \<noteq> CHR ''='' \<and> c \<noteq> CHR '' ''"
  by (auto simp: tracestateKeyStart_def printable_def)

lemma keyTail_char: "keyTailChar c \<Longrightarrow> printable c \<and> c \<noteq> CHR '','' \<and> c \<noteq> CHR ''='' \<and> c \<noteq> CHR '' ''"
  by (auto simp: keyTailChar_def printable_def)

definition keyChar :: "char \<Rightarrow> bool" where
  "keyChar c \<longleftrightarrow> printable c \<and> c \<noteq> CHR '','' \<and> c \<noteq> CHR ''='' \<and> c \<noteq> CHR '' ''"

lemma start_tail_chars:
  "1 \<le> length s \<Longrightarrow> tracestateKeyStart (hd s) b \<Longrightarrow> tracestateKeyTail (tl s) \<Longrightarrow> \<forall>c \<in> set s. keyChar c"
  using keyStart_char keyTail_char
  by (cases s) (auto simp: tracestateKeyTail_def list_all_iff keyChar_def)

lemma validTracestateKey_chars: "validTracestateKey k \<Longrightarrow> k \<noteq> [] \<and> (\<forall>c \<in> set k. keyChar c)"
proof (cases "indexByte k (CHR ''@'')")
  case None
  then show "validTracestateKey k \<Longrightarrow> k \<noteq> [] \<and> (\<forall>c \<in> set k. keyChar c)"
    using start_tail_chars [of k False] by (auto simp: validTracestateKey_def)
next
  case (Some i)
  then have k: "k = take i k @ CHR ''@'' # drop (Suc i) k"
    using indexByte_Some [OF Some] by (metis id_take_nth_drop)
  define tenant system where "tenant = take i k" and "system = drop (Suc i) k"
  assume "validTracestateKey k"
  then have "\<forall>c \<in> set tenant. keyChar c" "\<forall>c \<in> set system. keyChar c"
    using start_tail_chars [of tenant True] start_tail_chars [of system False]
    unfolding validTracestateKey_def Some option.case Let_def tenant_def [symmetric] system_def [symmetric]
    by blast+
  then have "\<forall>c \<in> set (take i k). keyChar c" "\<forall>c \<in> set (drop (Suc i) k). keyChar c"
    by (simp_all add: tenant_def system_def)
  moreover have "keyChar (CHR ''@'')" by (simp add: keyChar_def printable_def)
  ultimately have "\<forall>c \<in> set (take i k @ CHR ''@'' # drop (Suc i) k). keyChar c" by auto
  then show ?thesis using k by (metis append_is_Nil_conv list.distinct(1))
qed

lemma plain_renderPlain:
  assumes "k \<noteq> []" "\<forall>c \<in> set k. keyChar c" "v \<noteq> []" "\<forall>c \<in> set v. printable c \<and> c \<noteq> CHR '',''" "last v \<noteq> CHR '' ''"
  shows "plainMember (renderPlain (k, v))"
  using assms by (auto simp: plainMember_def renderPlain_def keyChar_def printable_def)

lemma plainMember_trim: "plainMember s \<Longrightarrow> trimSpace s = s"
proof (rule trimSpace_id)
  assume p: "plainMember s"
  then have "hd s \<in> set s" "last s \<in> set s" by (simp_all add: plainMember_def)
  with p have e: "printable (hd s)" "hd s \<noteq> CHR '' ''" "printable (last s)" "last s \<noteq> CHR '' ''"
    unfolding plainMember_def by blast+
  show "s = [] \<or> \<not> asciiSpace (hd s) \<and> ord (hd s) < 128 \<and> \<not> asciiSpace (last s) \<and> ord (last s) < 128"
    using printable_not_space [OF e(1,2)] printable_not_space [OF e(3,4)] by simp
qed

lemma validTracestateValue_nonempty: "validTracestateValue v \<Longrightarrow> v \<noteq> []"
  by (auto simp only: validTracestateValue_def list.size)

lemma validTracestateValue_chars: "validTracestateValue v \<Longrightarrow> \<forall>c \<in> set v. printable c \<and> c \<noteq> CHR '',''"
  unfolding validTracestateValue_def list_all_iff printable_def by blast

lemma validTracestateValue_last: "validTracestateValue v \<Longrightarrow> last v \<noteq> CHR '' ''"
  unfolding validTracestateValue_def by blast

lemma goodTracestate_plain:
  assumes "goodTracestate m"
  shows "plainMember (renderPlain m)" "indexByte (renderPlain m) (CHR ''='') = Some (length (fst m))" "fst m \<noteq> []"
proof -
  have k: "fst m \<noteq> []" "\<forall>c \<in> set (fst m). keyChar c"
    using assms validTracestateKey_chars [of "fst m"] unfolding goodTracestate_def by blast+
  have v: "snd m \<noteq> []" "\<forall>c \<in> set (snd m). printable c \<and> c \<noteq> CHR '',''" "last (snd m) \<noteq> CHR '' ''"
    using assms validTracestateValue_nonempty validTracestateValue_chars validTracestateValue_last
    unfolding goodTracestate_def by blast+
  show "plainMember (renderPlain m)" using plain_renderPlain [OF k v] by simp
  show "indexByte (renderPlain m) (CHR ''='') = Some (length (fst m))"
    unfolding renderPlain_def using k(2) by (intro indexByte_append) (auto simp: keyChar_def)
  show "fst m \<noteq> []" by (rule k(1))
qed

interpretation tracestate: header_members tracestateMember renderPlain goodTracestate maxTracestateEntries
proof
  fix raw m
  assume "tracestateMember raw = Some m"
  then show "goodTracestate m"
    by (auto simp: tracestateMember_def goodTracestate_def Let_def split: if_splits option.splits)
next
  fix m
  assume g: "goodTracestate m"
  note p = goodTracestate_plain [OF g]
  have "renderPlain m \<noteq> []" by (simp add: renderPlain_def)
  moreover have "take (length (fst m)) (renderPlain m) = fst m" "drop (Suc (length (fst m))) (renderPlain m) = snd m"
    by (simp_all add: renderPlain_def)
  ultimately show "tracestateMember (renderPlain m) = Some m"
    using g p by (simp add: tracestateMember_def plainMember_trim goodTracestate_def)
next
  fix m
  assume "goodTracestate m"
  then show "plainMember (renderPlain m)" by (rule goodTracestate_plain)
qed

subsection \<open>baggage\<close>

definition maxBaggageEntries :: nat where
  "maxBaggageEntries = 64"

definition maxBaggageHeaderBytes :: nat where
  "maxBaggageHeaderBytes = 8192"

definition maxBaggageValueBytes :: nat where
  "maxBaggageValueBytes = 4096"

definition maxBaggageKeyBytes :: nat where
  "maxBaggageKeyBytes = 256"

definition alnum :: "char \<Rightarrow> bool" where
  "alnum c \<longleftrightarrow> (97 \<le> ord c \<and> ord c \<le> 122) \<or> (65 \<le> ord c \<and> ord c \<le> 90) \<or> (48 \<le> ord c \<and> ord c \<le> 57)"

definition tokenChar :: "char \<Rightarrow> bool" where
  "tokenChar c \<longleftrightarrow> alnum c \<or> c \<in> set ''!#$%&*+-.^_`|~'' \<or> c = CHR 0x27"

definition validBaggageKey :: "string \<Rightarrow> bool" where
  "validBaggageKey key \<longleftrightarrow> list_all tokenChar key \<and> key \<noteq> []"

fun percentLoop :: "string \<Rightarrow> string" where
  "percentLoop (c # a # b # s) =
     (if c = CHR ''%'' then
        (case (hexNibble a, hexNibble b) of
           (Some h, Some l) \<Rightarrow> char_of (16 * h + l) # percentLoop s
         | _ \<Rightarrow> c # percentLoop (a # b # s))
      else c # percentLoop (a # b # s))"
| "percentLoop s = s"

definition percentDecode :: "string \<Rightarrow> string" where
  "percentDecode v = (if \<not> containsStr v ''%'' then v else percentLoop v)"

definition unreserved :: "char \<Rightarrow> bool" where
  "unreserved c \<longleftrightarrow> alnum c \<or> c \<in> set ''-_.~''"

definition percentByte :: "char \<Rightarrow> string" where
  "percentByte c =
     (if unreserved c then [c] else [CHR ''%'', hexUpper (ord c div 16), hexUpper (ord c mod 16)])"

definition percentEncode :: "string \<Rightarrow> string" where
  "percentEncode v = concat (map percentByte v)"

definition baggageMember :: "string \<Rightarrow> member option" where
  "baggageMember raw =
     (let m0 = trimSpace raw in
      if m0 = [] then None
      else
        (let m1 = (case indexByte m0 (CHR '';'') of None \<Rightarrow> m0 | Some i \<Rightarrow> trimSpace (take i m0)) in
         case indexByte m1 (CHR ''='') of
           None \<Rightarrow> None
         | Some i \<Rightarrow>
             if i = 0 then None
             else
               (let key = trimSpace (take i m1); encoded = trimSpace (drop (Suc i) m1) in
                if key = [] \<or> encoded = [] \<or> length key > maxBaggageKeyBytes \<or> \<not> validBaggageKey key then None
                else if length (percentDecode encoded) > maxBaggageValueBytes then None
                else Some (key, percentDecode encoded))))"

definition renderEncoded :: "member \<Rightarrow> string" where
  "renderEncoded m = fst m @ CHR ''='' # percentEncode (snd m)"

definition normalizeBaggage :: "string \<Rightarrow> string" where
  "normalizeBaggage header =
     (let h = trimSpace header in
      if h = [] \<or> length h > maxBaggageHeaderBytes then []
      else renderMembers renderEncoded
        (collectMembers baggageMember maxBaggageEntries (splitByte (CHR '','') h) []))"

text \<open>The percent codec: decoding undoes encoding, and an encoded value is plain.\<close>

lemma percentLoop_other: "c \<noteq> CHR ''%'' \<Longrightarrow> percentLoop (c # s) = c # percentLoop s"
  by (cases s rule: percentLoop.cases) auto

lemma hexNibble_hexUpper: "n < 16 \<Longrightarrow> hexNibble (hexUpper n) = Some n"
  by (auto simp: hexUpper_def hexNibble_def)

lemma percentLoop_escape: "percentLoop (CHR ''%'' # hexUpper (ord c div 16) # hexUpper (ord c mod 16) # s) = c # percentLoop s"
proof -
  have "ord c div 16 < 16" "ord c mod 16 < 16"
    using ord_less_256 [of c] by (auto simp: less_mult_imp_div_less)
  then show ?thesis by (simp add: hexNibble_hexUpper)
qed

lemma unreserved_not_percent: "unreserved c \<Longrightarrow> c \<noteq> CHR ''%''"
  by (auto simp: unreserved_def alnum_def)

lemma percentLoop_encode: "percentLoop (percentEncode v) = v"
proof (induction v)
  case (Cons c v)
  then show ?case
    using percentLoop_other [OF unreserved_not_percent [of c], of "percentEncode v"]
      percentLoop_escape [of c "percentEncode v"]
    by (auto simp: percentEncode_def percentByte_def simp del: percentLoop.simps)
qed (simp add: percentEncode_def)

lemma percentLoop_id: "CHR ''%'' \<notin> set v \<Longrightarrow> percentLoop v = v"
  by (induction v) (auto simp: percentLoop_other simp del: percentLoop.simps(1))

lemma percentDecode_loop: "percentDecode v = percentLoop v"
proof -
  have "CHR ''%'' \<in> set v \<Longrightarrow> containsStr v ''%''"
    by (auto simp: containsStr_iff in_set_conv_decomp)
  then show ?thesis by (metis percentDecode_def percentLoop_id)
qed

lemma percent_roundtrip [wire]: "percentDecode (percentEncode v) = v"
  by (simp add: percentDecode_loop percentLoop_encode)

lemma percentLoop_Nil_iff: "percentLoop s = [] \<longleftrightarrow> s = []"
  by (cases s rule: percentLoop.cases) (auto split: option.splits)

text \<open>Characters a key or an encoded value is made of.\<close>

definition wordChar :: "char \<Rightarrow> bool" where
  "wordChar c \<longleftrightarrow> printable c \<and> c \<noteq> CHR '','' \<and> c \<noteq> CHR '';'' \<and> c \<noteq> CHR ''='' \<and> c \<noteq> CHR '' ''"

lemma alnum_word: "alnum c \<Longrightarrow> wordChar c"
  by (auto simp: alnum_def wordChar_def printable_def)

lemma tokenChar_word: "tokenChar c \<Longrightarrow> wordChar c"
proof -
  have "list_all wordChar (CHR 0x27 # ''!#$%&*+-.^_`|~'')" by (simp add: wordChar_def printable_def)
  then show "tokenChar c \<Longrightarrow> wordChar c"
    unfolding tokenChar_def list_all_iff using alnum_word [of c] by auto
qed

lemma hexUpper_word: "n < 16 \<Longrightarrow> wordChar (hexUpper n)"
  by (rule alnum_word) (auto simp: hexUpper_def alnum_def)

lemma percentByte_word: "x \<in> set (percentByte c) \<Longrightarrow> wordChar x"
proof -
  have d: "ord c div 16 < 16" "ord c mod 16 < 16"
    using ord_less_256 [of c] by (auto simp: less_mult_imp_div_less)
  have "list_all wordChar ''-_.~''" "wordChar (CHR ''%'')" by (simp_all add: wordChar_def printable_def)
  then show "x \<in> set (percentByte c) \<Longrightarrow> wordChar x"
    using d hexUpper_word alnum_word [of c]
    unfolding percentByte_def unreserved_def list_all_iff by (auto split: if_splits)
qed

lemma percentEncode_word: "\<forall>x \<in> set (percentEncode v). wordChar x"
  using percentByte_word by (auto simp: percentEncode_def)

lemma percentEncode_Nil_iff [simp]: "percentEncode v = [] \<longleftrightarrow> v = []"
  by (cases v) (auto simp: percentEncode_def percentByte_def)

lemma word_plain: "s \<noteq> [] \<Longrightarrow> \<forall>c \<in> set s. wordChar c \<Longrightarrow> plainMember s"
proof -
  assume ne: "s \<noteq> []" and w: "\<forall>c \<in> set s. wordChar c"
  have "wordChar (hd s)" "wordChar (last s)" using w hd_in_set [OF ne] last_in_set [OF ne] by blast+
  then show "plainMember s"
    using ne w unfolding plainMember_def wordChar_def by blast
qed

definition goodBaggage :: "member \<Rightarrow> bool" where
  "goodBaggage m \<longleftrightarrow> validBaggageKey (fst m) \<and> length (fst m) \<le> maxBaggageKeyBytes
     \<and> snd m \<noteq> [] \<and> length (snd m) \<le> maxBaggageValueBytes"

lemma goodBaggage_words:
  assumes "goodBaggage m"
  shows "fst m \<noteq> []" "\<forall>c \<in> set (fst m). wordChar c" "percentEncode (snd m) \<noteq> []"
  using assms tokenChar_word by (auto simp: goodBaggage_def validBaggageKey_def list_all_iff)

lemma baggage_render:
  assumes g: "goodBaggage m"
  shows "plainMember (renderEncoded m)" "baggageMember (renderEncoded m) = Some m"
proof -
  note k = goodBaggage_words [OF g]
  have e: "plainMember (percentEncode (snd m))" "plainMember (fst m)"
    using word_plain k percentEncode_word by blast+
  show p: "plainMember (renderEncoded m)"
    using k e by (auto simp: plainMember_def renderEncoded_def printable_def)
  have "CHR '';'' \<notin> set (renderEncoded m)"
    using k(2) percentEncode_word [of "snd m"] by (auto simp: renderEncoded_def wordChar_def)
  then have semi: "indexByte (renderEncoded m) (CHR '';'') = None" by simp
  have eq: "indexByte (renderEncoded m) (CHR ''='') = Some (length (fst m))"
    unfolding renderEncoded_def using k(2) by (intro indexByte_append) (auto simp: wordChar_def)
  have split: "take (length (fst m)) (renderEncoded m) = fst m"
    "drop (Suc (length (fst m))) (renderEncoded m) = percentEncode (snd m)"
    by (simp_all add: renderEncoded_def)
  have ne: "renderEncoded m \<noteq> []" by (simp add: renderEncoded_def)
  show "baggageMember (renderEncoded m) = Some m"
    using g k ne
    by (simp add: baggageMember_def Let_def plainMember_trim [OF p] plainMember_trim [OF e(1)] plainMember_trim [OF e(2)]
        semi eq split percent_roundtrip goodBaggage_def)
qed

interpretation baggage: header_members baggageMember renderEncoded goodBaggage maxBaggageEntries
proof
  fix raw m
  assume "baggageMember raw = Some m"
  then show "goodBaggage m"
    by (auto simp: baggageMember_def goodBaggage_def Let_def percentDecode_loop percentLoop_Nil_iff
        split: if_splits option.splits)
qed (simp_all add: baggage_render)

subsection \<open>Results\<close>

text \<open>
  C32: the traceparent a process writes is the one the next process reads, with the publisher's
  own sampling flag, for every pair of ids the parser would accept.
\<close>

theorem traceparent_roundtrip:
  "validIds trace span \<Longrightarrow>
   parseTraceparentContext (formatTraceparent trace span sampled)
     = Some (noRemote\<lparr>rcTraceID := trace, rcSpanID := span, rcSampled := sampled\<rparr>)"
  by (rule parse_format)

definition w3cTrace :: string where
  "w3cTrace = ''4bf92f3577b34da6a3ce929d0e0e4736''"

definition w3cSpan :: string where
  "w3cSpan = ''00f067aa0ba902b7''"

lemma w3c_valid: "validIds w3cTrace w3cSpan"
  by (simp add: validIds_def w3cTrace_def w3cSpan_def lowerHex_def lowerHexChar_def allZero_def)

theorem traceparent_roundtrip_witness:
  "parseTraceparentContext (formatTraceparent w3cTrace w3cSpan False)
     = Some (noRemote\<lparr>rcTraceID := w3cTrace, rcSpanID := w3cSpan, rcSampled := False\<rparr>)"
  by (rule traceparent_roundtrip [OF w3c_valid])

text \<open>
  C33: what the parser believes is canonical.  A header it accepts names lower-case, non-zero
  ids of the right width, and forwarding the parsed context re-renders to a header that parses
  to the same context, so a trace keeps one id however many processes it crosses.
\<close>

theorem traceparent_canonical:
  "case parseTraceparentContext header of
     None \<Rightarrow> True
   | Some r \<Rightarrow> validIds (rcTraceID r) (rcSpanID r)
       \<and> parseTraceparentContext (formatTraceparent (rcTraceID r) (rcSpanID r) (rcSampled r)) = Some r"
proof (cases "parseTraceparentContext header")
  case (Some r)
  note v = parse_valid [OF Some]
  then show ?thesis using parse_format [of "rcTraceID r" "rcSpanID r" "rcSampled r"] Some
    by (simp add: noRemote_def)
qed simp

lemma normalizeTracestate_members:
  obtains ms where "normalizeTracestate h = renderMembers renderPlain ms" "\<forall>m \<in> set ms. goodTracestate m"
    "distinct (map fst ms)" "length ms \<le> maxTracestateEntries" "list_all printable (normalizeTracestate h)"
proof (cases "trimSpace h = []")
  case True
  then show thesis using that [of "[]"] by (simp add: normalizeTracestate_def renderMembers_def)
next
  case False
  let ?ms = "tracestate.collect (splitByte (CHR '','') (trimSpace h))"
  have "normalizeTracestate h = renderMembers renderPlain ?ms"
    using False by (simp add: normalizeTracestate_def)
  then show thesis
    using that [of ?ms] tracestate.collect_good collect_limit [of "[]"] collect_distinct [of "[]"]
      tracestate.rendered_printable by (simp add: list_all_iff)
qed

text \<open>
  C34: a normalised tracestate is safe to forward and stays as it is on every later hop: it
  holds printable bytes only (no CR or LF to inject), at most 32 members with distinct keys,
  each valid, and normalising it again changes nothing.
\<close>

theorem tracestate_stable:
  "list_all printable (normalizeTracestate h)
   \<and> normalizeTracestate (normalizeTracestate h) = normalizeTracestate h
   \<and> (\<exists>ms. normalizeTracestate h = renderMembers renderPlain ms \<and> list_all goodTracestate ms
        \<and> distinct (map fst ms) \<and> length ms \<le> maxTracestateEntries)"
proof -
  obtain ms where ms: "normalizeTracestate h = renderMembers renderPlain ms" "\<forall>m \<in> set ms. goodTracestate m"
    "distinct (map fst ms)" "length ms \<le> maxTracestateEntries" "list_all printable (normalizeTracestate h)"
    by (rule normalizeTracestate_members)
  have "normalizeTracestate (renderMembers renderPlain ms) = renderMembers renderPlain ms"
  proof (cases "ms = []")
    case False
    then show ?thesis using tracestate.rendered_stable [OF ms(2-4)] by (simp add: normalizeTracestate_def)
  qed (simp add: renderMembers_def normalizeTracestate_def)
  then show ?thesis using ms by (auto simp: list_all_iff)
qed

lemma normalizeBaggage_members:
  obtains ms where "normalizeBaggage h = renderMembers renderEncoded ms" "\<forall>m \<in> set ms. goodBaggage m"
    "distinct (map fst ms)" "length ms \<le> maxBaggageEntries" "list_all printable (normalizeBaggage h)"
proof (cases "trimSpace h = [] \<or> length (trimSpace h) > maxBaggageHeaderBytes")
  case True
  then show thesis using that [of "[]"] by (auto simp: normalizeBaggage_def renderMembers_def Let_def)
next
  case False
  let ?ms = "baggage.collect (splitByte (CHR '','') (trimSpace h))"
  have "normalizeBaggage h = renderMembers renderEncoded ?ms"
    using False by (simp add: normalizeBaggage_def)
  then show thesis
    using that [of ?ms] baggage.collect_good collect_limit [of "[]"] collect_distinct [of "[]"]
      baggage.rendered_printable by (simp add: list_all_iff)
qed

lemma baggage_hop:
  "normalizeBaggage (normalizeBaggage h)
     = (if length (normalizeBaggage h) \<le> maxBaggageHeaderBytes then normalizeBaggage h else [])"
proof -
  obtain ms where ms: "normalizeBaggage h = renderMembers renderEncoded ms" "\<forall>m \<in> set ms. goodBaggage m"
    "distinct (map fst ms)" "length ms \<le> maxBaggageEntries" "list_all printable (normalizeBaggage h)"
    by (rule normalizeBaggage_members)
  have "normalizeBaggage (renderMembers renderEncoded ms)
      = (if length (renderMembers renderEncoded ms) \<le> maxBaggageHeaderBytes then renderMembers renderEncoded ms else [])"
  proof (cases "ms = []")
    case False
    then show ?thesis using baggage.rendered_stable [OF ms(2-4)] by (simp add: normalizeBaggage_def)
  qed (simp add: renderMembers_def normalizeBaggage_def)
  then show ?thesis using ms by simp
qed

text \<open>
  C36: a normalised baggage header holds printable bytes only and at most 64 members, and the
  next hop keeps it unchanged when it fits in 8192 bytes; when re-encoding has made it longer,
  the next hop drops all of it.
\<close>

theorem baggage_next_hop:
  "list_all printable (normalizeBaggage h)
   \<and> normalizeBaggage (normalizeBaggage h)
       = (if length (normalizeBaggage h) \<le> maxBaggageHeaderBytes then normalizeBaggage h else [])
   \<and> (\<exists>ms. normalizeBaggage h = renderMembers renderEncoded ms \<and> list_all goodBaggage ms
        \<and> distinct (map fst ms) \<and> length ms \<le> maxBaggageEntries)"
  using baggage_hop [of h] by (rule_tac normalizeBaggage_members [of h]) (auto simp: list_all_iff)

definition shoutingBaggage :: string where
  "shoutingBaggage = ''k='' @ replicate 3000 (CHR ''!'')"

text \<open>
  Re-encoding can push an accepted baggage header over the limit: one of 3002 bytes is
  forwarded as one of 9002, which the next Chronos hop then discards.
\<close>

theorem baggage_grows_past_limit:
  "length shoutingBaggage = 3002 \<and> length (normalizeBaggage shoutingBaggage) = 9002
   \<and> normalizeBaggage (normalizeBaggage shoutingBaggage) = []"
proof -
  let ?v = "replicate 3000 (CHR ''!'')"
  have plain: "plainMember shoutingBaggage" "plainMember ?v"
    by (simp_all add: shoutingBaggage_def plainMember_def printable_def hd_replicate)
  have no: "CHR '','' \<notin> set shoutingBaggage" "CHR '';'' \<notin> set shoutingBaggage" "CHR ''%'' \<notin> set ?v"
    by (simp_all add: shoutingBaggage_def)
  have eq: "indexByte shoutingBaggage (CHR ''='') = Some 1"
    by (simp add: shoutingBaggage_def)
  have key: "validBaggageKey ''k''" "trimSpace ''k'' = ''k''"
    by (simp_all add: validBaggageKey_def tokenChar_def alnum_def plainMember_trim plainMember_def printable_def)
  have semi: "indexByte shoutingBaggage (CHR '';'') = None" using no(2) by simp
  have cut: "take 1 shoutingBaggage = ''k''" "drop (Suc 1) shoutingBaggage = ?v" "shoutingBaggage \<noteq> []"
    by (simp_all add: shoutingBaggage_def)
  have "percentDecode ?v = ?v" unfolding percentDecode_loop using no(3) by (rule percentLoop_id)
  then have "baggageMember shoutingBaggage = Some (''k'', ?v)"
    using key cut plain
    by (simp only: baggageMember_def Let_def plainMember_trim semi eq option.case)
      (simp add: maxBaggageKeyBytes_def maxBaggageValueBytes_def)
  moreover have "splitByte (CHR '','') shoutingBaggage = [shoutingBaggage]"
    using no(1) by (rule splitByte_nosep)
  moreover have "length (percentEncode (replicate n (CHR ''!''))) = 3 * n" for n
    by (induction n) (simp_all add: percentEncode_def percentByte_def unreserved_def alnum_def)
  ultimately have len: "length (normalizeBaggage shoutingBaggage) = 9002"
    using plain(1)
    by (simp add: normalizeBaggage_def plainMember_trim renderMembers_def renderEncoded_def maxBaggageEntries_def)
      (simp add: shoutingBaggage_def maxBaggageHeaderBytes_def)
  moreover have "normalizeBaggage (normalizeBaggage shoutingBaggage) = []"
    using baggage_hop [of shoutingBaggage] len by (simp add: maxBaggageHeaderBytes_def)
  ultimately show ?thesis by (simp add: shoutingBaggage_def)
qed

end
