(* ===== verification/GoTime.thy ===== *)
theory GoTime
  imports GoNum
begin

text \<open>
  The one layout the program formats instants with, \<open>2006-01-02T15:04:05.000000Z\<close> in UTC
  (\<open>formatRFC3339Nano\<close> of \<open>identity.go\<close>).  An instant is its Unix time in nanoseconds; the date
  is the proleptic Gregorian one, counted in 400-year eras of 146097 days.
\<close>

definition civilDate :: "int \<Rightarrow> int \<times> int \<times> int" where
  "civilDate days =
     (let z = days + 719468;
          era = z div 146097;
          doe = z mod 146097;
          yoe = (doe - doe div 1460 + doe div 36524 - doe div 146096) div 365;
          doy = doe - (365 * yoe + yoe div 4 - yoe div 100);
          mp = (5 * doy + 2) div 153;
          d = doy - (153 * mp + 2) div 5 + 1;
          m = (if mp < 10 then mp + 3 else mp - 9);
          y = yoe + era * 400 + (if m \<le> 2 then 1 else 0)
      in (y, m, d))"

definition padInt :: "nat \<Rightarrow> int \<Rightarrow> string" where
  "padInt width n =
     (let ds = digits10 (nat \<bar>n\<bar>)
      in (if n < 0 then ''-'' else []) @ replicate (width - length ds) (CHR ''0'') @ ds)"

definition formatRFC3339Nano :: "int \<Rightarrow> string" where
  "formatRFC3339Nano nanos =
     (let secs = nanos div 1000000000; micros = nanos mod 1000000000 div 1000; tod = secs mod 86400
      in case civilDate (secs div 86400) of (y, m, d) \<Rightarrow>
        padInt 4 y @ ''-'' @ padInt 2 m @ ''-'' @ padInt 2 d @ ''T''
        @ padInt 2 (tod div 3600) @ '':'' @ padInt 2 (tod mod 3600 div 60) @ '':'' @ padInt 2 (tod mod 60)
        @ ''.'' @ padInt 6 micros @ ''Z'')"

lemma digits10_numeral:
  "digits10 (numeral k) = (if (numeral k :: nat) < 10 then [char_of (48 + numeral k :: nat)]
    else digits10 (numeral k div 10) @ [char_of (48 + numeral k mod 10 :: nat)])"
  by (rule digits10.simps)

lemma digits10_one: "digits10 (Suc 0) = ''1''"
  by (simp add: digits10.simps charOf_eq)

lemma civil_example: "civilDate 19675 = (2023, 11, 14)"
  by code_simp

lemma format_example: "formatRFC3339Nano 1700000000123456789 = ''2023-11-14T22:13:20.123456Z''"
  by (simp add: formatRFC3339Nano_def civil_example padInt_def digits10_numeral digits10_one charOf_eq)

end
