(* ===== verification/Digest.thy ===== *)
theory Digest
  imports GoNum
begin

text \<open>
  The two checksums the spool writes: CRC-32 with the IEEE polynomial (\<open>hash/crc32\<close>), and
  SHA-256 (\<open>crypto/sha256\<close>), both on 32-bit words.
\<close>

unbundle bit_operations_syntax

subsection \<open>CRC-32 (IEEE)\<close>

definition crcBit :: "u32 \<Rightarrow> u32" where
  "crcBit c = (if bit c 0 then drop_bit 1 c XOR 0xEDB88320 else drop_bit 1 c)"

definition crcByte :: "u32 \<Rightarrow> char \<Rightarrow> u32" where
  "crcByte c b =
     crcBit (crcBit (crcBit (crcBit (crcBit (crcBit (crcBit (crcBit (c XOR of_char b))))))))"

definition checksumIEEE :: "bytes \<Rightarrow> u32" where
  "checksumIEEE bs = NOT (foldl crcByte 0xFFFFFFFF bs)"

text \<open>
  The register update is injective in the register and in the byte, so two messages of the
  same length that differ in one byte have different checksums.
\<close>

lemma xor_right_inject: "(a :: u32) XOR c = b XOR c \<longleftrightarrow> a = b"
proof
  assume "a XOR c = b XOR c"
  then have "(a XOR c) XOR c = (b XOR c) XOR c" by simp
  then show "a = b" by (simp only: xor.assoc xor_self_eq xor.right_neutral)
qed simp

lemma crcBit_inject: "crcBit a = crcBit b \<longleftrightarrow> a = b"
proof
  assume eq: "crcBit a = crcBit b"
  have top: "bit (crcBit c) 31 = bit c 0" for c
    using bit_imp_le_length [of c 32] by (auto simp: crcBit_def bit_simps)
  then have low: "bit a 0 = bit b 0" using eq by metis
  have rest: "drop_bit 1 a = drop_bit 1 b"
    using eq low by (simp add: crcBit_def xor_right_inject split: if_splits)
  show "a = b"
  proof (rule bit_word_eqI)
    fix n
    show "bit a n = bit b n"
    proof (cases n)
      case (Suc m)
      have "bit a n = bit (drop_bit 1 a) m" for a :: u32 using Suc by (simp add: bit_simps)
      then show ?thesis using rest by metis
    qed (simp add: low)
  qed
qed simp

lemma crcByte_inject: "crcByte c x = crcByte d x \<longleftrightarrow> c = d"
  by (simp add: crcByte_def crcBit_inject xor_right_inject)

lemma of_char_u32_inject: "(of_char x :: u32) = of_char y \<longleftrightarrow> x = y"
proof
  assume "(of_char x :: u32) = of_char y"
  then have "unat (of_nat (ord x) :: u32) = unat (of_nat (ord y) :: u32)"
    by (simp only: of_nat_of_char)
  moreover have "unat (of_nat (ord z) :: u32) = ord z" for z
    using ord_less_256 [of z] by (simp add: unat_of_nat del: ord_less_256)
  ultimately show "x = y" by simp
qed simp

lemma crcByte_inject_byte: "crcByte c x = crcByte c y \<longleftrightarrow> x = y"
  using xor_right_inject [of "of_char x" c "of_char y"]
  by (simp add: crcByte_def crcBit_inject of_char_u32_inject xor.commute)

lemma crc_fold_inject: "foldl crcByte c s = foldl crcByte d s \<longleftrightarrow> c = d"
  by (induction s arbitrary: c d) (simp_all add: crcByte_inject)

lemma checksum_single_byte:
  "checksumIEEE (pre @ x # post) = checksumIEEE (pre @ y # post) \<longleftrightarrow> x = y"
  by (simp add: checksumIEEE_def crc_fold_inject crcByte_inject_byte)

subsection \<open>SHA-256\<close>

definition shaK :: "u32 list" where
  "shaK = [
    1116352408, 1899447441, 3049323471, 3921009573, 961987163, 1508970993,
    2453635748, 2870763221, 3624381080, 310598401, 607225278, 1426881987,
    1925078388, 2162078206, 2614888103, 3248222580, 3835390401, 4022224774,
    264347078, 604807628, 770255983, 1249150122, 1555081692, 1996064986,
    2554220882, 2821834349, 2952996808, 3210313671, 3336571891, 3584528711,
    113926993, 338241895, 666307205, 773529912, 1294757372, 1396182291,
    1695183700, 1986661051, 2177026350, 2456956037, 2730485921, 2820302411,
    3259730800, 3345764771, 3516065817, 3600352804, 4094571909, 275423344,
    430227734, 506948616, 659060556, 883997877, 958139571, 1322822218,
    1537002063, 1747873779, 1955562222, 2024104815, 2227730452, 2361852424,
    2428436474, 2756734187, 3204031479, 3329325298]"

definition rotr :: "nat \<Rightarrow> u32 \<Rightarrow> u32" where
  "rotr n w = word_rotr n w"

definition beWord :: "bytes \<Rightarrow> u32" where
  "beWord bs = foldl (\<lambda>w b. push_bit 8 w OR of_char b) 0 bs"

fun chunks :: "nat \<Rightarrow> nat \<Rightarrow> 'a list \<Rightarrow> 'a list list" where
  "chunks 0 n xs = []"
| "chunks (Suc k) n xs = take n xs # chunks k n (drop n xs)"

text \<open>The message schedule, newest word first: 48 more words on top of the 16 of the block.\<close>

definition shaNext :: "u32 list \<Rightarrow> u32" where
  "shaNext ws =
     (let a = ws ! 1; b = ws ! 14;
          s1 = rotr 17 a XOR rotr 19 a XOR drop_bit 10 a;
          s0 = rotr 7 b XOR rotr 18 b XOR drop_bit 3 b
      in s1 + ws ! 6 + s0 + ws ! 15)"

fun shaExtend :: "nat \<Rightarrow> u32 list \<Rightarrow> u32 list" where
  "shaExtend 0 ws = ws"
| "shaExtend (Suc n) ws = shaExtend n (shaNext ws # ws)"

type_synonym shaState = "u32 \<times> u32 \<times> u32 \<times> u32 \<times> u32 \<times> u32 \<times> u32 \<times> u32"

fun shaRound :: "shaState \<Rightarrow> u32 \<times> u32 \<Rightarrow> shaState" where
  "shaRound (a, b, c, d, e, f, g, h) (k, w) =
     (let t1 = h + (rotr 6 e XOR rotr 11 e XOR rotr 25 e) + ((e AND f) XOR (NOT e AND g)) + k + w;
          t2 = (rotr 2 a XOR rotr 13 a XOR rotr 22 a) + ((a AND b) XOR (a AND c) XOR (b AND c))
      in (t1 + t2, a, b, c, d + t1, e, f, g))"

fun shaBlock :: "shaState \<Rightarrow> bytes \<Rightarrow> shaState" where
  "shaBlock (a, b, c, d, e, f, g, h) blk =
     (case foldl shaRound (a, b, c, d, e, f, g, h)
             (zip shaK (rev (shaExtend 48 (rev (map beWord (chunks 16 4 blk)))))) of
        (a', b', c', d', e', f', g', h') \<Rightarrow>
          (a + a', b + b', c + c', d + d', e + e', f + f', g + g', h + h'))"

definition beBytes :: "nat \<Rightarrow> int \<Rightarrow> bytes" where
  "beBytes k n = map (\<lambda>i. char_of (n div 256 ^ i)) (rev [0..<k])"

definition shaPadded :: "bytes \<Rightarrow> bytes" where
  "shaPadded m = m @ CHR 0x80 # replicate ((119 - length m mod 64) mod 64) (CHR 0x00)
                   @ beBytes 8 (8 * int (length m))"

definition sha256 :: "bytes \<Rightarrow> bytes" where
  "sha256 m =
     (case foldl shaBlock
             (1779033703, 3144134277, 1013904242, 2773480762, 1359893119, 2600822924, 528734635, 1541459225)
             (chunks (length (shaPadded m) div 64) 64 (shaPadded m)) of
        (a, b, c, d, e, f, g, h) \<Rightarrow> concat (map (\<lambda>w. beBytes 4 (uint w)) [a, b, c, d, e, f, g, h]))"

lemma length_sha256 [simp]: "length (sha256 m) = 32"
  by (auto simp: sha256_def beBytes_def split: prod.splits)

end
