(* ===== verification/BoundedBuffer.thy ===== *)
theory BoundedBuffer
  imports Prelude
begin

text \<open>
  The buffer discipline the span buffer and the I/O recorder share: a bounded list that drops
  the newest item when it is full and counts what it dropped.  The laws are the \<open>assumes\<close> of
  \<open>drop_newest\<close>; both buffers interpret it.
\<close>

locale drop_newest =
  fixes put :: "'a \<Rightarrow> 's \<Rightarrow> 's"
    and items :: "'s \<Rightarrow> 'a list"
    and cap :: "'s \<Rightarrow> nat"
    and lost :: "'s \<Rightarrow> 'n :: comm_semiring_1"
  assumes put_room: "length (items s) < cap s \<Longrightarrow> items (put x s) = items s @ [x] \<and> lost (put x s) = lost s"
    and put_full: "\<not> length (items s) < cap s \<Longrightarrow> items (put x s) = items s \<and> lost (put x s) = lost s + 1"
    and put_cap: "cap (put x s) = cap s"
begin

lemma put_bounded: "length (items s) \<le> cap s \<Longrightarrow> length (items (put x s)) \<le> cap (put x s)"
  by (cases "length (items s) < cap s") (simp_all add: put_room put_full put_cap)

lemma fold_cap: "cap (fold put xs s) = cap s"
  by (induction xs arbitrary: s) (simp_all add: put_cap)

text \<open>A run of puts keeps a prefix of what was offered and counts the rest.\<close>

lemma fold_put:
  "items (fold put xs s) = items s @ take (cap s - length (items s)) xs
   \<and> lost (fold put xs s) = lost s + of_nat (length xs - (cap s - length (items s)))"
proof (induction xs arbitrary: s)
  case (Cons x xs)
  show ?case
  proof (cases "length (items s) < cap s")
    case True
    then have room: "cap s - length (items s) = Suc (cap s - Suc (length (items s)))" by simp
    show ?thesis
      using Cons [of "put x s"] True unfolding room by (simp add: put_room put_cap)
  next
    case False
    then show ?thesis
      using Cons [of "put x s"] by (simp add: put_full put_cap algebra_simps)
  qed
qed simp

end

end
