(* ===== verification/SpanBuffer.thy ===== *)
theory SpanBuffer
  imports BoundedBuffer "HOL-Library.Multiset"
begin

text \<open>
  \<open>span_buffer.go\<close>: the buffer finished spans wait in, its flush loop, and the interleavings of
  the goroutines that add to it and flush it.  The record type \<open>'r\<close> stands for \<open>spanRecord\<close>,
  which the buffer never looks into.
\<close>

definition defaultBatch :: int where
  "defaultBatch = 200"

record 'r spanBuffer =
  sbSpans :: "'r list"
  sbBatchSize :: int
  sbMaxBuffered :: int
  sbDropped :: u64

definition newSpanBuffer :: "int \<Rightarrow> int \<Rightarrow> 'r spanBuffer" where
  "newSpanBuffer batchSize maxBuffered =
     (let b0 = (if batchSize \<le> 0 then defaultBatch else batchSize);
          b1 = (if maxBuffered > 0 \<and> maxBuffered < b0 then maxBuffered else b0);
          m = (if maxBuffered \<le> 0 then b1 else maxBuffered)
      in \<lparr>sbSpans = [], sbBatchSize = b1, sbMaxBuffered = m, sbDropped = 0\<rparr>)"

text \<open>\<open>add\<close>: whether the flush threshold is reached, and the buffer.\<close>

definition sbAdd :: "'r \<Rightarrow> 'r spanBuffer \<Rightarrow> bool \<times> 'r spanBuffer" where
  "sbAdd r b =
     (if int (length (sbSpans b)) \<ge> sbMaxBuffered b then (False, b\<lparr>sbDropped := sbDropped b + 1\<rparr>)
      else (int (length (sbSpans b @ [r])) \<ge> sbBatchSize b, b\<lparr>sbSpans := sbSpans b @ [r]\<rparr>))"

definition sbTake :: "bool \<Rightarrow> 'r spanBuffer \<Rightarrow> 'r list \<times> 'r spanBuffer" where
  "sbTake all b =
     (if sbSpans b = [] then ([], b)
      else let n = (if \<not> all \<and> int (length (sbSpans b)) > sbBatchSize b then nat (sbBatchSize b)
                    else length (sbSpans b))
        in (take n (sbSpans b), b\<lparr>sbSpans := drop n (sbSpans b)\<rparr>))"

definition sbRequeue :: "'r list \<Rightarrow> 'r spanBuffer \<Rightarrow> 'r spanBuffer" where
  "sbRequeue records b =
     (let room = (if sbMaxBuffered b - int (length (sbSpans b)) < 0 then 0
                  else nat (sbMaxBuffered b - int (length (sbSpans b))))
      in if length records > room
         then b\<lparr>sbDropped := sbDropped b + of_nat (length records - room),
                sbSpans := take room records @ sbSpans b\<rparr>
         else b\<lparr>sbSpans := records @ sbSpans b\<rparr>)"

definition sbLen :: "'r spanBuffer \<Rightarrow> nat" where
  "sbLen b = length (sbSpans b)"

text \<open>What \<open>newSpanBuffer\<close> establishes and every operation keeps.\<close>

definition sbInv :: "'r spanBuffer \<Rightarrow> bool" where
  "sbInv b \<longleftrightarrow> 0 < sbBatchSize b \<and> sbBatchSize b \<le> sbMaxBuffered b \<and> int (length (sbSpans b)) \<le> sbMaxBuffered b"

lemma sbInv_new: "sbInv (newSpanBuffer bs mx)"
  by (simp add: sbInv_def newSpanBuffer_def defaultBatch_def Let_def)

lemma sbInv_add: "sbInv b \<Longrightarrow> sbInv (snd (sbAdd r b))"
  by (auto simp: sbInv_def sbAdd_def)

lemma sbInv_take: "sbInv b \<Longrightarrow> sbInv (snd (sbTake all b))"
  by (auto simp: sbInv_def sbTake_def Let_def)

lemma sbInv_requeue: "sbInv b \<Longrightarrow> sbInv (sbRequeue rs b)"
  by (auto simp: sbInv_def sbRequeue_def Let_def)

lemma sbTake_split: "fst (sbTake all b) @ sbSpans (snd (sbTake all b)) = sbSpans b"
  by (simp add: sbTake_def Let_def)

lemma sbTake_dropped [simp]:
  "sbDropped (snd (sbTake all b)) = sbDropped b"
  "sbMaxBuffered (snd (sbTake all b)) = sbMaxBuffered b"
  "sbBatchSize (snd (sbTake all b)) = sbBatchSize b"
  by (simp_all add: sbTake_def Let_def)

lemma sbTake_all: "sbSpans (snd (sbTake True b)) = [] \<and> fst (sbTake True b) = sbSpans b"
  by (simp add: sbTake_def)

lemma sbTake_Nil: "sbInv b \<Longrightarrow> fst (sbTake all b) = [] \<longleftrightarrow> sbSpans b = []"
  by (auto simp: sbTake_def sbInv_def Let_def)

lemma sbTake_requeue: "sbInv b \<Longrightarrow> sbRequeue (fst (sbTake all b)) (snd (sbTake all b)) = b"
proof -
  assume inv: "sbInv b"
  let ?rs = "fst (sbTake all b)" and ?b = "snd (sbTake all b)"
  have "length ?rs + length (sbSpans ?b) = length (sbSpans b)"
    using sbTake_split [of all b] by (metis length_append)
  then have "int (length ?rs) \<le> sbMaxBuffered ?b - int (length (sbSpans ?b))"
    using inv by (simp add: sbInv_def)
  then have "sbRequeue ?rs ?b = ?b\<lparr>sbSpans := ?rs @ sbSpans ?b\<rparr>"
    by (auto simp: sbRequeue_def Let_def)
  also have "\<dots> = b" unfolding sbTake_split by (simp add: sbTake_def Let_def)
  finally show ?thesis .
qed

interpretation spans: drop_newest "\<lambda>r b. snd (sbAdd r b)" sbSpans "\<lambda>b. nat (sbMaxBuffered b)" sbDropped
  by unfold_locales (auto simp: sbAdd_def)

subsection \<open>Flushing\<close>

text \<open>
  \<open>flushSpanBatch\<close>: \<open>wr\<close> is \<open>WriteJSON\<close> of the batch built from the records, on a state \<open>'w\<close>
  of the spool; its flag is success.
\<close>

function flushSpanBatch ::
  "('r list \<Rightarrow> 'w \<Rightarrow> bool \<times> 'w) \<Rightarrow> bool \<Rightarrow> 'r spanBuffer \<Rightarrow> 'w \<Rightarrow> bool \<times> 'r spanBuffer \<times> 'w" where
  "flushSpanBatch wr all b w =
     (let (records, b1) = sbTake all b in
      if records = [] then (True, b1, w)
      else let (ok, w1) = wr records w in
        if \<not> ok then (False, sbRequeue records b1, w1)
        else if \<not> all then (True, b1, w1)
        else flushSpanBatch wr all b1 w1)"
  by pat_completeness auto
termination
proof (relation "measure (\<lambda>(wr, all, b, w). length (sbSpans b))", goal_cases)
  case (2 wr all b w p records b1 q ok w1)
  then have "all" "fst (sbTake all b) \<noteq> []" "b1 = snd (sbTake all b)" by (metis fst_conv snd_conv)+
  then show ?case using sbTake_all [of b] by (auto simp: neq_Nil_conv)
qed simp

declare flushSpanBatch.simps [simp del]

text \<open>\<open>enqueueSpan\<close>.\<close>

definition enqueueSpan ::
  "('r list \<Rightarrow> 'w \<Rightarrow> bool \<times> 'w) \<Rightarrow> 'r \<Rightarrow> 'r spanBuffer \<Rightarrow> 'w \<Rightarrow> 'r spanBuffer \<times> 'w" where
  "enqueueSpan wr r b w =
     (let (full, b1) = sbAdd r b in
      if \<not> full then (b1, w) else snd (flushSpanBatch wr False b1 w))"

lemma flush_step:
  "flushSpanBatch wr all b w =
     (if fst (sbTake all b) = [] then (True, snd (sbTake all b), w)
      else case wr (fst (sbTake all b)) w of (ok, w1) \<Rightarrow>
        if \<not> ok then (False, sbRequeue (fst (sbTake all b)) (snd (sbTake all b)), w1)
        else if \<not> all then (True, snd (sbTake all b), w1)
        else flushSpanBatch wr all (snd (sbTake all b)) w1)"
  by (subst flushSpanBatch.simps) (simp add: Let_def case_prod_unfold)

lemma flush_failed:
  assumes "sbInv b" "sbSpans b \<noteq> []" "\<not> fst (wr (fst (sbTake all b)) w)"
  shows "flushSpanBatch wr all b w = (False, b, snd (wr (fst (sbTake all b)) w))"
  using assms by (subst flush_step) (simp add: sbTake_Nil sbTake_requeue case_prod_unfold)

lemma flush_all_ok:
  assumes "sbInv b" "sbSpans b \<noteq> []" "fst (wr (sbSpans b) w)"
  shows "flushSpanBatch wr True b w = (True, b\<lparr>sbSpans := []\<rparr>, snd (wr (sbSpans b) w))"
proof -
  have t: "sbTake True b = (sbSpans b, b\<lparr>sbSpans := []\<rparr>)" using assms(2) by (simp add: sbTake_def)
  have "flushSpanBatch wr True (b\<lparr>sbSpans := []\<rparr>) w1 = (True, b\<lparr>sbSpans := []\<rparr>, w1)" for w1
    by (subst flush_step) (simp add: sbTake_def)
  then show ?thesis using assms(2,3) by (subst flush_step) (simp add: t case_prod_unfold)
qed

lemma flush_batch_ok:
  assumes "sbInv b" "sbSpans b \<noteq> []" "fst (wr (fst (sbTake False b)) w)"
  shows "flushSpanBatch wr False b w = (True, snd (sbTake False b), snd (wr (fst (sbTake False b)) w))"
  using assms by (subst flush_step) (simp add: sbTake_Nil case_prod_unfold)

subsection \<open>Interleavings\<close>

text \<open>
  Each buffer operation runs under the mutex, so a run of the program is a sequence of them:
  goroutines add spans, take batches that are then in flight, and end a flight by a write or by
  a requeue.  \<open>bsAdded\<close> and \<open>bsLost\<close> are history: the spans offered, and those dropped.
\<close>

record 'r bufSys =
  bsBuf :: "'r spanBuffer"
  bsFlight :: "'r list list"
  bsWritten :: "'r list list"
  bsAdded :: "'r list"
  bsLost :: "'r list"

definition bufInit :: "int \<Rightarrow> int \<Rightarrow> 'r bufSys" where
  "bufInit batchSize maxBuffered =
     \<lparr>bsBuf = newSpanBuffer batchSize maxBuffered, bsFlight = [], bsWritten = [], bsAdded = [], bsLost = []\<rparr>"

definition requeueLoss :: "'r list \<Rightarrow> 'r spanBuffer \<Rightarrow> 'r list" where
  "requeueLoss rs b = drop (nat (sbMaxBuffered b - int (length (sbSpans b)))) rs"

inductive bufStep :: "'r bufSys \<Rightarrow> 'r bufSys \<Rightarrow> bool" where
  bufAdd: "int (length (sbSpans (bsBuf s))) < sbMaxBuffered (bsBuf s) \<Longrightarrow>
    bufStep s (s\<lparr>bsBuf := snd (sbAdd r (bsBuf s)), bsAdded := bsAdded s @ [r]\<rparr>)"
| bufDrop: "\<not> int (length (sbSpans (bsBuf s))) < sbMaxBuffered (bsBuf s) \<Longrightarrow>
    bufStep s (s\<lparr>bsBuf := snd (sbAdd r (bsBuf s)), bsAdded := bsAdded s @ [r], bsLost := bsLost s @ [r]\<rparr>)"
| bufTake: "sbSpans (bsBuf s) \<noteq> [] \<Longrightarrow>
    bufStep s (s\<lparr>bsBuf := snd (sbTake all (bsBuf s)), bsFlight := fst (sbTake all (bsBuf s)) # bsFlight s\<rparr>)"
| bufWritten: "bsFlight s = pre @ rs # post \<Longrightarrow>
    bufStep s (s\<lparr>bsFlight := pre @ post, bsWritten := bsWritten s @ [rs]\<rparr>)"
| bufRequeue: "bsFlight s = pre @ rs # post \<Longrightarrow>
    bufStep s (s\<lparr>bsBuf := sbRequeue rs (bsBuf s), bsFlight := pre @ post,
      bsLost := bsLost s @ requeueLoss rs (bsBuf s)\<rparr>)"

inductive bufReach :: "int \<Rightarrow> int \<Rightarrow> 'r bufSys \<Rightarrow> bool" for bs mx where
  reachInit: "bufReach bs mx (bufInit bs mx)"
| reachStep: "bufReach bs mx s \<Longrightarrow> bufStep s t \<Longrightarrow> bufReach bs mx t"

inductive_cases bufStepE: "bufStep s t"

definition bufInv :: "'r bufSys \<Rightarrow> bool" where
  "bufInv s \<longleftrightarrow> sbInv (bsBuf s)
     \<and> mset (bsAdded s) = mset (sbSpans (bsBuf s)) + mset (concat (bsFlight s)) + mset (concat (bsWritten s)) + mset (bsLost s)
     \<and> sbDropped (bsBuf s) = of_nat (length (bsLost s))"

lemma requeue_split:
  "mset (sbSpans (sbRequeue rs b)) + mset (requeueLoss rs b) = mset rs + mset (sbSpans b)
   \<and> sbDropped (sbRequeue rs b) = sbDropped b + of_nat (length (requeueLoss rs b))"
proof -
  let ?k = "nat (sbMaxBuffered b - int (length (sbSpans b)))"
  have k: "(if sbMaxBuffered b - int (length (sbSpans b)) < 0 then 0 else ?k) = ?k" by simp
  have "sbSpans (sbRequeue rs b) = take ?k rs @ sbSpans b"
    by (auto simp: sbRequeue_def Let_def)
  moreover have "sbDropped (sbRequeue rs b) = sbDropped b + of_nat (length rs - ?k)"
    by (auto simp: sbRequeue_def Let_def)
  moreover have "mset rs = mset (take ?k rs) + mset (drop ?k rs)"
    by (metis append_take_drop_id mset_append)
  ultimately show ?thesis by (simp add: requeueLoss_def)
qed

lemma take_mset: "mset (sbSpans b) = mset (fst (sbTake all b)) + mset (sbSpans (snd (sbTake all b)))"
  by (metis mset_append sbTake_split)

lemma bufInv_step: "bufStep s t \<Longrightarrow> bufInv s \<Longrightarrow> bufInv t"
proof (induction rule: bufStep.induct)
  case (bufAdd s r)
  then show ?case using sbInv_add [of "bsBuf s" r] by (auto simp: bufInv_def sbAdd_def)
next
  case (bufDrop s r)
  then show ?case using sbInv_add [of "bsBuf s" r] by (auto simp: bufInv_def sbAdd_def)
next
  case (bufTake s all)
  then show ?case
    using take_mset [of "bsBuf s" all] by (simp add: bufInv_def sbInv_take)
next
  case (bufWritten s pre rs post)
  then show ?case by (simp add: bufInv_def)
next
  case (bufRequeue s pre rs post)
  then show ?case
    using requeue_split [of rs "bsBuf s"]
    by (simp add: bufInv_def sbInv_requeue)
qed

lemma bufReach_inv: "bufReach bs mx s \<Longrightarrow> bufInv s"
  by (induction rule: bufReach.induct) (auto simp: bufInv_step, simp add: bufInv_def bufInit_def sbInv_new, simp add: newSpanBuffer_def Let_def)

subsection \<open>Results\<close>

text \<open>
  C6: no span vanishes.  In every interleaving of goroutines adding spans, taking batches,
  writing them and putting failed ones back, each span offered is in the buffer, in a batch in
  flight, in a written batch, or dropped, exactly once; the drop counter counts the dropped
  ones modulo 2^64, and the buffer never holds more than its cap.
\<close>

theorem span_conservation:
  assumes "bufReach bs mx s"
  shows "mset (bsAdded s) = mset (sbSpans (bsBuf s)) + mset (concat (bsFlight s))
       + mset (concat (bsWritten s)) + mset (bsLost s)
    \<and> sbDropped (bsBuf s) = of_nat (length (bsLost s))
    \<and> int (length (sbSpans (bsBuf s))) \<le> sbMaxBuffered (bsBuf s)"
  using bufReach_inv [OF assms] by (simp add: bufInv_def sbInv_def)

theorem span_conservation_witness:
  "mset [CHR ''a''] = mset [] + mset (concat [[CHR ''a'']]) + mset (concat []) + mset ([] :: string)
   \<and> (0 :: u64) = of_nat (length ([] :: string)) \<and> int (length ([] :: string)) \<le> 2"
proof -
  let ?s0 = "bufInit 2 2 :: char bufSys"
  let ?s1 = "?s0\<lparr>bsBuf := snd (sbAdd (CHR ''a'') (bsBuf ?s0)), bsAdded := bsAdded ?s0 @ ''a''\<rparr>"
  let ?s2 = "?s1\<lparr>bsBuf := snd (sbTake True (bsBuf ?s1)), bsFlight := fst (sbTake True (bsBuf ?s1)) # bsFlight ?s1\<rparr>"
  have new: "bsBuf ?s0 = \<lparr>sbSpans = [], sbBatchSize = 2, sbMaxBuffered = 2, sbDropped = 0\<rparr>"
    by (simp add: bufInit_def newSpanBuffer_def)
  have "bufStep ?s0 ?s1" by (rule bufAdd) (simp add: new)
  moreover have "bufStep ?s1 ?s2" by (rule bufTake) (simp add: new sbAdd_def)
  ultimately have "bufReach 2 2 ?s2" by (meson reachInit reachStep)
  from span_conservation [OF this] show ?thesis
    by (simp add: new sbAdd_def sbTake_def bufInit_def)
qed

text \<open>
  A transient spool failure costs a retry and no span.  When the write fails, the flush
  returns the error and leaves the buffer exactly as it was: same spans, same order, same drop
  counter.
\<close>

theorem failed_flush_keeps_buffer:
  "sbInv b \<Longrightarrow> sbSpans b \<noteq> [] \<Longrightarrow> \<not> fst (wr (fst (sbTake all b)) w) \<Longrightarrow>
   flushSpanBatch wr all b w = (False, b, snd (wr (fst (sbTake all b)) w))"
  by (rule flush_failed)

theorem failed_flush_keeps_buffer_witness:
  "flushSpanBatch (\<lambda>rs n. (False, Suc n)) True (snd (sbAdd (CHR ''a'') (newSpanBuffer 2 4))) 0
   = (False, snd (sbAdd (CHR ''a'') (newSpanBuffer 2 4)), 1)"
  using failed_flush_keeps_buffer [of "snd (sbAdd (CHR ''a'') (newSpanBuffer 2 4))" "\<lambda>rs n. (False, Suc n)" True 0]
    sbInv_add [OF sbInv_new, of "CHR ''a''" 2 4]
  by (simp add: newSpanBuffer_def sbAdd_def)

text \<open>
  \<open>FlushSpans\<close> on a working spool writes everything, in the order the spans ended, as one
  batch, and leaves the buffer empty.
\<close>

theorem flush_all_writes_everything:
  "sbInv b \<Longrightarrow> sbSpans b \<noteq> [] \<Longrightarrow> fst (wr (sbSpans b) w) \<Longrightarrow>
   flushSpanBatch wr True b w = (True, b\<lparr>sbSpans := []\<rparr>, snd (wr (sbSpans b) w))"
  by (rule flush_all_ok)

theorem flush_all_writes_everything_witness:
  "flushSpanBatch (\<lambda>rs log. (True, log @ [rs])) True (snd (sbAdd (CHR ''a'') (newSpanBuffer 2 4))) []
   = (True, newSpanBuffer 2 4, [''a''])"
  using flush_all_writes_everything [of "snd (sbAdd (CHR ''a'') (newSpanBuffer 2 4))" "\<lambda>rs log. (True, log @ [rs])" "[]"]
    sbInv_add [OF sbInv_new, of "CHR ''a''" 2 4]
  by (simp add: newSpanBuffer_def sbAdd_def)

text \<open>
  Past the cap the newest spans are dropped.  Of any run of spans added to a buffer with no
  flush in between, exactly the first that fit are kept, in order, and every other one is counted.
\<close>

theorem overflow_drops_newest:
  "sbSpans (fold (\<lambda>r b. snd (sbAdd r b)) rs b)
     = sbSpans b @ take (nat (sbMaxBuffered b) - length (sbSpans b)) rs
   \<and> sbDropped (fold (\<lambda>r b. snd (sbAdd r b)) rs b)
     = sbDropped b + of_nat (length rs - (nat (sbMaxBuffered b) - length (sbSpans b)))"
  by (rule spans.fold_put)

text \<open>
  A buffer at its cap is never flushed by \<open>enqueueSpan\<close> again, even when the spool works:
  \<open>add\<close> reports a dropped span as not full, so only the ticker or an explicit flush drains it.
\<close>

theorem full_buffer_not_flushed:
  "int (length (sbSpans b)) = sbMaxBuffered b \<Longrightarrow>
   enqueueSpan wr r b w = (b\<lparr>sbDropped := sbDropped b + 1\<rparr>, w)"
  by (simp add: enqueueSpan_def sbAdd_def)

theorem full_buffer_not_flushed_witness:
  "enqueueSpan (\<lambda>rs log. (True, log @ [rs])) (CHR ''b'')
     (\<lparr>sbSpans = ''a'', sbBatchSize = 1, sbMaxBuffered = 1, sbDropped = 0\<rparr>) []
   = (\<lparr>sbSpans = ''a'', sbBatchSize = 1, sbMaxBuffered = 1, sbDropped = 1\<rparr>, [])"
  using full_buffer_not_flushed [of "\<lparr>sbSpans = ''a'', sbBatchSize = 1, sbMaxBuffered = 1, sbDropped = 0\<rparr>"
      "\<lambda>rs log. (True, log @ [rs])" "CHR ''b''" "[]"]
  by simp

end
