(* ===== verification/Json.thy ===== *)
theory Json
  imports GoNum
begin

text \<open>
  The part of Go's \<open>encoding/json\<close> and \<open>unicode/utf8\<close> the spool format rests on: rendering
  a string (HTML-safe escapes, invalid UTF-8 replaced by U+FFFD), and reading a document
  back.  \<open>jVal\<close> is a recursive-descent form of the package's scanner; its first argument is
  the nesting depth still allowed (10000 in the package), its second is fuel, and
  \<open>jVal_fuel\<close> shows that the length of the input is enough.
\<close>

subsection \<open>UTF-8\<close>

definition byteIn :: "nat \<Rightarrow> nat \<Rightarrow> char \<Rightarrow> bool" where
  "byteIn lo hi c \<longleftrightarrow> lo \<le> ord c \<and> ord c \<le> hi"

text \<open>The length of the well-formed UTF-8 sequence a byte string starts with.\<close>

fun runeLen :: "bytes \<Rightarrow> nat option" where
  "runeLen [] = None"
| "runeLen (a # s) =
     (if ord a < 128 then Some 1
      else if byteIn 194 223 a then
        (case s of b # _ \<Rightarrow> if byteIn 128 191 b then Some 2 else None | _ \<Rightarrow> None)
      else if byteIn 224 239 a then
        (case s of b # c # _ \<Rightarrow>
           if (if ord a = 224 then byteIn 160 191 b
               else if ord a = 237 then byteIn 128 159 b else byteIn 128 191 b)
              \<and> byteIn 128 191 c then Some 3 else None
         | _ \<Rightarrow> None)
      else if byteIn 240 244 a then
        (case s of b # c # d # _ \<Rightarrow>
           if (if ord a = 240 then byteIn 144 191 b
               else if ord a = 244 then byteIn 128 143 b else byteIn 128 191 b)
              \<and> byteIn 128 191 c \<and> byteIn 128 191 d then Some 4 else None
         | _ \<Rightarrow> None)
      else None)"

lemma runeLen_bounds: "runeLen s = Some k \<Longrightarrow> 0 < k \<and> k \<le> length s"
  by (cases s) (auto split: if_splits list.splits)

lemma runeLen_take: "runeLen s = Some k \<Longrightarrow> runeLen (take k s) = Some k"
  by (cases s) (auto split: if_splits list.splits)

lemma runeLen_append: "runeLen s = Some k \<Longrightarrow> runeLen (s @ t) = Some k"
  by (cases s) (auto split: if_splits list.splits)

lemma runeLen_ascii [simp]: "ord c < 128 \<Longrightarrow> runeLen (c # s) = Some 1"
  by simp

declare runeLen.simps [simp del]

function utf8Valid :: "bytes \<Rightarrow> bool" where
  "utf8Valid s = (if s = [] then True
                  else case runeLen s of None \<Rightarrow> False | Some k \<Rightarrow> utf8Valid (drop k s))"
  by pat_completeness auto
termination
  by (relation "measure length") (auto dest: runeLen_bounds)

declare utf8Valid.simps [simp del]

lemma utf8Valid_Nil [simp]: "utf8Valid []"
  by (simp add: utf8Valid.simps)

lemma utf8Valid_ascii: "isAscii s \<Longrightarrow> utf8Valid s"
  by (induction s) (simp_all add: utf8Valid.simps [of "_ # _"])

text \<open>\<open>utf8.AppendRune\<close> for a code point that is not a surrogate.\<close>

definition encodeRune :: "nat \<Rightarrow> bytes" where
  "encodeRune r =
     (if r < 128 then [char_of r]
      else if r < 2048 then [char_of (192 + r div 64), char_of (128 + r mod 64)]
      else if r < 65536 then
        [char_of (224 + r div 4096), char_of (128 + r div 64 mod 64), char_of (128 + r mod 64)]
      else [char_of (240 + r div 262144), char_of (128 + r div 4096 mod 64),
            char_of (128 + r div 64 mod 64), char_of (128 + r mod 64)])"

definition runeError :: bytes where
  "runeError = [CHR 0xEF, CHR 0xBF, CHR 0xBD]"

subsection \<open>Rendering a string\<close>

abbreviation quoteCh :: char where
  "quoteCh \<equiv> CHR 0x22"

abbreviation backslash :: char where
  "backslash \<equiv> CHR 0x5C"

definition escByte :: "char \<Rightarrow> bytes" where
  "escByte c =
     (if c = quoteCh \<or> c = backslash then [backslash, c]
      else if ord c = 8 then [backslash, CHR ''b'']
      else if ord c = 12 then [backslash, CHR ''f'']
      else if ord c = 10 then [backslash, CHR ''n'']
      else if ord c = 13 then [backslash, CHR ''r'']
      else if ord c = 9 then [backslash, CHR ''t'']
      else if ord c < 32 \<or> ord c = 60 \<or> ord c = 62 \<or> ord c = 38 then
        [backslash, CHR ''u'', CHR ''0'', CHR ''0'', hexLower (ord c div 16), hexLower (ord c mod 16)]
      else [c])"

definition isLineSep :: "bytes \<Rightarrow> bool" where
  "isLineSep s \<longleftrightarrow> take 2 s = [CHR 0xE2, CHR 0x80] \<and> length s \<ge> 3 \<and> (s ! 2 = CHR 0xA8 \<or> s ! 2 = CHR 0xA9)"

definition escLineSep :: "bytes \<Rightarrow> bytes" where
  "escLineSep s = [backslash] @ ''u202'' @ [hexLower (ord (s ! 2) mod 16)]"

function jsonEsc :: "bytes \<Rightarrow> bytes" where
  "jsonEsc s = (case s of [] \<Rightarrow> []
     | c # cs \<Rightarrow>
         if ord c < 128 then escByte c @ jsonEsc cs
         else case runeLen s of
             None \<Rightarrow> [backslash] @ ''ufffd'' @ jsonEsc cs
           | Some k \<Rightarrow> (if isLineSep s then escLineSep s else take k s) @ jsonEsc (drop k s))"
  by pat_completeness auto
termination
  by (relation "measure length") (auto dest: runeLen_bounds)

declare jsonEsc.simps [simp del]

definition jsonString :: "bytes \<Rightarrow> bytes" where
  "jsonString s = quoteCh # jsonEsc s @ [quoteCh]"

subsection \<open>Reading a string\<close>

definition hexVal :: "char \<Rightarrow> nat option" where
  "hexVal c =
     (if 48 \<le> ord c \<and> ord c \<le> 57 then Some (ord c - 48)
      else if 97 \<le> ord c \<and> ord c \<le> 102 then Some (ord c - 87)
      else if 65 \<le> ord c \<and> ord c \<le> 70 then Some (ord c - 55)
      else None)"

fun hex4 :: "bytes \<Rightarrow> (nat \<times> bytes) option" where
  "hex4 (a # b # c # d # s) =
     (case (hexVal a, hexVal b, hexVal c, hexVal d) of
        (Some w, Some x, Some y, Some z) \<Rightarrow> Some (4096 * w + 256 * x + 16 * y + z, s)
      | _ \<Rightarrow> None)"
| "hex4 _ = None"

definition simpleEsc :: "char \<Rightarrow> char option" where
  "simpleEsc e =
     (if e = quoteCh \<or> e = backslash \<or> e = CHR ''/'' then Some e
      else if e = CHR ''b'' then Some (CHR 0x08)
      else if e = CHR ''f'' then Some (CHR 0x0C)
      else if e = CHR ''n'' then Some (CHR 0x0A)
      else if e = CHR ''r'' then Some (CHR 0x0D)
      else if e = CHR ''t'' then Some (CHR 0x09)
      else None)"

text \<open>The second half of a surrogate pair, when the input goes on with one.\<close>

definition lowSurrogate :: "bytes \<Rightarrow> (nat \<times> bytes) option" where
  "lowSurrogate s =
     (if take 2 s = [backslash, CHR ''u''] then
        (case hex4 (drop 2 s) of
           Some (r, t) \<Rightarrow> if 56320 \<le> r \<and> r < 57344 then Some (r, t) else None
         | None \<Rightarrow> None)
      else None)"

lemma hex4_shorter: "hex4 s = Some (r, t) \<Longrightarrow> length t < length s"
  by (induction s rule: hex4.induct) (auto split: option.splits)

lemma lowSurrogate_shorter: "lowSurrogate s = Some (r, t) \<Longrightarrow> length t < length s"
  by (auto simp: lowSurrogate_def dest!: hex4_shorter split: if_splits option.splits)

definition withPrefix :: "bytes \<Rightarrow> (bytes \<times> bytes) option \<Rightarrow> (bytes \<times> bytes) option" where
  "withPrefix p r = map_option (\<lambda>(v, rest). (p @ v, rest)) r"

text \<open>The string literal after its opening quote: its value and what follows it.\<close>

function unquote :: "bytes \<Rightarrow> (bytes \<times> bytes) option" where
  "unquote s = (case s of [] \<Rightarrow> None
     | c # cs \<Rightarrow>
         if c = quoteCh then Some ([], cs)
         else if c = backslash then
           (case cs of [] \<Rightarrow> None
            | e # t \<Rightarrow>
                (case simpleEsc e of Some b \<Rightarrow> withPrefix [b] (unquote t)
                 | None \<Rightarrow>
                     if e = CHR ''u'' then
                       (case hex4 t of None \<Rightarrow> None
                        | Some (r, t1) \<Rightarrow>
                            if 55296 \<le> r \<and> r < 57344 then
                              (case (if r < 56320 then lowSurrogate t1 else None) of
                                 Some (r2, t2) \<Rightarrow>
                                   withPrefix (encodeRune (65536 + (r - 55296) * 1024 + (r2 - 56320))) (unquote t2)
                               | None \<Rightarrow> withPrefix runeError (unquote t1))
                            else withPrefix (encodeRune r) (unquote t1))
                     else None))
         else if ord c < 32 then None
         else if ord c < 128 then withPrefix [c] (unquote cs)
         else (case runeLen s of None \<Rightarrow> withPrefix runeError (unquote cs)
               | Some k \<Rightarrow> withPrefix (take k s) (unquote (drop k s))))"
  by pat_completeness auto
termination
  by (relation "measure length")
     (auto dest!: runeLen_bounds hex4_shorter lowSurrogate_shorter split: if_splits)

declare unquote.simps [simp del]

lemma withPrefix_Some: "withPrefix p r = Some (v, t) \<longleftrightarrow> (\<exists>w. r = Some (w, t) \<and> v = p @ w)"
  by (auto simp: withPrefix_def)

lemma unquote_shorter: "unquote s = Some (v, t) \<Longrightarrow> length t < length s"
proof (induction s arbitrary: v t rule: length_induct)
  case (1 s)
  have IH: "unquote u = Some (w, r) \<Longrightarrow> length u < length s \<longrightarrow> length r < length s" for u w r
    using "1.IH" less_trans by blast
  from "1.prems" show ?case
    by (subst (asm) unquote.simps)
       (auto simp: withPrefix_Some split: list.splits if_splits option.splits prod.splits
         dest!: IH runeLen_bounds hex4_shorter lowSurrogate_shorter)
qed

subsection \<open>A rendered string reads back\<close>

lemma unquote_quote: "unquote (quoteCh # s) = Some ([], s)"
  by (subst unquote.simps) simp

lemma unquote_plain:
  "32 \<le> ord c \<Longrightarrow> ord c < 128 \<Longrightarrow> c \<noteq> quoteCh \<Longrightarrow> c \<noteq> backslash \<Longrightarrow>
   unquote (c # s) = withPrefix [c] (unquote s)"
  by (subst unquote.simps) simp

lemma unquote_esc: "simpleEsc e = Some b \<Longrightarrow> unquote (backslash # e # s) = withPrefix [b] (unquote s)"
  by (subst unquote.simps) simp

lemma unquote_u:
  "hex4 s = Some (r, t) \<Longrightarrow> \<not> (55296 \<le> r \<and> r < 57344) \<Longrightarrow>
   unquote (backslash # CHR ''u'' # s) = withPrefix (encodeRune r) (unquote t)"
  by (subst unquote.simps) (auto simp: simpleEsc_def)

lemma unquote_rune:
  assumes "runeLen p = Some (length p)" and "128 \<le> ord (hd p)"
  shows "unquote (p @ s) = withPrefix p (unquote s)"
proof -
  obtain c q where p: "p = c # q" using runeLen_bounds [OF assms(1)] by (cases p) auto
  have "runeLen (c # q @ s) = Some (Suc (length q))"
    using runeLen_append [OF assms(1), of s] p by simp
  with assms(2) p show ?thesis by (subst unquote.simps) (auto split: if_splits)
qed

lemma hexVal_hexLower [simp]: "n < 16 \<Longrightarrow> hexVal (hexLower n) = Some n"
  by (auto simp: hexVal_def hexLower_def)

lemma hexVal_zero [simp]: "hexVal (CHR ''0'') = Some 0" "hexVal (CHR ''2'') = Some 2"
  by (simp_all add: hexVal_def)

lemma unquote_escByte:
  assumes "ord c < 128"
  shows "unquote (escByte c @ s) = withPrefix [c] (unquote s)"
proof -
  have lits: "ord c = 8 \<Longrightarrow> c = CHR 0x08" "ord c = 12 \<Longrightarrow> c = CHR 0x0C" "ord c = 10 \<Longrightarrow> c = CHR 0x0A"
      "ord c = 13 \<Longrightarrow> c = CHR 0x0D" "ord c = 9 \<Longrightarrow> c = CHR 0x09"
    by (auto dest!: ord_eq_char simp: charOf_eq)
  have "ord c div 16 < 16" "ord c mod 16 < 16" "16 * (ord c div 16) + ord c mod 16 = ord c"
    using assms by simp_all
  then have hex: "hex4 (CHR ''0'' # CHR ''0'' # hexLower (ord c div 16) # hexLower (ord c mod 16) # s) = Some (ord c, s)"
    by simp
  have u: "unquote (backslash # CHR ''u'' # CHR ''0'' # CHR ''0'' # hexLower (ord c div 16) # hexLower (ord c mod 16) # s)
      = withPrefix [c] (unquote s)"
    using unquote_u [OF hex] assms by (simp add: encodeRune_def)
  consider (ctl) "ord c \<in> {8, 12, 10, 13, 9}" | (lit) "c = quoteCh \<or> c = backslash"
    | (hex) "ord c \<notin> {8, 12, 10, 13, 9}" "c \<noteq> quoteCh" "c \<noteq> backslash"
            "ord c < 32 \<or> ord c = 60 \<or> ord c = 62 \<or> ord c = 38"
    | (plain) "c \<noteq> quoteCh" "c \<noteq> backslash" "32 \<le> ord c" "ord c \<noteq> 60" "ord c \<noteq> 62" "ord c \<noteq> 38"
    using assms by force
  then show ?thesis
  proof cases
    case ctl
    then have "c \<in> {CHR 0x08, CHR 0x0C, CHR 0x0A, CHR 0x0D, CHR 0x09}"
      using lits by blast
    then show ?thesis
      by (elim insertE emptyE; hypsubst; subst escByte_def; simp add: unquote_esc simpleEsc_def)
  next
    case lit
    then show ?thesis by (auto simp: escByte_def unquote_esc simpleEsc_def)
  next
    case hex
    then have "escByte c = [backslash, CHR ''u'', CHR ''0'', CHR ''0'', hexLower (ord c div 16), hexLower (ord c mod 16)]"
      by (simp add: escByte_def)
    with u show ?thesis by simp
  next
    case plain
    then have "escByte c = [c]" by (simp add: escByte_def)
    with plain assms show ?thesis by (simp add: unquote_plain)
  qed
qed

lemma isLineSep_drop:
  assumes "isLineSep s"
  shows "\<exists>c t. s = [CHR 0xE2, CHR 0x80, c] @ t \<and> (c = CHR 0xA8 \<or> c = CHR 0xA9) \<and> runeLen s = Some 3"
proof -
  obtain a b c t where s: "s = a # b # c # t"
    using assms unfolding isLineSep_def by (metis Suc_le_length_iff numeral_3_eq_3)
  with assms show ?thesis
    by (auto simp: isLineSep_def runeLen.simps byteIn_def)
qed

lemma unquote_lineSep:
  assumes "isLineSep s"
  shows "unquote (escLineSep s @ u) = withPrefix (take 3 s) (unquote u)"
proof -
  obtain c t where s: "s = [CHR 0xE2, CHR 0x80, c] @ t" and c: "c = CHR 0xA8 \<or> c = CHR 0xA9"
    using isLineSep_drop [OF assms] by blast
  have h: "hex4 (CHR ''2'' # CHR ''0'' # CHR ''2'' # hexLower (ord c mod 16) # u) = Some (8224 + ord c mod 16, u)"
    using c by (auto simp: hexVal_def hexLower_def)
  have "encodeRune (8224 + ord c mod 16) = take 3 s"
    using c s by (auto simp: encodeRune_def charOf_eq)
  then show ?thesis
    using unquote_u [OF h] s c by (auto simp: escLineSep_def)
qed

text \<open>What a string is after a trip through JSON: every byte outside a UTF-8 sequence is U+FFFD.\<close>

function toValidUTF8 :: "bytes \<Rightarrow> bytes" where
  "toValidUTF8 s = (case s of [] \<Rightarrow> []
     | c # cs \<Rightarrow> (case runeLen s of None \<Rightarrow> runeError @ toValidUTF8 cs
                | Some k \<Rightarrow> take k s @ toValidUTF8 (drop k s)))"
  by pat_completeness auto
termination
  by (relation "measure length") (auto dest: runeLen_bounds)

declare toValidUTF8.simps [simp del]

lemma toValidUTF8_id: "utf8Valid s \<Longrightarrow> toValidUTF8 s = s"
proof (induction s rule: utf8Valid.induct)
  case (1 s)
  show ?case
  proof (cases s)
    case (Cons c cs)
    with "1.prems" obtain k where "runeLen s = Some k" "utf8Valid (drop k s)"
      by (auto simp: utf8Valid.simps [of "c # cs"] split: option.splits)
    then show ?thesis using "1.IH" Cons by (simp add: toValidUTF8.simps [of "c # cs"])
  qed (simp add: toValidUTF8.simps)
qed

lemma unquote_replacement:
  "unquote ([backslash] @ ''ufffd'' @ u) = withPrefix runeError (unquote u)"
proof -
  have "hex4 (CHR ''f'' # CHR ''f'' # CHR ''f'' # CHR ''d'' # u) = Some (65533, u)"
    by (simp add: hexVal_def)
  moreover have "encodeRune 65533 = runeError"
    by (simp add: encodeRune_def runeError_def charOf_eq)
  ultimately show ?thesis using unquote_u by simp
qed

lemma unquote_jsonEsc_any: "unquote (jsonEsc s @ quoteCh # t) = Some (toValidUTF8 s, t)"
proof (induction s rule: toValidUTF8.induct)
  case (1 s)
  show ?case
  proof (cases s)
    case Nil
    then show ?thesis by (simp add: jsonEsc.simps toValidUTF8.simps unquote_quote)
  next
    case (Cons c cs)
    show ?thesis
    proof (cases "runeLen s")
      case None
      then have wide: "\<not> ord c < 128" using Cons by (auto simp: runeLen.simps)
      have "unquote (jsonEsc cs @ quoteCh # t) = Some (toValidUTF8 cs, t)"
        using "1.IH"(1) [OF Cons] None by simp
      then show ?thesis
        using wide None Cons unquote_replacement [of "jsonEsc cs @ quoteCh # t"]
        by (simp add: jsonEsc.simps [of "c # cs"] toValidUTF8.simps [of "c # cs"] withPrefix_def)
    next
      case k: (Some k)
      have IH: "unquote (jsonEsc (drop k s) @ quoteCh # t) = Some (toValidUTF8 (drop k s), t)"
        using "1.IH"(2) [OF Cons] k by simp
      have valid: "toValidUTF8 s = take k s @ toValidUTF8 (drop k s)"
        using k Cons by (simp add: toValidUTF8.simps [of "c # cs"])
      show ?thesis
      proof (cases "ord c < 128")
        case True
        with k Cons have "k = 1" by simp
        with IH True Cons valid show ?thesis
          by (simp add: jsonEsc.simps [of "c # cs"] unquote_escByte withPrefix_def)
      next
        case wide: False
        let ?rest = "jsonEsc (drop k s) @ quoteCh # t"
        have esc: "jsonEsc s = (if isLineSep s then escLineSep s else take k s) @ jsonEsc (drop k s)"
          using wide Cons k by (simp add: jsonEsc.simps [of "c # cs"])
        show ?thesis
        proof (cases "isLineSep s")
          case True
          then have "k = 3" using isLineSep_drop k by fastforce
          with True esc IH valid show ?thesis by (simp add: unquote_lineSep withPrefix_def)
        next
          case False
          have len: "length (take k s) = k" using runeLen_bounds [OF k] by simp
          obtain ds where ds: "take k s = c # ds"
            using runeLen_bounds [OF k] Cons by (cases k) auto
          have "runeLen (take k s) = Some (length (take k s))"
            using runeLen_take [OF k] len by simp
          then have "unquote (take k s @ ?rest) = withPrefix (take k s) (unquote ?rest)"
            by (rule unquote_rune) (use ds wide in simp)
          with False esc IH valid show ?thesis by (simp add: withPrefix_def)
        qed
      qed
    qed
  qed
qed

lemma unquote_jsonEsc [wire]: "utf8Valid s \<Longrightarrow> unquote (jsonEsc s @ quoteCh # t) = Some (s, t)"
  by (simp add: unquote_jsonEsc_any toValidUTF8_id)

lemma unquote_jsonString: "utf8Valid s \<Longrightarrow> jsonString s @ t = quoteCh # u \<Longrightarrow> unquote u = Some (s, t)"
  by (auto simp: jsonString_def unquote_jsonEsc)

end
