(* ===== verification/JsonEnc.thy ===== *)
theory JsonEnc
  imports Json "HOL-Library.List_Lexorder" "HOL-Library.Multiset"
begin

text \<open>
  \<open>json.Marshal\<close> of structs, slices and string maps: fields in declaration order, the keys of a
  map in ascending byte order, \<open>omitempty\<close> members left out when empty.
\<close>

definition jsonMember :: "string \<times> bytes \<Rightarrow> bytes" where
  "jsonMember kv = jsonString (fst kv) @ CHR '':'' # snd kv"

definition jsonObject :: "(string \<times> bytes) list \<Rightarrow> bytes" where
  "jsonObject kvs = CHR ''{'' # joinStr '','' (map jsonMember kvs) @ ''}''"

definition jsonArray :: "bytes list \<Rightarrow> bytes" where
  "jsonArray xs = CHR ''['' # joinStr '','' xs @ '']''"

definition jsonMap :: "attrs \<Rightarrow> bytes" where
  "jsonMap m = jsonObject (map (\<lambda>(k, v). (k, jsonString v)) (sort_key fst m))"

definition omitEmpty :: "string \<Rightarrow> string \<Rightarrow> (string \<times> bytes) list" where
  "omitEmpty k v = (if v = [] then [] else [(k, jsonString v)])"

text \<open>The rendering of a map does not depend on the order of iteration.\<close>

lemma sort_key_perm:
  assumes "mset xs = mset ys" "distinct (map fst xs)"
  shows "sort_key fst xs = sort_key fst (ys :: ('k :: linorder \<times> 'v) list)"
  using assms by (intro sort_key_eq_sort_key) (simp_all add: distinct_map)

text \<open>Bytes the encoder copies.\<close>

definition plainJson :: "char \<Rightarrow> bool" where
  "plainJson c \<longleftrightarrow> 32 \<le> ord c \<and> ord c < 128 \<and> ord c \<notin> {34, 38, 60, 62, 92}"

lemma escByte_plain: "plainJson c \<Longrightarrow> escByte c = [c] \<and> ord c < 128"
  unfolding plainJson_def escByte_def by (auto simp del: of_char_eq_iff)

lemma jsonEsc_plain: "list_all plainJson s \<Longrightarrow> jsonEsc s = s"
proof (induction s)
  case Nil
  then show ?case by (simp add: jsonEsc.simps)
next
  case (Cons c s)
  then show ?case using escByte_plain [of c] by (simp add: jsonEsc.simps [of "c # s"])
qed

lemma jsonString_plain: "list_all plainJson s \<Longrightarrow> length (jsonString s) = length s + 2"
  by (simp add: jsonString_def jsonEsc_plain)

lemma lowerHex_plainJson: "\<forall>c \<in> set s. lowerHexChar c \<Longrightarrow> list_all plainJson s"
  by (auto simp: list_all_iff lowerHexChar_def plainJson_def)

end
