(* ===== verification/Tracing.thy ===== *)
theory Tracing
  imports Config Redact Propagation GoTime Digest SpanBuffer JsonEnc
begin

text \<open>
  \<open>identity.go\<close>, \<open>resource.go\<close> and \<open>tracing.go\<close>: the identifiers of a batch, the resource
  attributes of the process, and the span from \<open>StartSpan\<close> to the record \<open>finish\<close> hands to the
  buffer; with the context functions of \<open>propagation.go\<close>.  The ambient context is the span it
  carries, if any; clock readings and random bytes are arguments.
\<close>

subsection \<open>Identity\<close>

record processingIdentity =
  piMessageID :: string
  piBatchID :: string
  piOrganisationID :: string
  piProjectID :: string
  piApplicationID :: string

record projectRef =
  prOrganisation :: string
  prProjectID :: string

record applicationRef =
  arApplicationID :: string
  arProject :: "projectRef option"

definition organisationRef :: "config \<Rightarrow> string" where
  "organisationRef c = cfgOrganisation c"

definition appRef :: "config \<Rightarrow> applicationRef" where
  "appRef c = \<lparr>arApplicationID = cfgApplication c,
     arProject = Some \<lparr>prOrganisation = organisationRef c, prProjectID = cfgProject c\<rparr>\<rparr>"

text \<open>The bytes \<open>deterministicID\<close> hashes: each part followed by a zero byte.\<close>

definition idInput :: "string list \<Rightarrow> bytes" where
  "idInput parts = concat (map (\<lambda>p. p @ [CHR 0x00]) parts)"

definition deterministicID :: "string list \<Rightarrow> string" where
  "deterministicID parts = take 32 (hexEncode (sha256 (idInput parts)))"

definition processing :: "config \<Rightarrow> string \<Rightarrow> processingIdentity" where
  "processing c seed =
     (let batchID = deterministicID [''batch'', cfgOrganisation c, cfgApplication c, seed];
          messageID = deterministicID [''message'', cfgOrganisation c, cfgApplication c, seed, batchID]
      in \<lparr>piMessageID = messageID, piBatchID = batchID, piOrganisationID = cfgOrganisation c,
          piProjectID = cfgProject c, piApplicationID = cfgApplication c\<rparr>)"

definition newTraceID :: "bytes \<Rightarrow> string" where
  "newTraceID rnd16 = hexEncode rnd16"

definition newSpanID :: "bytes \<Rightarrow> string" where
  "newSpanID rnd8 = hexEncode rnd8"

definition seedNow :: "int \<Rightarrow> string" where
  "seedNow now = itoa now"

lemma idInput_inject:
  "\<forall>p \<in> set ps. CHR 0x00 \<notin> set p \<Longrightarrow> \<forall>q \<in> set qs. CHR 0x00 \<notin> set q \<Longrightarrow>
   idInput ps = idInput qs \<longleftrightarrow> ps = qs"
proof (induction ps arbitrary: qs)
  case Nil
  then show ?case by (cases qs) (auto simp: idInput_def)
next
  case (Cons p ps)
  show ?case
  proof (cases qs)
    case (Cons q qs')
    have "p @ CHR 0x00 # idInput ps = q @ CHR 0x00 # idInput qs' \<longleftrightarrow> p = q \<and> idInput ps = idInput qs'"
      using Cons.prems \<open>qs = q # qs'\<close>
      by (metis (no_types, lifting) append_Cons indexByte_append append_eq_append_conv list.inject list.set_intros(1) option.inject)
    then show ?thesis
      using Cons.IH [of qs'] Cons.prems \<open>qs = q # qs'\<close> by (auto simp: idInput_def)
  qed (simp add: idInput_def)
qed

subsection \<open>Resource attributes\<close>

text \<open>
  \<open>processAttributes\<close>: \<open>goVersion\<close> is \<open>runtime.Version()\<close> and \<open>build\<close> the settings of
  \<open>debug.ReadBuildInfo\<close>, \<open>None\<close> when there is none.
\<close>

definition addSetting :: "string \<times> string \<Rightarrow> attrs \<Rightarrow> attrs" where
  "addSetting kv m =
     (if fst kv = ''vcs.revision'' then (if snd kv \<noteq> [] then AList.update ''app.commit'' (snd kv) m else m)
      else if fst kv = ''vcs.modified'' then (if snd kv = ''true'' then AList.update ''app.dirty'' ''true'' m else m)
      else m)"

definition processAttributes :: "string \<Rightarrow> attrs option \<Rightarrow> attrs" where
  "processAttributes goVersion build =
     (let m0 = [(''app.language'', ''go'')];
          v = trimPrefix goVersion ''go'';
          m1 = (if v \<noteq> [] then AList.update ''app.language.version'' v m0 else m0)
      in case build of None \<Rightarrow> m1 | Some settings \<Rightarrow> fold addSetting settings m1)"

definition mergeInto :: "attrs \<Rightarrow> attrs \<Rightarrow> attrs" where
  "mergeInto src dst = fold (\<lambda>(k, v) m. AList.update k v m) src dst"

definition withResourceAttributes :: "attrs \<Rightarrow> attrs \<Rightarrow> config \<Rightarrow> attrs" where
  "withResourceAttributes resource m c =
     (let m0 = mergeInto resource [];
          m1 = (if cfgServiceVersion c \<noteq> []
                then AList.update ''service.version'' (cfgServiceVersion c)
                       (AList.update ''app.version'' (cfgServiceVersion c) m0)
                else m0)
      in mergeInto m m1)"

lemma mergeInto_map_of [gomap]: "wf_map src \<Longrightarrow> map_of (mergeInto src dst) = map_of dst ++ map_of src"
proof (induction src arbitrary: dst)
  case (Cons kv src)
  obtain k v where kv: "kv = (k, v)" by force
  have "k \<notin> dom (map_of src)" using Cons.prems by (auto simp: wf_map_def kv dom_map_of_conv_image_fst)
  then show ?case
    using Cons by (auto simp: mergeInto_def kv wf_map_def map_add_def fun_eq_iff split: option.splits)
qed (simp add: mergeInto_def)

lemma wf_mergeInto [simp, gomap]: "wf_map dst \<Longrightarrow> wf_map (mergeInto src dst)"
  by (induction src arbitrary: dst) (auto simp: mergeInto_def)

subsection \<open>Records on the wire\<close>

record spanRecord =
  srOrganisation :: string
  srApplication :: applicationRef
  srTraceID :: string
  srSpanID :: string
  srParentSpanID :: string
  srName :: string
  srStartedAt :: string
  srEndedAt :: string
  srStatus :: string
  srAttributes :: attrs
  srServiceName :: string
  srHTTPMethod :: string
  srHTTPRoute :: string
  srHTTPStatusCode :: u32

record spanBatch =
  sbatSchema :: string
  sbatProcessing :: processingIdentity
  sbatSpans :: "spanRecord list"
  sbatSpanCount :: string

definition marshalOrganisation :: "string \<Rightarrow> bytes" where
  "marshalOrganisation org = jsonObject [(''organisationId'', jsonString org)]"

definition marshalApplication :: "applicationRef \<Rightarrow> bytes" where
  "marshalApplication a =
     jsonObject ((''applicationId'', jsonString (arApplicationID a)) #
       (case arProject a of None \<Rightarrow> []
        | Some p \<Rightarrow> [(''project'', jsonObject [(''organisation'', marshalOrganisation (prOrganisation p)),
                                               (''projectId'', jsonString (prProjectID p))])]))"

definition marshalProcessing :: "processingIdentity \<Rightarrow> bytes" where
  "marshalProcessing p =
     jsonObject ([(''messageId'', jsonString (piMessageID p)), (''batchId'', jsonString (piBatchID p))]
       @ omitEmpty ''organisationId'' (piOrganisationID p)
       @ omitEmpty ''projectId'' (piProjectID p)
       @ omitEmpty ''applicationId'' (piApplicationID p))"

definition marshalSpan :: "spanRecord \<Rightarrow> bytes" where
  "marshalSpan r =
     jsonObject ([(''organisation'', marshalOrganisation (srOrganisation r)),
        (''application'', marshalApplication (srApplication r)),
        (''traceId'', jsonString (srTraceID r)), (''spanId'', jsonString (srSpanID r)),
        (''parentSpanId'', jsonString (srParentSpanID r)), (''name'', jsonString (srName r)),
        (''startedAt'', jsonString (srStartedAt r)), (''endedAt'', jsonString (srEndedAt r)),
        (''status'', jsonString (srStatus r)), (''attributes'', jsonMap (srAttributes r))]
       @ omitEmpty ''serviceName'' (srServiceName r)
       @ omitEmpty ''httpMethod'' (srHTTPMethod r)
       @ omitEmpty ''httpRoute'' (srHTTPRoute r)
       @ (if srHTTPStatusCode r = 0 then [] else [(''httpStatusCode'', digits10 (unat (srHTTPStatusCode r)))]))"

definition marshalSpanBatch :: "spanBatch \<Rightarrow> bytes" where
  "marshalSpanBatch b =
     jsonObject [(''schema'', jsonString (sbatSchema b)), (''processing'', marshalProcessing (sbatProcessing b)),
       (''spans'', jsonArray (map marshalSpan (sbatSpans b))), (''spanCount'', jsonString (sbatSpanCount b))]"

definition statusFromCode :: "int \<Rightarrow> string" where
  "statusFromCode code = (if code \<ge> 500 then ''error'' else ''ok'')"

definition uint32Status :: "int \<Rightarrow> u32" where
  "uint32Status code = (if code < 0 then 0 else of_int code)"

definition attrInt :: "int \<Rightarrow> string" where
  "attrInt n = itoa n"

subsection \<open>Spans\<close>

text \<open>
  \<open>spDir\<close> is \<open>writer.Dir\<close>; \<open>spClient\<close> tells whether both the client and its buffer are set, which
  is what \<open>End\<close> asks.  A nil attribute map is the empty one.
\<close>

record span =
  spCfg :: config
  spDir :: string
  spClient :: bool
  spEnded :: bool
  spTraceID :: string
  spSpanID :: string
  spParentID :: string
  spName :: string
  spStartedAt :: int
  spAttributes :: attrs
  spStatus :: string
  spServiceName :: string
  spSampled :: bool
  spTracestate :: string
  spBaggage :: string
  spHTTPMethod :: string
  spHTTPRoute :: string
  spHTTPStatus :: u32

definition zeroConfig :: config where
  "zeroConfig = \<lparr>
     cfgEnabled = False, cfgOrganisation = [], cfgProject = [], cfgApplication = [], cfgSpoolDir = [],
     cfgServiceName = [], cfgServiceVersion = [], cfgAPMEnabled = False, cfgLogsEnabled = False,
     cfgProfilerEnabled = False, cfgMetricsEnabled = False, cfgDSTEnabled = False, cfgProfileInterval = 0,
     cfgProfileDuration = 0, cfgMetricsInterval = 0, cfgProfileMaxStackDepth = 0, cfgProfileBatchSize = 0,
     cfgWallProfileEnabled = False, cfgWallSampleInterval = 0, cfgWallExcludeIdle = False, cfgWallMaxStacks = 0,
     cfgIOProfileEnabled = False, cfgIOMinWait = 0, cfgIOMaxSamples = 0, cfgSpanBatchSize = 0,
     cfgSpanFlushInterval = 0, cfgSpanMaxBuffered = 0, cfgHTTPCapture = False, cfgHTTPCaptureBodies = False,
     cfgHTTPMaxBody = 0, cfgHTTPRedact = False, cfgRedactPatterns = [], cfgHTTPSkipPaths = [],
     cfgMessagingCaptureBodies = False, cfgMessagingMaxBody = 0, cfgBackground = False\<rparr>"

definition zeroSpan :: span where
  "zeroSpan = \<lparr>spCfg = zeroConfig, spDir = [], spClient = False, spEnded = False, spTraceID = [],
     spSpanID = [], spParentID = [], spName = [], spStartedAt = 0, spAttributes = [], spStatus = [],
     spServiceName = [], spSampled = False, spTracestate = [], spBaggage = [], spHTTPMethod = [],
     spHTTPRoute = [], spHTTPStatus = 0\<rparr>"

type_synonym ctx = "span option"

text \<open>The client, as far as tracing needs it: configuration, writer directory, span buffer.\<close>

record client =
  clCfg :: config
  clDir :: string
  clSpans :: "spanRecord spanBuffer option"

definition startSpan :: "client option \<Rightarrow> ctx \<Rightarrow> string \<Rightarrow> int \<Rightarrow> bytes \<Rightarrow> bytes \<Rightarrow> ctx \<times> span" where
  "startSpan co c name now rnd16 rnd8 =
     (case co of
        None \<Rightarrow> (c, zeroSpan\<lparr>spName := name, spStartedAt := now, spSampled := True\<rparr>)
      | Some cl \<Rightarrow>
          if \<not> cfgEnabled (clCfg cl) \<or> \<not> cfgAPMEnabled (clCfg cl)
          then (c, zeroSpan\<lparr>spName := name, spStartedAt := now, spSampled := True\<rparr>)
          else
            (let fresh = zeroSpan\<lparr>spCfg := clCfg cl, spDir := clDir cl, spClient := clSpans cl \<noteq> None,
                   spTraceID := newTraceID rnd16, spSpanID := newSpanID rnd8, spName := name,
                   spStartedAt := now, spStatus := ''ok'', spServiceName := cfgServiceName (clCfg cl),
                   spSampled := True\<rparr>;
                 s = (case c of
                    None \<Rightarrow> fresh
                  | Some p \<Rightarrow>
                      if spTraceID p = [] then fresh
                      else fresh\<lparr>spTraceID := spTraceID p, spParentID := spSpanID p, spSampled := spSampled p,
                             spTracestate := spTracestate p, spBaggage := spBaggage p\<rparr>)
             in (Some s, s)))"

text \<open>Whether \<open>StartSpan\<close> makes a span of the client's and puts it in the context.\<close>

definition tracingOn :: "client option \<Rightarrow> bool" where
  "tracingOn co = (case co of None \<Rightarrow> False | Some cl \<Rightarrow> cfgEnabled (clCfg cl) \<and> cfgAPMEnabled (clCfg cl))"

text \<open>\<open>Default()\<close> is never nil: before a start it is a client with nothing enabled.\<close>

definition noClient :: client where
  "noClient = \<lparr>clCfg = zeroConfig, clDir = [], clSpans = None\<rparr>"

definition defaultOr :: "client option \<Rightarrow> client option" where
  "defaultOr deflt = Some (case deflt of None \<Rightarrow> noClient | Some cl \<Rightarrow> cl)"

lemma defaultOr_simps [simp]: "defaultOr None = Some noClient" "defaultOr (Some cl) = Some cl"
  by (simp_all add: defaultOr_def)

lemma noClient_off [simp]: "\<not> cfgEnabled (clCfg noClient)" "\<not> cfgAPMEnabled (clCfg noClient)"
  by (simp_all add: noClient_def zeroConfig_def)

lemma tracingOn_Some [simp]: "tracingOn (Some cl) \<longleftrightarrow> cfgEnabled (clCfg cl) \<and> cfgAPMEnabled (clCfg cl)" "\<not> tracingOn None"
  by (simp_all add: tracingOn_def)

lemma startSpan_on: "tracingOn co \<Longrightarrow> fst (startSpan co c name now rnd16 rnd8) = Some (snd (startSpan co c name now rnd16 rnd8))"
  by (auto simp: tracingOn_def startSpan_def Let_def split: option.split_asm)

lemma startSpan_off: "\<not> tracingOn co \<Longrightarrow> fst (startSpan co c name now rnd16 rnd8) = c"
  by (auto simp: tracingOn_def startSpan_def split: option.split)

definition maxAttributes :: nat where
  "maxAttributes = 64"

definition setAttribute :: "string \<Rightarrow> string \<Rightarrow> span \<Rightarrow> span" where
  "setAttribute k v s =
     (if length (spAttributes s) \<ge> maxAttributes then s
      else s\<lparr>spAttributes := AList.update k v (spAttributes s)\<rparr>)"

definition setStatus :: "string \<Rightarrow> span \<Rightarrow> span" where
  "setStatus st s = s\<lparr>spStatus := st\<rparr>"

text \<open>\<open>finish\<close>: the record, if the span is to be recorded, and the span marked as ended.\<close>

definition finish :: "unicodeTables \<Rightarrow> attrs \<Rightarrow> int \<Rightarrow> span \<Rightarrow> spanRecord option \<times> span" where
  "finish U resource now s =
     (if spEnded s then (None, s)
      else
        (let s1 = s\<lparr>spEnded := True\<rparr>; c = spCfg s in
         if \<not> cfgEnabled c \<or> \<not> cfgAPMEnabled c \<or> spDir s = [] then (None, s1)
         else
           (let masked = (if cfgHTTPRedact c then redactMap U (spAttributes s) (cfgRedactPatterns c) else spAttributes s)
            in (Some \<lparr>srOrganisation = organisationRef c, srApplication = appRef c,
                  srTraceID = spTraceID s, srSpanID = spSpanID s, srParentSpanID = spParentID s,
                  srName = spName s, srStartedAt = formatRFC3339Nano (spStartedAt s),
                  srEndedAt = formatRFC3339Nano now, srStatus = spStatus s,
                  srAttributes = withResourceAttributes resource masked c,
                  srServiceName = spServiceName s, srHTTPMethod = spHTTPMethod s, srHTTPRoute = spHTTPRoute s,
                  srHTTPStatusCode = spHTTPStatus s\<rparr>, s1))))"

definition mkSpanBatch :: "config \<Rightarrow> int \<Rightarrow> spanRecord list \<Rightarrow> spanBatch" where
  "mkSpanBatch c now records =
     \<lparr>sbatSchema = ''chronos.tracing.span-batch.v1'',
      sbatProcessing = processing c (seedNow now @ srSpanID (hd records)),
      sbatSpans = records, sbatSpanCount = itoa (int (length records))\<rparr>"

text \<open>
  \<open>End\<close>, on the span, the buffer of its client and a spool state \<open>'w\<close>; \<open>wj\<close> is \<open>WriteJSON\<close> of a
  batch, \<open>clock\<close> the wall clock.
\<close>

definition writeBatch :: "(spanBatch \<Rightarrow> 'w \<Rightarrow> bool \<times> 'w) \<Rightarrow> ('w \<Rightarrow> int) \<Rightarrow> config \<Rightarrow> spanRecord list \<Rightarrow> 'w \<Rightarrow> bool \<times> 'w" where
  "writeBatch wj clock c records w = wj (mkSpanBatch c (clock w) records) w"

definition endSpan ::
  "unicodeTables \<Rightarrow> attrs \<Rightarrow> (spanBatch \<Rightarrow> 'w \<Rightarrow> bool \<times> 'w) \<Rightarrow> ('w \<Rightarrow> int) \<Rightarrow> span \<Rightarrow>
   spanRecord spanBuffer \<Rightarrow> 'w \<Rightarrow> span \<times> spanRecord spanBuffer \<times> 'w" where
  "endSpan U resource wj clock s b w =
     (case finish U resource (clock w) s of
        (None, s1) \<Rightarrow> (s1, b, w)
      | (Some r, s1) \<Rightarrow>
          if \<not> spClient s then (s1, b, snd (writeBatch wj clock (spCfg s) [r] w))
          else (s1, enqueueSpan (writeBatch wj clock (spCfg s)) r b w))"

subsection \<open>Propagating a span\<close>

definition spanTraceparent :: "span option \<Rightarrow> string" where
  "spanTraceparent so = (case so of None \<Rightarrow> [] | Some s \<Rightarrow> formatTraceparent (spTraceID s) (spSpanID s) (spSampled s))"

definition spanRemoteContext :: "span option \<Rightarrow> remoteContext" where
  "spanRemoteContext so = (case so of None \<Rightarrow> noRemote
     | Some s \<Rightarrow> \<lparr>rcTraceID = spTraceID s, rcSpanID = spSpanID s, rcSampled = spSampled s,
                  rcTracestate = spTracestate s, rcBaggage = spBaggage s\<rparr>)"

definition adopt :: "remoteContext \<Rightarrow> span \<Rightarrow> span" where
  "adopt r s =
     (if \<not> remoteValid r then s
      else s\<lparr>spTraceID := rcTraceID r, spParentID := rcSpanID r, spSampled := rcSampled r,
             spTracestate := rcTracestate r, spBaggage := rcBaggage r\<rparr>)"

definition contextWithRemoteContext :: "int \<Rightarrow> ctx \<Rightarrow> remoteContext \<Rightarrow> ctx" where
  "contextWithRemoteContext now c r =
     (if \<not> remoteValid r then c
      else Some (zeroSpan\<lparr>spTraceID := rcTraceID r, spSpanID := rcSpanID r, spSampled := rcSampled r,
             spTracestate := rcTracestate r, spBaggage := rcBaggage r, spStartedAt := now, spEnded := True\<rparr>))"

definition contextWithRemoteSpan :: "int \<Rightarrow> ctx \<Rightarrow> string \<Rightarrow> ctx" where
  "contextWithRemoteSpan now c traceparent =
     (case parseTraceparentContext traceparent of None \<Rightarrow> c | Some r \<Rightarrow> contextWithRemoteContext now c r)"

definition traceparentFromContext :: "ctx \<Rightarrow> string" where
  "traceparentFromContext c = spanTraceparent c"

definition tracestateFromContext :: "ctx \<Rightarrow> string" where
  "tracestateFromContext c = (case c of None \<Rightarrow> [] | Some s \<Rightarrow> spTracestate s)"

definition baggageFromContext :: "ctx \<Rightarrow> string" where
  "baggageFromContext c = (case c of None \<Rightarrow> [] | Some s \<Rightarrow> spBaggage s)"

subsection \<open>Results\<close>

lemma startSpan_child:
  assumes "cfgEnabled (clCfg cl)" "cfgAPMEnabled (clCfg cl)" "spTraceID p \<noteq> []"
  shows "startSpan (Some cl) (Some p) name now rnd16 rnd8 =
    (let s = zeroSpan\<lparr>spCfg := clCfg cl, spDir := clDir cl, spClient := clSpans cl \<noteq> None,
               spTraceID := spTraceID p, spSpanID := newSpanID rnd8, spParentID := spSpanID p, spName := name,
               spStartedAt := now, spStatus := ''ok'', spServiceName := cfgServiceName (clCfg cl),
               spSampled := spSampled p, spTracestate := spTracestate p, spBaggage := spBaggage p\<rparr>
     in (Some s, s))"
  using assms by (simp add: startSpan_def Let_def zeroSpan_def)

lemma lowerHex_hexEncode: "length b = n \<Longrightarrow> lowerHex (hexEncode b) (2 * n)"
  by (simp add: lowerHex_def list_all_iff hexEncode_chars)

text \<open>
  A trace survives a hop.  Under a context built from an inbound traceparent, a span this
  process starts joins the sender's trace as a child of the sender's span and with the sender's
  sampling decision, and the traceparent it sends on parses to the same trace and decision.
\<close>

theorem trace_survives_hop:
  assumes "parseTraceparentContext header = Some r" "cfgEnabled (clCfg cl)" "cfgAPMEnabled (clCfg cl)"
    and "length rnd8 = 8" "\<not> allZero (hexEncode rnd8)"
  shows "case startSpan (Some cl) (contextWithRemoteSpan now0 c header) name now rnd16 rnd8 of (c', s) \<Rightarrow>
    spTraceID s = rcTraceID r \<and> spParentID s = rcSpanID r \<and> spSampled s = rcSampled r
    \<and> parseTraceparentContext (traceparentFromContext c')
        = Some (noRemote\<lparr>rcTraceID := rcTraceID r, rcSpanID := spSpanID s, rcSampled := rcSampled r\<rparr>)"
proof -
  have v: "validIds (rcTraceID r) (rcSpanID r)" using parse_valid [OF assms(1)] by simp
  then have valid: "remoteValid r" by (auto simp: remoteValid_def validIds_def lowerHex_def)
  then have ctx: "contextWithRemoteSpan now0 c header =
      Some (zeroSpan\<lparr>spTraceID := rcTraceID r, spSpanID := rcSpanID r, spSampled := rcSampled r,
             spTracestate := rcTracestate r, spBaggage := rcBaggage r, spStartedAt := now0, spEnded := True\<rparr>)"
    by (simp add: contextWithRemoteSpan_def assms(1) contextWithRemoteContext_def)
  have ids: "validIds (rcTraceID r) (newSpanID rnd8)"
    using v lowerHex_hexEncode [OF assms(4)] assms(5) by (simp add: validIds_def newSpanID_def)
  show ?thesis
    unfolding ctx using valid
    by (subst startSpan_child [OF assms(2,3)])
      (simp_all add: remoteValid_def Let_def traceparentFromContext_def spanTraceparent_def parse_format [OF ids])
qed

definition liveConfig :: config where
  "liveConfig = zeroConfig\<lparr>cfgEnabled := True, cfgAPMEnabled := True, cfgOrganisation := ''org'',
     cfgProject := ''proj'', cfgApplication := ''app'', cfgServiceName := ''svc''\<rparr>"

definition liveClient :: client where
  "liveClient = \<lparr>clCfg = liveConfig, clDir = ''spool'', clSpans = Some (newSpanBuffer 2 4)\<rparr>"

theorem trace_survives_hop_witness:
  "case startSpan (Some liveClient) (contextWithRemoteSpan 0 None (formatTraceparent w3cTrace w3cSpan False)) ''consume'' 0
       [] ''ABCDEFGH'' of (c', s) \<Rightarrow>
    spTraceID s = w3cTrace \<and> spParentID s = w3cSpan \<and> spSampled s = False
    \<and> parseTraceparentContext (traceparentFromContext c')
        = Some (noRemote\<lparr>rcTraceID := w3cTrace, rcSpanID := spSpanID s, rcSampled := False\<rparr>)"
proof -
  have "cfgEnabled (clCfg liveClient)" "cfgAPMEnabled (clCfg liveClient)" "\<not> allZero (hexEncode ''ABCDEFGH'')"
    by (simp_all add: liveClient_def liveConfig_def allZero_def hexEncode_def hexLower_def charOf_eq)
  then show ?thesis
    using trace_survives_hop [OF parse_format [OF w3c_valid, of False], of liveClient "''ABCDEFGH''" 0 None "''consume''" 0 "[]"]
    by (simp add: case_prod_unfold)
qed

text \<open>
  A span is recorded at most once.  After \<open>End\<close> the span is ended, and ending it again touches
  neither the buffer nor the spool.
\<close>

theorem span_ends_once:
  "case endSpan U resource wj clock s b w of (s1, b1, w1) \<Rightarrow>
     spEnded s1 \<and> endSpan U resource wj clock s1 b2 w2 = (s1, b2, w2)"
  by (auto simp: endSpan_def finish_def Let_def split: prod.splits option.splits if_splits)

text \<open>
  C31: what leaves the process under an attribute.  The record of a finished span holds, for every
  key the span set, its value, masked when redaction is on and the key is sensitive, and for
  every other key the resource family's; the family never overrides the span.
\<close>

theorem record_attributes:
  assumes "wf_map (spAttributes s)" "wf_map resource" "finish U resource now s = (Some r, s1)"
  shows "map_of (srAttributes r) k = (case map_of (spAttributes s) k of
      Some v \<Rightarrow> Some (if cfgHTTPRedact (spCfg s) \<and> isSensitive U k (cfgRedactPatterns (spCfg s)) then maskValue v else v)
    | None \<Rightarrow> if cfgServiceVersion (spCfg s) \<noteq> [] \<and> k \<in> {''app.version'', ''service.version''}
              then Some (cfgServiceVersion (spCfg s)) else map_of resource k)"
proof -
  have r: "srAttributes r = withResourceAttributes resource
      (if cfgHTTPRedact (spCfg s) then redactMap U (spAttributes s) (cfgRedactPatterns (spCfg s)) else spAttributes s) (spCfg s)"
    using assms(3) by (auto simp: finish_def Let_def split: if_splits)
  show ?thesis
    unfolding r withResourceAttributes_def Let_def
    using assms(1,2)
    by (auto simp: mergeInto_map_of map_of_redactMap map_add_def split: option.splits)
qed

definition sampleSpan :: span where
  "sampleSpan = zeroSpan\<lparr>spCfg := liveConfig\<lparr>cfgHTTPRedact := True, cfgRedactPatterns := [''token'']\<rparr>, spDir := ''spool'',
     spTraceID := w3cTrace, spSpanID := w3cSpan, spName := ''op'', spAttributes := [(''api_token'', ''hunter2hunter2'')]\<rparr>"

theorem record_attributes_witness:
  "map_of (srAttributes (the (fst (finish asciiTables [(''app.language'', ''go'')] 0 sampleSpan)))) ''api_token''
     = Some (maskPrefix @ ''ter2'')"
proof -
  have f: "finish asciiTables [(''app.language'', ''go'')] 0 sampleSpan
      = (Some (the (fst (finish asciiTables [(''app.language'', ''go'')] 0 sampleSpan))), sampleSpan\<lparr>spEnded := True\<rparr>)"
    by (simp add: finish_def Let_def sampleSpan_def liveConfig_def zeroSpan_def)
  have "isSensitive asciiTables ''api_token'' [''token'']" by code_simp
  then show ?thesis
    using record_attributes [OF _ _ f, of "''api_token''"]
    by (simp add: sampleSpan_def liveConfig_def wf_map_def maskValue_def)
qed

lemma setAttribute_wf: "wf_map (spAttributes s) \<Longrightarrow> wf_map (spAttributes (setAttribute k v s))"
  by (simp add: setAttribute_def)

lemma setAttribute_cap:
  "length (spAttributes s) \<le> maxAttributes \<Longrightarrow> length (spAttributes (setAttribute k v s)) \<le> maxAttributes"
  using length_update_le [of k v "spAttributes s"] by (simp add: setAttribute_def)

text \<open>
  The per-span cap.  However \<open>SetAttribute\<close> is called, a span holds at most 64 attributes, each
  key once; at the cap even an existing key keeps its old value.
\<close>

theorem attributes_capped:
  "(let s = fold (\<lambda>(k, v). setAttribute k v) kvs (zeroSpan\<lparr>spName := name\<rparr>)
    in length (spAttributes s) \<le> maxAttributes \<and> wf_map (spAttributes s)
     \<and> (if length (spAttributes s) = maxAttributes then setAttribute k v s = s
        else map_of (spAttributes (setAttribute k v s)) k = Some v))"
proof -
  define inv where "inv s \<longleftrightarrow> length (spAttributes s) \<le> maxAttributes \<and> wf_map (spAttributes s)" for s :: span
  have step: "inv s \<Longrightarrow> inv (setAttribute k v s)" for k v s
    using setAttribute_wf setAttribute_cap unfolding inv_def by blast
  have "inv s \<Longrightarrow> inv (fold (\<lambda>(k, v). setAttribute k v) kvs s)" for s
    by (induction kvs arbitrary: s) (simp_all add: step case_prod_unfold)
  moreover have "inv (zeroSpan\<lparr>spName := name\<rparr>)" by (simp add: inv_def zeroSpan_def)
  ultimately have "inv (fold (\<lambda>(k, v). setAttribute k v) kvs (zeroSpan\<lparr>spName := name\<rparr>))" by blast
  then show ?thesis by (simp add: Let_def inv_def setAttribute_def)
qed

end
