(* ===== verification/JsonDoc.thy ===== *)
theory JsonDoc
  imports Json
begin

text \<open>
  Reading a JSON document the way \<open>json.Unmarshal\<close> does: the grammar of the package's
  scanner (its four white-space bytes, no leading zeros, at most 10000 nested values), then
  the value.  \<open>jVal d n s\<close> reads one value of \<open>s\<close> with \<open>d\<close> levels of nesting left; \<open>n\<close> is
  fuel, of which more than twice the length of the input is always enough (\<open>jVal_fuel\<close>).
\<close>

datatype jval = JNull | JBool bool | JNum bytes | JStr bytes
  | JArr "jval list" | JObj "(bytes \<times> jval) list"

fun skipWs :: "bytes \<Rightarrow> bytes" where
  "skipWs [] = []"
| "skipWs (c # s) = (if ord c \<in> {32, 9, 10, 13} then skipWs s else c # s)"

definition isDigit :: "char \<Rightarrow> bool" where
  "isDigit c \<longleftrightarrow> 48 \<le> ord c \<and> ord c \<le> 57"

text \<open>The number token at the head of the input and what follows it.\<close>

definition jInt :: "bytes \<Rightarrow> (bytes \<times> bytes) option" where
  "jInt s = (case s of [] \<Rightarrow> None
     | c # t \<Rightarrow> if c = CHR ''0'' then Some ([c], t)
                else if isDigit c then Some (c # takeWhile isDigit t, dropWhile isDigit t)
                else None)"

definition jDigits :: "bytes \<Rightarrow> (bytes \<times> bytes) option" where
  "jDigits s = (case s of c # t \<Rightarrow>
       if isDigit c then Some (takeWhile isDigit s, dropWhile isDigit s) else None
     | [] \<Rightarrow> None)"

definition jFrac :: "bytes \<times> bytes \<Rightarrow> (bytes \<times> bytes) option" where
  "jFrac r = (case r of (num, e # t) \<Rightarrow>
       if e = CHR ''.'' then map_option (\<lambda>(ds, u). (num @ e # ds, u)) (jDigits t)
       else Some r
     | _ \<Rightarrow> Some r)"

definition jExp :: "bytes \<times> bytes \<Rightarrow> (bytes \<times> bytes) option" where
  "jExp r = (case r of (num, e # t) \<Rightarrow>
       if e = CHR ''e'' \<or> e = CHR ''E'' then
         (case t of g # u \<Rightarrow>
            if g = CHR ''+'' \<or> g = CHR ''-''
            then map_option (\<lambda>(ds, v). (num @ e # g # ds, v)) (jDigits u)
            else map_option (\<lambda>(ds, v). (num @ e # ds, v)) (jDigits t)
          | [] \<Rightarrow> None)
       else Some r
     | _ \<Rightarrow> Some r)"

definition jNumber :: "bytes \<Rightarrow> (bytes \<times> bytes) option" where
  "jNumber s =
     (case (if s \<noteq> [] \<and> hd s = CHR ''-'' then withPrefix ''-'' (jInt (tl s)) else jInt s) of
        None \<Rightarrow> None
      | Some r \<Rightarrow> (case jFrac r of None \<Rightarrow> None | Some r' \<Rightarrow> jExp r'))"

definition jWord :: "bytes \<Rightarrow> jval \<Rightarrow> bytes \<Rightarrow> (jval \<times> bytes) option" where
  "jWord w v s = (if hasPrefix s w then Some (v, drop (length w) s) else None)"

fun jVal :: "nat \<Rightarrow> nat \<Rightarrow> bytes \<Rightarrow> (jval \<times> bytes) option"
  and jElems :: "nat \<Rightarrow> nat \<Rightarrow> bytes \<Rightarrow> (jval list \<times> bytes) option"
  and jMembers :: "nat \<Rightarrow> nat \<Rightarrow> bytes \<Rightarrow> ((bytes \<times> jval) list \<times> bytes) option"
where
  "jVal d 0 s = None"
| "jVal d (Suc n) s = (case skipWs s of [] \<Rightarrow> None
     | c # t \<Rightarrow>
         if c = quoteCh then map_option (\<lambda>(v, r). (JStr v, r)) (unquote t)
         else if c = CHR ''{'' then
           (if d = 0 then None
            else case skipWs t of [] \<Rightarrow> None
              | e # u \<Rightarrow> if e = CHR ''}'' then Some (JObj [], u)
                         else map_option (\<lambda>(ms, r). (JObj ms, r)) (jMembers (d - 1) n (e # u)))
         else if c = CHR ''['' then
           (if d = 0 then None
            else case skipWs t of [] \<Rightarrow> None
              | e # u \<Rightarrow> if e = CHR '']'' then Some (JArr [], u)
                         else map_option (\<lambda>(es, r). (JArr es, r)) (jElems (d - 1) n (e # u)))
         else if c = CHR ''t'' then jWord ''true'' (JBool True) (c # t)
         else if c = CHR ''f'' then jWord ''false'' (JBool False) (c # t)
         else if c = CHR ''n'' then jWord ''null'' JNull (c # t)
         else map_option (\<lambda>(num, r). (JNum num, r)) (jNumber (c # t)))"
| "jElems d 0 s = None"
| "jElems d (Suc n) s = (case jVal d n s of None \<Rightarrow> None
     | Some (v, t) \<Rightarrow>
         (case skipWs t of [] \<Rightarrow> None
          | e # u \<Rightarrow> if e = CHR '']'' then Some ([v], u)
                     else if e = CHR '','' then map_option (\<lambda>(vs, r). (v # vs, r)) (jElems d n u)
                     else None))"
| "jMembers d 0 s = None"
| "jMembers d (Suc n) s = (case skipWs s of [] \<Rightarrow> None
     | q # t \<Rightarrow>
         if q \<noteq> quoteCh then None
         else case unquote t of None \<Rightarrow> None
           | Some (k, u) \<Rightarrow>
               (case skipWs u of [] \<Rightarrow> None
                | col # w \<Rightarrow>
                    if col \<noteq> CHR '':'' then None
                    else case jVal d n w of None \<Rightarrow> None
                      | Some (v, x) \<Rightarrow>
                          (case skipWs x of [] \<Rightarrow> None
                           | e # y \<Rightarrow>
                               if e = CHR ''}'' then Some ([(k, v)], y)
                               else if e = CHR '','' then
                                 map_option (\<lambda>(ms, r). ((k, v) # ms, r)) (jMembers d n y)
                               else None)))"

definition maxNesting :: nat where
  "maxNesting = 10000"

definition jParse :: "bytes \<Rightarrow> jval option" where
  "jParse s = (case jVal maxNesting (Suc (2 * length s)) s of
     Some (v, r) \<Rightarrow> if skipWs r = [] then Some v else None
   | None \<Rightarrow> None)"

subsection \<open>The parser consumes input\<close>

lemma skipWs_le: "length (skipWs s) \<le> length s"
  by (induction s) auto

lemma skipWs_Cons_le: "skipWs s = c # t \<Longrightarrow> length t < length s"
  using skipWs_le [of s] by simp

lemma jInt_shorter: "jInt s = Some (v, t) \<Longrightarrow> length t < length s"
  by (auto simp: jInt_def length_dropWhile_le le_imp_less_Suc split: list.splits if_splits)

lemma jDigits_shorter: "jDigits s = Some (v, t) \<Longrightarrow> length t \<le> length s"
  by (auto simp: jDigits_def length_dropWhile_le split: list.splits if_splits)
     (meson length_dropWhile_le le_SucI)

lemma jFrac_le: "jFrac (n, s) = Some (v, t) \<Longrightarrow> length t \<le> length s"
  by (auto simp: jFrac_def split: list.splits if_splits dest!: jDigits_shorter)

lemma jExp_le: "jExp (n, s) = Some (v, t) \<Longrightarrow> length t \<le> length s"
  by (auto simp: jExp_def split: list.splits if_splits dest!: jDigits_shorter)

lemma jNumber_shorter: "jNumber s = Some (v, t) \<Longrightarrow> length t < length s"
proof -
  assume "jNumber s = Some (v, t)"
  then obtain n u n' u' where
    a: "(if s \<noteq> [] \<and> hd s = CHR ''-'' then withPrefix ''-'' (jInt (tl s)) else jInt s) = Some (n, u)"
    and b: "jFrac (n, u) = Some (n', u')" and c: "jExp (n', u') = Some (v, t)"
    by (auto simp: jNumber_def split: option.splits)
  have "length u < length s"
    using a by (auto simp: withPrefix_Some split: if_splits dest!: jInt_shorter)
  with jFrac_le [OF b] jExp_le [OF c] show ?thesis by simp
qed

lemma jWord_shorter: "w \<noteq> [] \<Longrightarrow> jWord w x s = Some (v, t) \<Longrightarrow> length t < length s"
  by (auto simp: jWord_def hasPrefix_iff split: if_splits)

lemma json_shorter:
  "(\<forall>d s v t. jVal d n s = Some (v, t) \<longrightarrow> length t < length s) \<and>
   (\<forall>d s vs t. jElems d n s = Some (vs, t) \<longrightarrow> length t < length s) \<and>
   (\<forall>d s ms t. jMembers d n s = Some (ms, t) \<longrightarrow> length t < length s)"
proof (induction n)
  case (Suc n)
  then have V: "\<And>d s v t. jVal d n s = Some (v, t) \<Longrightarrow> length t < length s"
    and E: "\<And>d s vs t. jElems d n s = Some (vs, t) \<Longrightarrow> length t < length s"
    and M: "\<And>d s ms t. jMembers d n s = Some (ms, t) \<Longrightarrow> length t < length s" by blast+
  have "length t < length s" if "jVal d (Suc n) s = Some (v, t)" for d s v t
    using that
    by (auto split: if_splits list.splits
         dest!: unquote_shorter jWord_shorter [rotated] jNumber_shorter skipWs_Cons_le E M)
  moreover have "length t < length s" if "jElems d (Suc n) s = Some (vs, t)" for d s vs t
    using that by (auto split: option.splits if_splits list.splits dest!: skipWs_Cons_le V E)
  moreover have "length t < length s" if "jMembers d (Suc n) s = Some (ms, t)" for d s ms t
    using that
    by (auto split: option.splits if_splits list.splits dest!: unquote_shorter skipWs_Cons_le V M)
  ultimately show ?case by blast
qed simp

lemmas jVal_shorter = json_shorter [THEN conjunct1, rule_format]
lemmas jElems_shorter = json_shorter [THEN conjunct2, THEN conjunct1, rule_format]
lemmas jMembers_shorter = json_shorter [THEN conjunct2, THEN conjunct2, rule_format]

subsection \<open>Enough fuel\<close>

lemma json_fuel:
  "(\<forall>m d s. 2 * length s < n \<longrightarrow> 2 * length s < m \<longrightarrow> jVal d n s = jVal d m s) \<and>
   (\<forall>m d s. 2 * length s + 1 < n \<longrightarrow> 2 * length s + 1 < m \<longrightarrow> jElems d n s = jElems d m s) \<and>
   (\<forall>m d s. 2 * length s < n \<longrightarrow> 2 * length s < m \<longrightarrow> jMembers d n s = jMembers d m s)"
proof (induction n)
  case (Suc n)
  then have V: "\<And>m d s. 2 * length s < n \<Longrightarrow> 2 * length s < m \<Longrightarrow> jVal d n s = jVal d m s"
    and E: "\<And>m d s. 2 * length s + 1 < n \<Longrightarrow> 2 * length s + 1 < m \<Longrightarrow> jElems d n s = jElems d m s"
    and M: "\<And>m d s. 2 * length s < n \<Longrightarrow> 2 * length s < m \<Longrightarrow> jMembers d n s = jMembers d m s"
    by blast+
  have "jVal d (Suc n) s = jVal d m s" if n: "2 * length s < Suc n" and m: "2 * length s < m" for m d s
  proof -
    obtain k where k: "m = Suc k" using m by (cases m) auto
    show ?thesis
    proof (cases "skipWs s")
      case Nil
      then show ?thesis by (simp add: k)
    next
      case (Cons c t)
      show ?thesis
      proof (cases "skipWs t")
        case Nil
        with Cons show ?thesis by (simp add: k)
      next
        case e: (Cons e u)
        have "Suc (length u) < length s"
          using skipWs_Cons_le [OF Cons] skipWs_Cons_le [OF e] by simp
        then have "jMembers (d - 1) n (e # u) = jMembers (d - 1) k (e # u)"
          and "jElems (d - 1) n (e # u) = jElems (d - 1) k (e # u)"
          using n m k by (auto intro!: M E)
        with Cons e show ?thesis by (simp add: k)
      qed
    qed
  qed
  moreover have "jElems d (Suc n) s = jElems d m s"
    if n: "2 * length s + 1 < Suc n" and m: "2 * length s + 1 < m" for m d s
  proof -
    obtain k where k: "m = Suc k" using m by (cases m) auto
    have v: "jVal d n s = jVal d k s" using n m k by (intro V) auto
    have "jElems d n u = jElems d k u" if "jVal d k s = Some (v, t)" "skipWs t = e # u" for v t e u
      using jVal_shorter [OF that(1)] skipWs_Cons_le [OF that(2)] n m k by (intro E) auto
    with v show ?thesis by (auto simp: k split: option.splits list.splits)
  qed
  moreover have "jMembers d (Suc n) s = jMembers d m s"
    if n: "2 * length s < Suc n" and m: "2 * length s < m" for m d s
  proof -
    obtain k where k: "m = Suc k" using m by (cases m) auto
    have v: "jVal d n w = jVal d k w"
      if "skipWs s = q # t" "unquote t = Some (key, u)" "skipWs u = col # w" for q t key u col w
      using skipWs_Cons_le [OF that(1)] unquote_shorter [OF that(2)] skipWs_Cons_le [OF that(3)] n m k
      by (intro V) auto
    have "jMembers d n y = jMembers d k y"
      if "skipWs s = q # t" "unquote t = Some (key, u)" "skipWs u = col # w" "jVal d k w = Some (x, z)"
        "skipWs z = e # y" for q t key u col w x z e y
      using skipWs_Cons_le [OF that(1)] unquote_shorter [OF that(2)] skipWs_Cons_le [OF that(3)]
        jVal_shorter [OF that(4)] skipWs_Cons_le [OF that(5)] n m k
      by (intro M) auto
    with v show ?thesis by (simp add: k split: option.splits list.splits)
  qed
  ultimately show ?case by blast
qed simp

lemma jVal_fuel: "2 * length s < n \<Longrightarrow> 2 * length s < m \<Longrightarrow> jVal d n s = jVal d m s"
  using json_fuel by blast

lemma jMembers_fuel: "2 * length s < n \<Longrightarrow> 2 * length s < m \<Longrightarrow> jMembers d n s = jMembers d m s"
  using json_fuel by blast

end
