(* ===== verification/SpoolFrame.thy ===== *)
theory SpoolFrame
  imports JsonDoc Digest
begin

text \<open>
  The framed entry of the spool log (\<open>spool/segment.go\<close>): \<open>EncodeFrame\<close>, \<open>DecodeFrames\<close>
  and the JSON header a frame carries.  \<open>frame_codec\<close> is the contract the log and its
  readers rely on: an encoded frame decodes to itself whatever follows it, and a torn frame
  at the end of the data is not an error.
\<close>

subsection \<open>Little-endian fields\<close>

fun leBytes :: "nat \<Rightarrow> int \<Rightarrow> bytes" where
  "leBytes 0 n = []"
| "leBytes (Suc k) n = char_of (n mod 256) # leBytes k (n div 256)"

fun leVal :: "bytes \<Rightarrow> int" where
  "leVal [] = 0"
| "leVal (b # bs) = of_char b + 256 * leVal bs"

lemma length_leBytes [simp]: "length (leBytes k n) = k"
  by (induction k arbitrary: n) auto

lemma leVal_leBytes [wire]: "0 \<le> n \<Longrightarrow> leVal (leBytes k n) = n mod 256 ^ k"
proof (induction k arbitrary: n)
  case (Suc k)
  have "leVal (leBytes (Suc k) n) = n mod 256 + 256 * (n div 256 mod 256 ^ k)"
    using Suc by simp
  also have "\<dots> = n mod 256 ^ Suc k"
    by (simp add: mod_mult2_eq' [of n 256 "256 ^ k"] algebra_simps zmod_zmult2_eq)
  finally show ?case .
qed simp

subsection \<open>The header\<close>

record frameHeader =
  hdrSignal :: string
  hdrEncoding :: string
  hdrID :: string

definition jsonField :: "string \<Rightarrow> string \<Rightarrow> bytes" where
  "jsonField k v = jsonString k @ CHR '':'' # jsonString v"

text \<open>\<open>json.Marshal\<close> of a \<open>frameHeader\<close>: the fields in declaration order.\<close>

definition marshalHeader :: "frameHeader \<Rightarrow> bytes" where
  "marshalHeader h =
     CHR ''{'' # jsonField ''signal'' (hdrSignal h)
       @ CHR '','' # jsonField ''encoding'' (hdrEncoding h)
       @ CHR '','' # jsonField ''id'' (hdrID h) @ ''}''"

definition emptyHeader :: frameHeader where
  "emptyHeader = \<lparr>hdrSignal = [], hdrEncoding = [], hdrID = []\<rparr>"

text \<open>
  One member of the document into the struct: the field of that name, else the field of that
  name up to case; a string sets it, \<open>null\<close> leaves it alone, any other value is the type
  error \<open>json.Unmarshal\<close> reports once the document is read.  Other members are ignored.
\<close>

definition fieldIs :: "string \<Rightarrow> string \<Rightarrow> bool" where
  "fieldIs k name \<longleftrightarrow> k = name \<or> equalFold k name"

definition setField :: "(frameHeader \<Rightarrow> string \<Rightarrow> frameHeader) \<Rightarrow> jval \<Rightarrow> frameHeader \<Rightarrow> frameHeader option" where
  "setField upd v h = (case v of JStr s \<Rightarrow> Some (upd h s) | JNull \<Rightarrow> Some h | _ \<Rightarrow> None)"

definition assignMember :: "frameHeader option \<Rightarrow> bytes \<times> jval \<Rightarrow> frameHeader option" where
  "assignMember acc m = (case acc of None \<Rightarrow> None | Some h \<Rightarrow>
     if fieldIs (fst m) ''signal'' then setField (\<lambda>h s. h\<lparr>hdrSignal := s\<rparr>) (snd m) h
     else if fieldIs (fst m) ''encoding'' then setField (\<lambda>h s. h\<lparr>hdrEncoding := s\<rparr>) (snd m) h
     else if fieldIs (fst m) ''id'' then setField (\<lambda>h s. h\<lparr>hdrID := s\<rparr>) (snd m) h
     else Some h)"

definition unmarshalHeader :: "bytes \<Rightarrow> frameHeader option" where
  "unmarshalHeader s = (case jParse s of
       Some (JObj ms) \<Rightarrow> foldl assignMember (Some emptyHeader) ms
     | Some JNull \<Rightarrow> Some emptyHeader
     | _ \<Rightarrow> None)"

definition utf8Header :: "frameHeader \<Rightarrow> bool" where
  "utf8Header h \<longleftrightarrow> utf8Valid (hdrSignal h) \<and> utf8Valid (hdrEncoding h) \<and> utf8Valid (hdrID h)"

lemma jsonString_Cons: "jsonString s = quoteCh # jsonEsc s @ [quoteCh]"
  by (simp add: jsonString_def)

lemma skipWs_stop [simp]: "ord c \<notin> {32, 9, 10, 13} \<Longrightarrow> skipWs (c # s) = c # s"
  by simp

lemma jVal_string:
  "utf8Valid s \<Longrightarrow> jVal d (Suc n) (jsonString s @ t) = Some (JStr s, t)"
  by (simp add: jsonString_Cons unquote_jsonEsc)

lemma jMembers_field:
  assumes "utf8Valid k" "utf8Valid v" "e = CHR '','' \<or> e = CHR ''}''"
  shows "jMembers d (Suc (Suc n)) (jsonField k v @ e # t) =
     (if e = CHR ''}'' then Some ([(k, JStr v)], t)
      else map_option (\<lambda>(ms, r). ((k, JStr v) # ms, r)) (jMembers d (Suc n) t))"
proof -
  have v: "jVal d (Suc n) (jsonString v @ e # t) = Some (JStr v, e # t)"
    using assms(2) by (rule jVal_string)
  have k: "jsonField k v @ e # t = quoteCh # jsonEsc k @ quoteCh # CHR '':'' # jsonString v @ e # t"
    by (simp add: jsonField_def jsonString_Cons)
  show ?thesis
    unfolding k using assms(1,3) v by (auto simp: unquote_jsonEsc simp del: jVal.simps jMembers.simps(1) split: option.splits)
qed

lemma jVal_header:
  assumes "utf8Header h"
  shows "jVal (Suc d) (Suc (Suc (Suc (Suc (Suc n))))) (marshalHeader h) =
    Some (JObj [(''signal'', JStr (hdrSignal h)), (''encoding'', JStr (hdrEncoding h)), (''id'', JStr (hdrID h))], [])"
proof -
  have u: "utf8Valid ''signal''" "utf8Valid ''encoding''" "utf8Valid ''id''"
    by (simp_all add: utf8Valid_ascii)
  have q: "\<exists>r. jsonField k v = quoteCh # r" for k v by (simp add: jsonField_def jsonString_Cons)
  obtain r where r: "jsonField ''signal'' (hdrSignal h) = quoteCh # r" using q by blast
  show ?thesis
    using assms u jMembers_field [of "''signal''" "hdrSignal h" "CHR '',''"]
      jMembers_field [of "''encoding''" "hdrEncoding h" "CHR '',''"]
      jMembers_field [of "''id''" "hdrID h" "CHR ''}''"]
    by (simp add: marshalHeader_def utf8Header_def r del: jMembers.simps)
qed

text \<open>Reading back the header a frame was written with.\<close>

lemma unmarshal_marshal [wire]: "utf8Header h \<Longrightarrow> unmarshalHeader (marshalHeader h) = Some h"
proof -
  assume u: "utf8Header h"
  let ?s = "marshalHeader h"
  let ?n = "Suc (Suc (Suc (Suc (Suc (2 * length ?s)))))"
  have "jVal maxNesting (Suc (2 * length ?s)) ?s = jVal maxNesting ?n ?s"
    by (rule jVal_fuel) simp_all
  moreover have "jVal maxNesting ?n ?s =
      Some (JObj [(''signal'', JStr (hdrSignal h)), (''encoding'', JStr (hdrEncoding h)), (''id'', JStr (hdrID h))], [])"
    using jVal_header [OF u, of 9999] by (simp add: maxNesting_def del: jVal.simps)
  ultimately have p: "jParse ?s =
      Some (JObj [(''signal'', JStr (hdrSignal h)), (''encoding'', JStr (hdrEncoding h)), (''id'', JStr (hdrID h))])"
    by (simp add: jParse_def del: jVal.simps)
  show ?thesis
    unfolding unmarshalHeader_def p
    by (simp add: assignMember_def fieldIs_def setField_def emptyHeader_def equalFold_ascii asciiLower_def charOf_eq)
qed

subsection \<open>Encoding a frame\<close>

definition framePrefixBytes :: nat where
  "framePrefixBytes = 14"

definition maxFramePayload :: nat where
  "maxFramePayload = 8 * 1024 * 1024"

definition frameMagic :: bytes where
  "frameMagic = ''CHRN''"

datatype frameError = UnnamedFrame | PayloadTooBig nat | HeaderTooBig nat

definition frameBytes :: "bytes \<Rightarrow> bytes \<Rightarrow> bytes" where
  "frameBytes header payload =
     (let body = header @ payload in
        frameMagic
        @ leBytes 2 (int (length header))
        @ leBytes 4 (int (length payload))
        @ leBytes 4 (uint (checksumIEEE body))
        @ body)"

definition encodeFrame :: "string \<Rightarrow> string \<Rightarrow> string \<Rightarrow> bytes \<Rightarrow> frameError + bytes" where
  "encodeFrame signal encoding ident payload =
     (if signal = [] \<or> encoding = [] then Inl UnnamedFrame
      else if length payload > maxFramePayload then Inl (PayloadTooBig (length payload))
      else let header = marshalHeader \<lparr>hdrSignal = signal, hdrEncoding = encoding, hdrID = ident\<rparr>
        in if length header > 65535 then Inl (HeaderTooBig (length header))
           else Inr (frameBytes header payload))"

subsection \<open>Decoding a segment\<close>

record frame =
  frSignal :: string
  frEncoding :: string
  frID :: string
  frPayload :: bytes

datatype decodeError = BoundaryLost nat | ChecksumMismatch nat | BadHeader nat

definition frameHeaderLen :: "bytes \<Rightarrow> nat" where
  "frameHeaderLen data = nat (leVal (take 2 (drop 4 data)))"

definition framePayloadLen :: "bytes \<Rightarrow> nat" where
  "framePayloadLen data = nat (leVal (take 4 (drop 6 data)))"

definition frameChecksum :: "bytes \<Rightarrow> u32" where
  "frameChecksum data = word_of_int (leVal (take 4 (drop 10 data)))"

definition frameTotal :: "bytes \<Rightarrow> nat" where
  "frameTotal data = framePrefixBytes + frameHeaderLen data + framePayloadLen data"

text \<open>
  The loop of \<open>DecodeFrames\<close> from byte \<open>offset\<close>: \<open>data\<close> is what is left of the segment.
  The frames decoded before an error are returned with it.
\<close>

function decodeFrom :: "nat \<Rightarrow> bytes \<Rightarrow> frame list \<times> decodeError option" where
  "decodeFrom offset data =
     (if length data < framePrefixBytes then ([], None)
      else if take 4 data \<noteq> frameMagic then ([], Some (BoundaryLost offset))
      else if frameTotal data > length data then ([], None)
      else let body = take (frameHeaderLen data + framePayloadLen data) (drop framePrefixBytes data)
        in if checksumIEEE body \<noteq> frameChecksum data then ([], Some (ChecksumMismatch offset))
           else case unmarshalHeader (take (frameHeaderLen data) body) of
               None \<Rightarrow> ([], Some (BadHeader offset))
             | Some h \<Rightarrow>
                 (case decodeFrom (offset + frameTotal data) (drop (frameTotal data) data) of
                    (frames, err) \<Rightarrow>
                      (\<lparr>frSignal = hdrSignal h, frEncoding = hdrEncoding h, frID = hdrID h,
                        frPayload = drop (frameHeaderLen data) body\<rparr> # frames, err)))"
  by pat_completeness auto
termination
  by (relation "measure (\<lambda>(offset, data). length data)") (auto simp: frameTotal_def framePrefixBytes_def)

declare decodeFrom.simps [simp del]

definition decodeFrames :: "bytes \<Rightarrow> frame list \<times> decodeError option" where
  "decodeFrames data = decodeFrom 0 data"

subsection \<open>The contract of a frame codec\<close>

text \<open>
  What a log needs from its codec: whatever follows an encoded entry, the entry comes back;
  a proper prefix of an entry at the end of the data is silently left out.
\<close>

locale frame_codec =
  fixes enc :: "'f \<Rightarrow> bytes"
    and ok :: "'f \<Rightarrow> bool"
    and dec :: "nat \<Rightarrow> bytes \<Rightarrow> 'f list \<times> 'e option"
  assumes dec_Nil: "dec off [] = ([], None)"
    and dec_enc: "ok f \<Longrightarrow>
      dec off (enc f @ rest) = (f # fst (dec (off + length (enc f)) rest), snd (dec (off + length (enc f)) rest))"
    and dec_torn: "ok f \<Longrightarrow> k < length (enc f) \<Longrightarrow> dec off (take k (enc f)) = ([], None)"
begin

lemma dec_entries:
  "(\<forall>f \<in> set fs. ok f) \<Longrightarrow>
   dec off (concat (map enc fs) @ rest) =
     (fs @ fst (dec (off + length (concat (map enc fs))) rest),
      snd (dec (off + length (concat (map enc fs))) rest))"
proof (induction fs arbitrary: off)
  case (Cons f fs)
  then show ?case by (simp add: dec_enc add.assoc)
qed simp

lemma dec_log: "(\<forall>f \<in> set fs. ok f) \<Longrightarrow> dec off (concat (map enc fs)) = (fs, None)"
  using dec_entries [of fs off "[]"] by (simp add: dec_Nil)

lemma dec_torn_log:
  "(\<forall>f \<in> set fs. ok f) \<Longrightarrow> ok g \<Longrightarrow> k < length (enc g) \<Longrightarrow>
   dec off (concat (map enc fs) @ take k (enc g)) = (fs, None)"
  by (simp add: dec_entries dec_torn)

text \<open>A log determines its entries: no two lists of entries render to the same bytes.\<close>

lemma log_inject:
  "(\<forall>f \<in> set fs. ok f) \<Longrightarrow> (\<forall>g \<in> set gs. ok g) \<Longrightarrow>
   concat (map enc fs) = concat (map enc gs) \<longleftrightarrow> fs = gs"
  by (metis dec_log fst_conv)

end

subsection \<open>The Go codec satisfies the contract\<close>

definition frameHdr :: "frame \<Rightarrow> frameHeader" where
  "frameHdr f = \<lparr>hdrSignal = frSignal f, hdrEncoding = frEncoding f, hdrID = frID f\<rparr>"

definition encodeEntry :: "frame \<Rightarrow> bytes" where
  "encodeEntry f = frameBytes (marshalHeader (frameHdr f)) (frPayload f)"

definition frameOk :: "frame \<Rightarrow> bool" where
  "frameOk f \<longleftrightarrow> utf8Header (frameHdr f) \<and> frSignal f \<noteq> [] \<and> frEncoding f \<noteq> []
     \<and> length (frPayload f) \<le> maxFramePayload \<and> length (marshalHeader (frameHdr f)) \<le> 65535"

lemma encodeFrame_ok_iff:
  "encodeFrame (frSignal f) (frEncoding f) (frID f) (frPayload f) = Inr (encodeEntry f) \<longleftrightarrow>
   frSignal f \<noteq> [] \<and> frEncoding f \<noteq> [] \<and> length (frPayload f) \<le> maxFramePayload
     \<and> length (marshalHeader (frameHdr f)) \<le> 65535"
  by (auto simp: encodeFrame_def encodeEntry_def frameHdr_def Let_def)

lemma length_frameBytes: "length (frameBytes h p) = framePrefixBytes + length h + length p"
  by (simp add: frameBytes_def frameMagic_def framePrefixBytes_def Let_def)

lemma frame_fields:
  assumes data: "data = frameBytes h p @ rest"
    and hlen: "length h \<le> 65535" and plen: "length p \<le> maxFramePayload"
  shows "take 4 data = frameMagic"
  "frameHeaderLen data = length h"
  "framePayloadLen data = length p"
  "frameChecksum data = checksumIEEE (h @ p)"
  "drop framePrefixBytes data = h @ p @ rest"
proof -
  have split: "data = frameMagic @ leBytes 2 (int (length h)) @ leBytes 4 (int (length p))
      @ leBytes 4 (uint (checksumIEEE (h @ p))) @ h @ p @ rest"
    by (simp add: data frameBytes_def Let_def)
  have m: "length frameMagic = 4" by (simp add: frameMagic_def)
  show "take 4 data = frameMagic" by (simp add: split m)
  have "leVal (leBytes 2 (int (length h))) = int (length h)"
    using hlen by (simp add: leVal_leBytes)
  then show "frameHeaderLen data = length h" by (simp add: split frameHeaderLen_def m)
  have d6: "drop 6 data = leBytes 4 (int (length p)) @ leBytes 4 (uint (checksumIEEE (h @ p))) @ h @ p @ rest"
    using m by (simp add: split drop_append)
  have "leVal (leBytes 4 (int (length p))) = int (length p)"
    using plen by (simp add: leVal_leBytes maxFramePayload_def)
  then show "framePayloadLen data = length p" by (simp add: framePayloadLen_def d6)
  have d10: "drop 10 data = leBytes 4 (uint (checksumIEEE (h @ p))) @ h @ p @ rest"
    using m by (simp add: split drop_append)
  have "uint (checksumIEEE (h @ p)) < 2 ^ 32" using uint_lt2p [of "checksumIEEE (h @ p)"] by simp
  then have "leVal (leBytes 4 (uint (checksumIEEE (h @ p)))) = uint (checksumIEEE (h @ p))"
    by (simp add: leVal_leBytes)
  then show "frameChecksum data = checksumIEEE (h @ p)" by (simp add: frameChecksum_def d10)
  show "drop framePrefixBytes data = h @ p @ rest"
    using m by (simp add: split framePrefixBytes_def drop_append)
qed

lemma decodeFrom_entry:
  assumes "frameOk f"
  shows "decodeFrom off (encodeEntry f @ rest) =
     (f # fst (decodeFrom (off + length (encodeEntry f)) rest), snd (decodeFrom (off + length (encodeEntry f)) rest))"
proof -
  define h p where "h = marshalHeader (frameHdr f)" and "p = frPayload f"
  have hl: "length h \<le> 65535" and pl: "length p \<le> maxFramePayload"
    and u: "unmarshalHeader h = Some (frameHdr f)"
    using assms by (simp_all add: frameOk_def h_def p_def unmarshal_marshal)
  define data where "data = frameBytes h p @ rest"
  note ff = frame_fields [OF data_def hl pl]
  have len: "length data = framePrefixBytes + length h + length p + length rest"
    by (simp add: length_frameBytes data_def)
  have tot: "frameTotal data = framePrefixBytes + length h + length p"
    by (simp add: frameTotal_def ff)
  have d: "drop (framePrefixBytes + length h + length p) data = rest"
    by (simp add: data_def length_frameBytes)
  have "decodeFrom off data = (\<lparr>frSignal = frSignal f, frEncoding = frEncoding f, frID = frID f, frPayload = p\<rparr> #
      fst (decodeFrom (off + (framePrefixBytes + length h + length p)) rest),
      snd (decodeFrom (off + (framePrefixBytes + length h + length p)) rest))"
    by (subst decodeFrom.simps) (simp add: ff len tot u d frameHdr_def case_prod_unfold)
  then show ?thesis
    unfolding encodeEntry_def h_def [symmetric] p_def [symmetric] data_def [symmetric] length_frameBytes
    by (simp add: p_def)
qed

lemma decodeFrom_torn:
  assumes "frameOk f" "k < length (encodeEntry f)"
  shows "decodeFrom off (take k (encodeEntry f)) = ([], None)"
proof (cases "k < framePrefixBytes")
  case True
  then have "length (take k (encodeEntry f)) < framePrefixBytes" by simp
  then show ?thesis by (subst decodeFrom.simps) (simp del: length_take)
next
  case False
  let ?h = "marshalHeader (frameHdr f)" and ?p = "frPayload f"
  have hl: "length ?h \<le> 65535" and pl: "length ?p \<le> maxFramePayload"
    using assms by (simp_all add: frameOk_def)
  note ff = frame_fields [OF refl hl pl, of "[]"]
  let ?e = "encodeEntry f"
  have m: "min k 14 = 14" using False by (simp add: framePrefixBytes_def)
  have t: "take n (drop j (take k ?e)) = take n (drop j ?e)" if "j + n \<le> 14" for n j
    using that False by (simp add: framePrefixBytes_def drop_take min_def)
  have "take 4 (take k ?e) = frameMagic"
    using t [of 0 4] ff(1) by (simp add: encodeEntry_def)
  moreover have "frameTotal (take k ?e) = length ?e"
    using t [of 4 2] t [of 6 4] ff(2,3)
    by (simp add: frameTotal_def frameHeaderLen_def framePayloadLen_def encodeEntry_def length_frameBytes)
  ultimately show ?thesis using assms(2) False by (subst decodeFrom.simps) simp
qed

lemma decodeFrom_Nil: "decodeFrom off [] = ([], None)"
  by (subst decodeFrom.simps) (simp add: framePrefixBytes_def)

interpretation codec: frame_codec encodeEntry frameOk decodeFrom
  by unfold_locales (rule decodeFrom_Nil, erule decodeFrom_entry, erule (1) decodeFrom_torn)

subsection \<open>Results\<close>

lemma decodeFrom_corrupt:
  assumes ok: "frameOk g" and i: "framePrefixBytes \<le> i" "i < length (encodeEntry g)"
    and c: "c \<noteq> encodeEntry g ! i"
  shows "decodeFrom off ((encodeEntry g)[i := c] @ rest) = ([], Some (ChecksumMismatch off))"
proof -
  define h p where "h = marshalHeader (frameHdr g)" and "p = frPayload g"
  have hl: "length h \<le> 65535" and pl: "length p \<le> maxFramePayload"
    using ok by (simp_all add: frameOk_def h_def p_def)
  define good where "good = frameBytes h p @ rest"
  define data where "data = (encodeEntry g)[i := c] @ rest"
  have e: "encodeEntry g = frameBytes h p" by (simp add: encodeEntry_def h_def p_def)
  note ff = frame_fields [OF good_def hl pl]
  have len: "length data = framePrefixBytes + length h + length p + length rest"
    by (simp add: data_def e length_frameBytes)
  have upd: "data = good[i := c]"
    using i by (simp add: data_def good_def e list_update_append)
  have same: "take n (drop j data) = take n (drop j good)" if "j + n \<le> 14" for j n
    using that i(1) by (simp add: upd framePrefixBytes_def drop_update_swap take_update_cancel list_update_beyond)
  have hd: "frameHeaderLen data = length h" "framePayloadLen data = length p"
      "frameChecksum data = checksumIEEE (h @ p)" "take 4 data = frameMagic"
    using same [of 4 2] same [of 6 4] same [of 10 4] same [of 0 4] ff
    by (simp_all add: frameHeaderLen_def framePayloadLen_def frameChecksum_def)
  define j where "j = i - framePrefixBytes"
  have jlt: "j < length (h @ p)" using i by (simp add: j_def e length_frameBytes)
  have "drop framePrefixBytes data = ((h @ p) @ rest)[j := c]"
    using i(1) by (simp add: upd drop_update_swap j_def ff)
  also have "\<dots> = (h @ p)[j := c] @ rest"
    using jlt by (simp only: list_update_append1)
  finally have body: "take (length h + length p) (drop framePrefixBytes data) = (h @ p)[j := c]"
    by (simp del: list_update_append)
  have "drop framePrefixBytes (frameBytes h p) = h @ p"
    using frame_fields(5) [OF refl hl pl, of "[]"] by simp
  then have "(h @ p) ! j = encodeEntry g ! i"
    using i nth_drop [of framePrefixBytes "frameBytes h p" j] by (simp add: e j_def)
  then have "c \<noteq> (h @ p) ! j" using c by simp
  then have "checksumIEEE ((h @ p)[j := c]) \<noteq> checksumIEEE (h @ p)"
    using checksum_single_byte [of "take j (h @ p)" c "drop (Suc j) (h @ p)" "(h @ p) ! j"] jlt
    by (metis id_take_nth_drop upd_conv_take_nth_drop)
  then have "decodeFrom off data = ([], Some (ChecksumMismatch off))"
    by (subst decodeFrom.simps) (simp add: hd body len frameTotal_def)
  then show ?thesis by (simp add: data_def)
qed

text \<open>
  C3: whatever was appended comes back.  A segment holding complete frames and, at its end, a
  frame cut short by an interrupted writer decodes to exactly the complete frames, in order,
  without an error.
\<close>

theorem segment_decodes_to_appended:
  "(\<forall>f \<in> set fs. frameOk f) \<Longrightarrow> frameOk g \<Longrightarrow> k < length (encodeEntry g) \<Longrightarrow>
   decodeFrames (concat (map encodeEntry fs) @ take k (encodeEntry g)) = (fs, None)"
  by (simp add: decodeFrames_def codec.dec_torn_log)

text \<open>
  C26: \<open>DecodeFrames\<close> returns a frame only when its bytes are intact: one changed byte in the header or
  payload of a frame is reported as a checksum mismatch at the offset of that frame, after
  the frames before it, whatever follows.
\<close>

theorem corrupted_frame_detected:
  "(\<forall>f \<in> set fs. frameOk f) \<Longrightarrow> frameOk g \<Longrightarrow>
   framePrefixBytes \<le> i \<Longrightarrow> i < length (encodeEntry g) \<Longrightarrow> c \<noteq> encodeEntry g ! i \<Longrightarrow>
   decodeFrames (concat (map encodeEntry fs) @ (encodeEntry g)[i := c] @ rest)
     = (fs, Some (ChecksumMismatch (length (concat (map encodeEntry fs)))))"
  by (simp add: decodeFrames_def codec.dec_entries decodeFrom_corrupt)

definition sampleFrame :: frame where
  "sampleFrame = \<lparr>frSignal = ''trace'', frEncoding = ''json'', frID = ''abc123'', frPayload = ''{}''\<rparr>"

lemma sampleFrame_header:
  "marshalHeader (frameHdr sampleFrame) = ''{\"signal\":\"trace\",\"encoding\":\"json\",\"id\":\"abc123\"}''"
  by code_simp

lemma sampleFrame_ok: "frameOk sampleFrame"
proof -
  have "utf8Header (frameHdr sampleFrame)" by code_simp
  then show ?thesis
    by (simp add: frameOk_def sampleFrame_header) (simp add: sampleFrame_def maxFramePayload_def)
qed

lemma sampleFrame_length: "length (encodeEntry sampleFrame) = 66"
  by (simp add: encodeEntry_def length_frameBytes sampleFrame_header)
    (simp add: sampleFrame_def framePrefixBytes_def)

lemma sampleFrame_byte: "CHR ''!'' \<noteq> encodeEntry sampleFrame ! 64"
proof -
  have "frPayload sampleFrame = ''{}''" by (simp add: sampleFrame_def)
  then have "encodeEntry sampleFrame ! 64 = CHR ''{''"
    by (simp add: encodeEntry_def sampleFrame_header frameBytes_def Let_def nth_append frameMagic_def)
  then show ?thesis by simp
qed

text \<open>The vector both language's encoders are tested against.\<close>

lemma golden_frame:
  "map_sum id hexEncode (encodeFrame ''trace'' ''json'' ''abc123'' ''{}'') = Inr
     (''4348524e3200020000001980212a7b227369676e616c223a227472616365222c'' @
      ''22656e636f64696e67223a226a736f6e222c226964223a22616263313233227d7b7d'')"
proof -
  have crc: "checksumIEEE (''{\"signal\":\"trace\",\"encoding\":\"json\",\"id\":\"abc123\"}'' @ ''{}'') = 0x2a218019"
    by (simp add: checksumIEEE_def crcByte_def crcBit_def)
  have "frameBytes ''{\"signal\":\"trace\",\"encoding\":\"json\",\"id\":\"abc123\"}'' ''{}'' =
      frameMagic @ leBytes 2 50 @ leBytes 4 2 @ leBytes 4 0x2a218019 @
      ''{\"signal\":\"trace\",\"encoding\":\"json\",\"id\":\"abc123\"}'' @ ''{}''"
    using crc by (simp add: frameBytes_def Let_def)
  moreover have "hexEncode (frameMagic @ leBytes 2 50 @ leBytes 4 2 @ leBytes 4 0x2a218019 @
      ''{\"signal\":\"trace\",\"encoding\":\"json\",\"id\":\"abc123\"}'' @ ''{}'') =
     ''4348524e3200020000001980212a7b227369676e616c223a227472616365222c'' @
      ''22656e636f64696e67223a226a736f6e222c226964223a22616263313233227d7b7d''"
    by code_simp
  moreover have "encodeFrame ''trace'' ''json'' ''abc123'' ''{}'' = Inr (encodeEntry sampleFrame)"
    using encodeFrame_ok_iff [of sampleFrame] sampleFrame_ok
    by (simp add: frameOk_def sampleFrame_def)
  ultimately show ?thesis
    by (simp add: encodeEntry_def sampleFrame_header) (simp add: sampleFrame_def)
qed

theorem segment_decodes_to_appended_witness:
  "decodeFrames (concat (map encodeEntry [sampleFrame]) @ take 20 (encodeEntry sampleFrame)) = ([sampleFrame], None)"
  using segment_decodes_to_appended [of "[sampleFrame]" sampleFrame 20] sampleFrame_ok sampleFrame_length
  by simp

theorem corrupted_frame_detected_witness:
  "decodeFrames (concat (map encodeEntry [sampleFrame]) @ (encodeEntry sampleFrame)[64 := CHR ''!''] @ ''tail'')
     = ([sampleFrame], Some (ChecksumMismatch (length (concat (map encodeEntry [sampleFrame])))))"
  using corrupted_frame_detected [of "[sampleFrame]" sampleFrame 64 "CHR ''!''" "''tail''"]
    sampleFrame_ok sampleFrame_length sampleFrame_byte
  by (simp add: framePrefixBytes_def)

end
