(* ===== verification/SpoolLog.thy ===== *)
theory SpoolLog
  imports SpoolFrame "HOL-Library.Multiset"
begin

text \<open>
  The segmented spool log (\<open>spool/segment.go\<close>, \<open>spool/spool.go\<close>): a directory of segment
  files, the newest of which takes the appends.  \<open>represents\<close> is the abstraction to a list of
  generations with their frames, and the operations are shown to implement the operations of
  that list.

  The directory is a map from file names to contents.  What the operating system may refuse is
  in \<open>osFaults\<close>; the directory is not changed by others during a call (the interleavings of
  several writers are in \<open>SpoolRace\<close>).
\<close>

subsection \<open>Names of segments\<close>

type_synonym dir = "(string \<times> bytes) list"

definition segmentMaxBytes :: nat where
  "segmentMaxBytes = 64 * 1024 * 1024"

definition maxSegments :: nat where
  "maxSegments = 4"

definition segmentPrefix :: string where
  "segmentPrefix = ''segment-''"

definition segmentExtension :: string where
  "segmentExtension = ''.spool''"

definition segmentName :: "nat \<Rightarrow> string" where
  "segmentName g = segmentPrefix @ pad6 g @ segmentExtension"

definition generationOf :: "string \<Rightarrow> nat option" where
  "generationOf name =
     (if \<not> hasPrefix name segmentPrefix \<or> \<not> hasSuffix name segmentExtension then None
      else parseUint64 (trimSuffix (trimPrefix name segmentPrefix) segmentExtension))"

definition generations :: "dir \<Rightarrow> nat list" where
  "generations d = sort (List.map_filter generationOf (map fst d))"

lemma generationOf_segmentName [simp]:
  "g < 18446744073709551616 \<Longrightarrow> generationOf (segmentName g) = Some g"
proof -
  assume g: "g < 18446744073709551616"
  have "hasSuffix (segmentName g) segmentExtension"
    unfolding segmentName_def append_assoc [symmetric] by (rule hasSuffix_append)
  then show ?thesis
    using g by (simp add: generationOf_def segmentName_def parseUint64_pad6)
qed

lemma generationOf_bound: "generationOf name = Some g \<Longrightarrow> g < 18446744073709551616"
  by (auto simp: generationOf_def parseUint64_def split: if_splits option.splits)

lemma segmentName_inject:
  "g < 18446744073709551616 \<Longrightarrow> h < 18446744073709551616 \<Longrightarrow> segmentName g = segmentName h \<longleftrightarrow> g = h"
  by (metis generationOf_segmentName option.inject)

subsection \<open>Opening, creating and retiring segments\<close>

record osFaults =
  mkdirFails :: bool
  createFails :: bool
  openFails :: bool
  statFails :: bool
  removeFails :: "string \<Rightarrow> bool"
  writeResult :: "bytes \<Rightarrow> nat \<times> bool"

record spoolState =
  spDir :: dir
  droppedFrames :: u64
  droppedBytes :: u64

datatype createResult = CreateExists | CreateError | Created dir

definition createSegment :: "osFaults \<Rightarrow> dir \<Rightarrow> nat \<Rightarrow> createResult" where
  "createSegment os d g =
     (if createFails os then CreateError
      else if map_of d (segmentName g) \<noteq> None then CreateExists
      else Created (d @ [(segmentName g, [])]))"

datatype openResult = OpenRescan | OpenError | Opened nat dir

text \<open>One turn of the loop of \<open>openActive\<close>.\<close>

definition openActiveTurn :: "osFaults \<Rightarrow> dir \<Rightarrow> openResult" where
  "openActiveTurn os d =
     (if generations d = [] then
        (case createSegment os d 1 of
           CreateExists \<Rightarrow> OpenRescan
         | CreateError \<Rightarrow> OpenError
         | Created d' \<Rightarrow> Opened 1 d')
      else
        (let g = last (generations d)
         in if map_of d (segmentName g) = None then OpenRescan
            else if openFails os then OpenError
            else Opened g d))"

text \<open>The loop, with fuel: \<open>OpenRescan\<close> is a loop still running when the fuel is used up.\<close>

fun openActive :: "nat \<Rightarrow> osFaults \<Rightarrow> dir \<Rightarrow> openResult" where
  "openActive 0 os d = OpenRescan"
| "openActive (Suc n) os d =
     (case openActiveTurn os d of OpenRescan \<Rightarrow> openActive n os d | r \<Rightarrow> r)"

fun dropSegments :: "osFaults \<Rightarrow> nat list \<Rightarrow> spoolState \<Rightarrow> spoolState" where
  "dropSegments os [] s = s"
| "dropSegments os (g # gs) s =
     (let path = segmentName g;
          size = (case map_of (spDir s) path of None \<Rightarrow> 0 | Some b \<Rightarrow> length b)
      in dropSegments os gs
           (if removeFails os path \<or> map_of (spDir s) path = None then s
            else s\<lparr>spDir := AList.delete path (spDir s),
                   droppedFrames := droppedFrames s + 1,
                   droppedBytes := droppedBytes s + of_nat size\<rparr>))"

definition enforceSegmentBudget :: "osFaults \<Rightarrow> spoolState \<Rightarrow> spoolState" where
  "enforceSegmentBudget os s =
     (let gs = generations (spDir s)
      in if length gs \<le> maxSegments then s
         else dropSegments os (take (length gs - maxSegments) gs) s)"

datatype rotateResult = RotateRescan | RotateError | Rotated nat

definition rotate :: "nat \<Rightarrow> osFaults \<Rightarrow> spoolState \<Rightarrow> nat \<Rightarrow> rotateResult \<times> spoolState" where
  "rotate n os s active =
     (let next = (active + 1) mod 18446744073709551616
      in case createSegment os (spDir s) next of
           CreateExists \<Rightarrow>
             (case openActive n os (spDir s) of
                OpenRescan \<Rightarrow> (RotateRescan, s)
              | OpenError \<Rightarrow> (RotateError, s)
              | Opened g d \<Rightarrow> (Rotated g, s\<lparr>spDir := d\<rparr>))
         | CreateError \<Rightarrow> (RotateError, s)
         | Created d \<Rightarrow> (Rotated next, enforceSegmentBudget os (s\<lparr>spDir := d\<rparr>)))"

subsection \<open>Append\<close>

datatype appendError =
    EncodeFailed frameError | EmptyDirectory | MkdirFailed | OpenFailed | RotateFailed
  | WriteFailed | ShortAppend nat nat

text \<open>
  A write on the open descriptor: the bytes the kernel took are appended to the file, if the
  name is still there (an unlinked file is written in vain).
\<close>

definition appendBytes :: "dir \<Rightarrow> string \<Rightarrow> bytes \<Rightarrow> dir" where
  "appendBytes d name bs = (case map_of d name of None \<Rightarrow> d | Some old \<Rightarrow> AList.update name (old @ bs) d)"

definition countDrop :: "nat \<Rightarrow> spoolState \<Rightarrow> spoolState" where
  "countDrop n s = s\<lparr>droppedFrames := droppedFrames s + 1, droppedBytes := droppedBytes s + of_nat n\<rparr>"

definition writeFrame :: "osFaults \<Rightarrow> spoolState \<Rightarrow> nat \<Rightarrow> bytes \<Rightarrow> appendError option \<times> spoolState" where
  "writeFrame os s g frame =
     (case writeResult os frame of (written, failed) \<Rightarrow>
        (let s' = s\<lparr>spDir := appendBytes (spDir s) (segmentName g) (take written frame)\<rparr>
         in if failed then (Some WriteFailed, s')
            else if written \<noteq> length frame
            then (Some (ShortAppend written (length frame)), countDrop (length frame) s')
            else (None, s')))"

text \<open>
  \<open>Append\<close>.  The result is the error, \<open>None\<close> for success; the outer \<open>None\<close> is a call that has
  not returned within the fuel of its rescans.
\<close>

definition appendDoc ::
  "nat \<Rightarrow> osFaults \<Rightarrow> spoolState \<Rightarrow> string \<Rightarrow> string \<Rightarrow> string \<Rightarrow> string \<Rightarrow> bytes \<Rightarrow>
   (appendError option \<times> spoolState) option" where
  "appendDoc n os s dirName signal encoding ident payload =
     (case encodeFrame signal encoding ident payload of
        Inl e \<Rightarrow> Some (Some (EncodeFailed e), countDrop (length payload) s)
      | Inr frame \<Rightarrow>
          if dirName = [] then Some (Some EmptyDirectory, s)
          else if mkdirFails os then Some (Some MkdirFailed, s)
          else case openActive n os (spDir s) of
              OpenRescan \<Rightarrow> None
            | OpenError \<Rightarrow> Some (Some OpenFailed, s)
            | Opened g d \<Rightarrow>
                (let s1 = s\<lparr>spDir := d\<rparr>;
                     size = (case map_of d (segmentName g) of None \<Rightarrow> 0 | Some b \<Rightarrow> length b)
                 in if \<not> statFails os \<and> size \<ge> segmentMaxBytes
                    then (case rotate n os s1 g of
                        (RotateRescan, s2) \<Rightarrow> None
                      | (RotateError, s2) \<Rightarrow> Some (Some RotateFailed, s2)
                      | (Rotated g', s2) \<Rightarrow> Some (writeFrame os s2 g' frame))
                    else Some (writeFrame os s1 g frame)))"

subsection \<open>Read\<close>

datatype readError = FileError nat | DecodeFailed nat decodeError

fun readSegments :: "(nat \<Rightarrow> bool) \<Rightarrow> dir \<Rightarrow> nat list \<Rightarrow> frame list \<times> readError option" where
  "readSegments unreadable d [] = ([], None)"
| "readSegments unreadable d (g # gs) =
     (case (if unreadable g then None else map_of d (segmentName g)) of
        None \<Rightarrow> ([], Some (FileError g))
      | Some data \<Rightarrow>
          (case decodeFrames data of
             (frames, Some e) \<Rightarrow> (frames, Some (DecodeFailed g e))
           | (frames, None) \<Rightarrow>
               (case readSegments unreadable d gs of (later, err) \<Rightarrow> (frames @ later, err))))"

definition readLog :: "(nat \<Rightarrow> bool) \<Rightarrow> dir \<Rightarrow> frame list \<times> readError option" where
  "readLog unreadable d = readSegments unreadable d (generations d)"

subsection \<open>The abstract log\<close>

type_synonym segLog = "(nat \<times> frame list) list"

abbreviation segBytes :: "frame list \<Rightarrow> bytes" where
  "segBytes fs \<equiv> concat (map encodeEntry fs)"

definition canonicalNames :: "dir \<Rightarrow> bool" where
  "canonicalNames d \<longleftrightarrow> (\<forall>n \<in> fst ` set d. \<forall>g. generationOf n = Some g \<longrightarrow> n = segmentName g)"

definition represents :: "dir \<Rightarrow> segLog \<Rightarrow> bool" where
  "represents d L \<longleftrightarrow> wf_map d \<and> canonicalNames d \<and> generations d = map fst L \<and> distinct (map fst L)
     \<and> (\<forall>(g, fs) \<in> set L. map_of d (segmentName g) = Some (segBytes fs) \<and> (\<forall>f \<in> set fs. frameOk f))"

definition logFrames :: "segLog \<Rightarrow> frame list" where
  "logFrames L = concat (map snd L)"

definition trimLog :: "segLog \<Rightarrow> segLog" where
  "trimLog L = drop (length L - maxSegments) L"

definition absAppend :: "frame \<Rightarrow> segLog \<Rightarrow> segLog" where
  "absAppend f L =
     (if L = [] then [(1, [f])]
      else case last L of (g, fs) \<Rightarrow>
        if length (segBytes fs) \<ge> segmentMaxBytes then trimLog (L @ [(g + 1, [f])])
        else butlast L @ [(g, fs @ [f])])"

lemma map_filter_append_one: "List.map_filter f (xs @ [x]) = List.map_filter f xs @ (case f x of None \<Rightarrow> [] | Some y \<Rightarrow> [y])"
  by (simp add: List.map_filter_def split: option.splits)

lemma set_generations: "set (generations d) = {g. \<exists>n \<in> fst ` set d. generationOf n = Some g}"
  by (force simp: generations_def List.map_filter_def)

lemma sorted_generations [simp]: "sorted (generations d)"
  by (simp add: generations_def)

lemma generations_bound: "g \<in> set (generations d) \<Longrightarrow> g < 18446744073709551616"
  by (auto simp: set_generations dest: generationOf_bound)

lemma sort_append_greatest: "(\<forall>x \<in> set xs. x \<le> y) \<Longrightarrow> sort (xs @ [y]) = sort xs @ [y :: nat]"
  by (rule properties_for_sort) (auto simp: sorted_append)

lemma generations_create:
  assumes "\<forall>x \<in> set (generations d). x \<le> g" "g < 18446744073709551616"
  shows "generations (d @ [(segmentName g, bs)]) = generations d @ [g]"
  using assms by (simp add: generations_def map_filter_append_one sort_append_greatest)

lemma generations_update:
  "k \<in> fst ` set d \<Longrightarrow> generations (AList.update k v d) = generations d"
  by (simp add: generations_def update_keys)

lemma map_fst_delete: "map fst (AList.delete k d) = filter (\<lambda>n. n \<noteq> k) (map fst d)"
  by (induction d) auto

lemma generations_delete:
  assumes "canonicalNames d" "g < 18446744073709551616"
  shows "generations (AList.delete (segmentName g) d) = filter (\<lambda>x. x \<noteq> g) (generations d)"
proof -
  have "List.map_filter generationOf (filter (\<lambda>n. n \<noteq> segmentName g) ns)
      = filter (\<lambda>x. x \<noteq> g) (List.map_filter generationOf ns)"
    if "\<forall>n \<in> set ns. \<forall>g. generationOf n = Some g \<longrightarrow> n = segmentName g" for ns
    using that
  proof (induction ns)
    case (Cons n ns)
    have n: "generationOf n = Some x \<Longrightarrow> n = segmentName x" for x
      by (metis Cons.prems list.set_intros(1))
    have "x \<noteq> g \<longleftrightarrow> n \<noteq> segmentName g" if "generationOf n = Some x" for x
      using n [OF that] that generationOf_segmentName [OF assms(2)] by (metis option.inject)
    moreover have "generationOf n = None \<Longrightarrow> n \<noteq> segmentName g"
      using generationOf_segmentName [OF assms(2)] by (metis option.distinct(1))
    moreover have "List.map_filter generationOf (filter (\<lambda>n. n \<noteq> segmentName g) ns)
        = filter (\<lambda>x. x \<noteq> g) (List.map_filter generationOf ns)"
      using Cons.prems by (intro Cons.IH) (metis list.set_intros(2))
    ultimately show ?case
      by (cases "generationOf n") (simp_all add: List.map_filter_simps)
  qed (simp add: List.map_filter_simps)
  then show ?thesis
    using assms(1) by (simp add: generations_def map_fst_delete filter_sort canonicalNames_def)
qed

lemma wf_map_delete [simp, gomap]: "wf_map d \<Longrightarrow> wf_map (AList.delete k d)"
  by (simp add: wf_map_def map_fst_delete)

lemma canonical_delete: "canonicalNames d \<Longrightarrow> canonicalNames (AList.delete k d)"
  using map_fst_delete [of k d] by (auto simp: canonicalNames_def simp flip: set_map)

lemma represents_inD:
  "represents d L \<Longrightarrow> (g, fs) \<in> set L \<Longrightarrow> map_of d (segmentName g) = Some (segBytes fs) \<and> (\<forall>f \<in> set fs. frameOk f)"
  by (auto simp: represents_def)

lemma represents_bound: "represents d L \<Longrightarrow> (g, fs) \<in> set L \<Longrightarrow> g < 18446744073709551616"
  using generations_bound [of g d] by (force simp: represents_def)

lemma represents_Nil: "represents [] []"
  by (simp add: represents_def generations_def canonicalNames_def List.map_filter_simps)

lemma represents_create:
  assumes r: "represents d L" and g: "\<forall>x \<in> fst ` set L. x < g" "g < 18446744073709551616"
  shows "map_of d (segmentName g) = None"
    and "represents (d @ [(segmentName g, segBytes fs)]) (L @ [(g, fs)]) \<longleftrightarrow> (\<forall>f \<in> set fs. frameOk f)"
proof -
  have gens: "set (generations d) = fst ` set L" using r by (simp add: represents_def)
  have "segmentName g \<notin> fst ` set d"
  proof
    assume "segmentName g \<in> fst ` set d"
    then have "g \<in> set (generations d)"
      unfolding set_generations using generationOf_segmentName [OF g(2)] by blast
    then show False using gens g(1) by auto
  qed
  then show none: "map_of d (segmentName g) = None" by (simp add: map_of_None_iff)
  have neq: "segmentName x \<noteq> segmentName g" if "(x, fs') \<in> set L" for x fs'
    using that g represents_bound [OF r that] segmentName_inject [of x g] by force
  have "generations (d @ [(segmentName g, segBytes fs)]) = generations d @ [g]"
    using g gens by (intro generations_create) (auto intro: less_imp_le)
  moreover have "wf_map (d @ [(segmentName g, segBytes fs)])"
    using r none by (simp add: represents_def wf_map_def map_of_None_iff)
  moreover have "canonicalNames (d @ [(segmentName g, segBytes fs)])"
    using r g(2) by (auto simp: represents_def canonicalNames_def)
  ultimately show "represents (d @ [(segmentName g, segBytes fs)]) (L @ [(g, fs)]) \<longleftrightarrow> (\<forall>f \<in> set fs. frameOk f)"
    using r g(1) none neq
    by (auto simp: represents_def map_add_def split: option.splits)
qed

lemma represents_grow:
  assumes r: "represents d (L @ [(g, fs)])" and f: "frameOk f"
  shows "represents (appendBytes d (segmentName g) (encodeEntry f)) (L @ [(g, fs @ [f])])"
proof -
  have m: "map_of d (segmentName g) = Some (segBytes fs)" using r by (simp add: represents_def)
  then have k: "segmentName g \<in> fst ` set d" by (metis map_of_None_iff option.distinct(1))
  have gb: "g < 18446744073709551616" using represents_bound [OF r] by auto
  have neq: "segmentName x \<noteq> segmentName g" if "(x, fs') \<in> set L" for x fs'
  proof -
    have "x \<noteq> g" using r that by (force simp: represents_def)
    then show ?thesis using represents_bound [OF r, of x fs'] that gb segmentName_inject by simp
  qed
  have "fst ` set (AList.update (segmentName g) v d) = fst ` set d" for v
    using k by (simp add: dom_update_keys insert_absorb)
  then have "canonicalNames (AList.update (segmentName g) v d)" for v
    using r by (simp add: represents_def canonicalNames_def)
  then show ?thesis
    using r f m k neq
    by (auto simp: represents_def appendBytes_def generations_update)
qed

lemma represents_drop_oldest:
  assumes r: "represents d ((g, fs) # L)"
  shows "represents (AList.delete (segmentName g) d) L"
proof -
  have gb: "g < 18446744073709551616" using represents_bound [OF r] by auto
  have neq: "segmentName x \<noteq> segmentName g" if "(x, fs') \<in> set L" for x fs'
  proof -
    have "x \<noteq> g" using r that by (force simp: represents_def)
    then show ?thesis using represents_bound [OF r, of x fs'] that gb segmentName_inject by simp
  qed
  have "generations (AList.delete (segmentName g) d) = filter (\<lambda>x. x \<noteq> g) (generations d)"
    using r gb by (intro generations_delete) (auto simp: represents_def)
  also have "\<dots> = map fst L"
    using r by (auto simp: represents_def filter_id_conv)
  finally show ?thesis
    using r neq by (auto simp: represents_def delete_conv' canonical_delete)
qed

lemma readSegments_log:
  assumes "represents d L" "set K \<subseteq> set L"
  shows "readSegments (\<lambda>_. False) d (map fst K) = (logFrames K, None)"
  using assms(2)
proof (induction K)
  case (Cons k K)
  obtain g fs where k: "k = (g, fs)" by force
  have "map_of d (segmentName g) = Some (segBytes fs)" "\<forall>f \<in> set fs. frameOk f"
    using represents_inD [OF assms(1), of g fs] Cons.prems k by auto
  moreover have "decodeFrames (segBytes fs) = (fs, None)"
    using calculation(2) by (simp add: decodeFrames_def codec.dec_log)
  ultimately show ?case using Cons k by (simp add: logFrames_def)
qed (simp add: logFrames_def)

lemma readLog_represents: "represents d L \<Longrightarrow> readLog (\<lambda>_. False) d = (logFrames L, None)"
  using readSegments_log [of d L L] by (simp add: readLog_def represents_def)

subsection \<open>The operations implement the abstract log\<close>

definition noFaults :: "osFaults \<Rightarrow> bool" where
  "noFaults os \<longleftrightarrow> \<not> mkdirFails os \<and> \<not> createFails os \<and> \<not> openFails os \<and> \<not> statFails os
     \<and> (\<forall>p. \<not> removeFails os p) \<and> (\<forall>b. writeResult os b = (length b, False))"

lemma openActive_newest:
  assumes "represents d (L @ [(g, fs)])" "\<not> openFails os"
  shows "openActive (Suc n) os d = Opened g d"
proof -
  have "generations d \<noteq> []" "last (generations d) = g" "map_of d (segmentName g) = Some (segBytes fs)"
    using assms(1) by (auto simp: represents_def)
  then show ?thesis using assms(2) by (simp add: openActiveTurn_def Let_def)
qed

lemma openActive_first:
  assumes r: "represents d []"
  shows "\<not> createFails os \<Longrightarrow> openActive (Suc n) os d = Opened 1 (d @ [(segmentName 1, [])])"
    and "represents (d @ [(segmentName 1, [])]) [(1, [])]"
proof -
  note c = represents_create(1) [OF r, of 1] represents_create(2) [OF r, of 1 "[]"]
  show "represents (d @ [(segmentName 1, [])]) [(1, [])]" using c by simp
  show "\<not> createFails os \<Longrightarrow> openActive (Suc n) os d = Opened 1 (d @ [(segmentName 1, [])])"
    using r c by (simp add: openActiveTurn_def createSegment_def represents_def)
qed


lemma dropSegments_represents:
  assumes "represents (spDir s) (K @ L)" "\<forall>p. \<not> removeFails os p"
  shows "represents (spDir (dropSegments os (map fst K) s)) L
    \<and> droppedFrames (dropSegments os (map fst K) s) = droppedFrames s + of_nat (length K)
    \<and> droppedBytes (dropSegments os (map fst K) s)
      = droppedBytes s + of_nat (length (concat (map (segBytes \<circ> snd) K)))"
  using assms
proof (induction K arbitrary: s)
  case (Cons k K)
  obtain g fs where k: "k = (g, fs)" by force
  have m: "map_of (spDir s) (segmentName g) = Some (segBytes fs)"
    using Cons.prems(1) k by (auto simp: represents_def)
  let ?s = "s\<lparr>spDir := AList.delete (segmentName g) (spDir s),
      droppedFrames := droppedFrames s + 1, droppedBytes := droppedBytes s + of_nat (length (segBytes fs))\<rparr>"
  have step: "dropSegments os (map fst (k # K)) s = dropSegments os (map fst K) ?s"
    using m Cons.prems(2) by (simp add: k Let_def)
  have r: "represents (spDir ?s) (K @ L)"
    using represents_drop_oldest [of "spDir s" g fs "K @ L"] Cons.prems(1) k by simp
  show ?case using Cons.IH [OF r Cons.prems(2)] unfolding step by (simp add: k)
qed simp

definition dropped :: "segLog \<Rightarrow> segLog" where
  "dropped L = take (length L - maxSegments) L"

lemma enforce_represents:
  assumes r: "represents (spDir s) L" and "\<forall>p. \<not> removeFails os p"
  shows "represents (spDir (enforceSegmentBudget os s)) (trimLog L)"
    and "droppedFrames (enforceSegmentBudget os s) = droppedFrames s + of_nat (length (dropped L))"
proof -
  have g: "generations (spDir s) = map fst L" using r by (simp add: represents_def)
  have e: "enforceSegmentBudget os s = dropSegments os (map fst (dropped L)) s"
    by (simp add: enforceSegmentBudget_def g dropped_def take_map Let_def)
  have r': "represents (spDir s) (dropped L @ trimLog L)"
    using r by (simp add: dropped_def trimLog_def)
  show "represents (spDir (enforceSegmentBudget os s)) (trimLog L)"
    "droppedFrames (enforceSegmentBudget os s) = droppedFrames s + of_nat (length (dropped L))"
    unfolding e using dropSegments_represents [OF r' assms(2)] by simp_all
qed

lemma represents_last_greatest:
  assumes "represents d (L @ [(g, fs)])"
  shows "\<forall>x \<in> fst ` set L. x < g"
proof -
  have s: "sorted (map fst (L @ [(g, fs)]))" and dis: "distinct (map fst (L @ [(g, fs)]))"
    using assms sorted_generations [of d] by (simp_all add: represents_def)
  show ?thesis
  proof
    fix x assume x: "x \<in> fst ` set L"
    then have "x \<le> g" using s by (auto simp: sorted_append)
    moreover have "x \<noteq> g" using dis x by auto
    ultimately show "x < g" by simp
  qed
qed

lemma rotate_represents:
  assumes r: "represents (spDir s) (L @ [(g, fs)])" and os: "\<not> createFails os" "\<forall>p. \<not> removeFails os p"
    and g: "g + 1 < 18446744073709551616"
  obtains s' where "rotate n os s g = (Rotated (g + 1), s')"
    "represents (spDir s') (trimLog (L @ [(g, fs), (g + 1, [])]))"
    "droppedFrames s' = droppedFrames s + of_nat (length (dropped (L @ [(g, fs), (g + 1, [])])))"
proof -
  let ?L = "L @ [(g, fs)]" and ?s = "s\<lparr>spDir := spDir s @ [(segmentName (g + 1), [])]\<rparr>"
  have big: "\<forall>x \<in> fst ` set ?L. x < g + 1"
    using represents_last_greatest [OF r] by auto
  note c = represents_create(1) [OF r big g] represents_create(2) [OF r big g, of "[]"]
  have "rotate n os s g = (Rotated (g + 1), enforceSegmentBudget os ?s)"
    using c(1) g os by (simp add: rotate_def createSegment_def)
  moreover have "represents (spDir ?s) (?L @ [(g + 1, [])])" using c(2) by simp
  ultimately show thesis
    using enforce_represents [of ?s "?L @ [(g + 1, [])]"] os that by simp
qed

lemma trimLog_last: "trimLog (L @ [x]) = (let k = Suc (length L) - maxSegments in drop k L @ [x])"
  by (simp add: trimLog_def Let_def maxSegments_def)

lemma writeFrame_ok:
  "noFaults os \<Longrightarrow> writeFrame os s g frame = (None, s\<lparr>spDir := appendBytes (spDir s) (segmentName g) frame\<rparr>)"
  by (simp add: writeFrame_def noFaults_def)

definition newestFull :: "segLog \<Rightarrow> bool" where
  "newestFull L \<longleftrightarrow> L \<noteq> [] \<and> length (segBytes (snd (last L))) \<ge> segmentMaxBytes"

definition encodeOf :: "frame \<Rightarrow> frameError + bytes" where
  "encodeOf f = encodeFrame (frSignal f) (frEncoding f) (frID f) (frPayload f)"

lemma encodeOf_ok: "frameOk f \<Longrightarrow> encodeOf f = Inr (encodeEntry f)"
  by (simp add: encodeOf_def encodeFrame_ok_iff frameOk_def)

definition appendFrame ::
  "nat \<Rightarrow> osFaults \<Rightarrow> spoolState \<Rightarrow> string \<Rightarrow> frame \<Rightarrow> (appendError option \<times> spoolState) option" where
  "appendFrame n os s dirName f = appendDoc n os s dirName (frSignal f) (frEncoding f) (frID f) (frPayload f)"

lemma append_first:
  assumes r: "represents (spDir s) []" and f: "frameOk f" and os: "noFaults os" and d: "dirName \<noteq> []"
  obtains s' where "appendFrame (Suc n) os s dirName f = Some (None, s')"
    "represents (spDir s') [(1, [f])]" "droppedFrames s' = droppedFrames s"
proof -
  let ?d = "spDir s @ [(segmentName 1, [])]"
  have o: "openActive (Suc n) os (spDir s) = Opened 1 ?d" "represents ?d [(1, [])]"
    using openActive_first(1) [OF r, of os n] openActive_first(2) [OF r] os by (simp_all add: noFaults_def)
  have "map_of ?d (segmentName 1) = Some []" using o(2) by (simp add: represents_def)
  then have "appendFrame (Suc n) os s dirName f
      = Some (None, s\<lparr>spDir := appendBytes ?d (segmentName 1) (encodeEntry f)\<rparr>)"
    using o(1) os d encodeOf_ok [OF f]
    by (simp add: appendFrame_def appendDoc_def encodeOf_def writeFrame_ok segmentMaxBytes_def noFaults_def Let_def
        del: openActive.simps)
  moreover have "represents (appendBytes ?d (segmentName 1) (encodeEntry f)) [(1, [f])]"
    using represents_grow [of ?d "[]" 1 "[]" f] o(2) f by simp
  ultimately show thesis using that by simp
qed

lemma append_newest:
  assumes r: "represents (spDir s) (L @ [(g, fs)])" and f: "frameOk f" and os: "noFaults os" and d: "dirName \<noteq> []"
    and small: "length (segBytes fs) < segmentMaxBytes"
  obtains s' where "appendFrame (Suc n) os s dirName f = Some (None, s')"
    "represents (spDir s') (L @ [(g, fs @ [f])])" "droppedFrames s' = droppedFrames s"
proof -
  have o: "openActive (Suc n) os (spDir s) = Opened g (spDir s)"
    using openActive_newest [OF r] os by (simp add: noFaults_def)
  have "map_of (spDir s) (segmentName g) = Some (segBytes fs)" using r by (simp add: represents_def)
  then have "appendFrame (Suc n) os s dirName f
      = Some (None, s\<lparr>spDir := appendBytes (spDir s) (segmentName g) (encodeEntry f)\<rparr>)"
    using o os d small encodeOf_ok [OF f]
    by (simp add: appendFrame_def appendDoc_def encodeOf_def writeFrame_ok noFaults_def Let_def
        del: openActive.simps)
  then show thesis using that represents_grow [OF r f] by simp
qed

lemma append_rotates:
  assumes r: "represents (spDir s) (L @ [(g, fs)])" and f: "frameOk f" and os: "noFaults os" and d: "dirName \<noteq> []"
    and full: "length (segBytes fs) \<ge> segmentMaxBytes" and g: "g + 1 < 18446744073709551616"
  obtains s' where "appendFrame (Suc n) os s dirName f = Some (None, s')"
    "represents (spDir s') (trimLog (L @ [(g, fs), (g + 1, [f])]))"
    "droppedFrames s' = droppedFrames s + of_nat (length L + 2 - maxSegments)"
proof -
  have o: "openActive (Suc n) os (spDir s) = Opened g (spDir s)"
    using openActive_newest [OF r] os by (simp add: noFaults_def)
  have m: "map_of (spDir s) (segmentName g) = Some (segBytes fs)" using r by (simp add: represents_def)
  obtain s2 where s2: "rotate (Suc n) os s g = (Rotated (g + 1), s2)"
      "represents (spDir s2) (trimLog (L @ [(g, fs), (g + 1, [])]))"
      "droppedFrames s2 = droppedFrames s + of_nat (length (dropped (L @ [(g, fs), (g + 1, [])])))"
    using rotate_represents [OF r, of os] os g by (auto simp: noFaults_def)
  have trim: "trimLog (L @ [(g, fs), (g + 1, x)]) = drop (length L + 2 - maxSegments) (L @ [(g, fs)]) @ [(g + 1, x)]" for x
    using trimLog_last [of "L @ [(g, fs)]" "(g + 1, x)"] by simp
  have "appendFrame (Suc n) os s dirName f
      = Some (None, s2\<lparr>spDir := appendBytes (spDir s2) (segmentName (g + 1)) (encodeEntry f)\<rparr>)"
    using o os d full m encodeOf_ok [OF f] s2(1)
    by (simp add: appendFrame_def appendDoc_def encodeOf_def writeFrame_ok noFaults_def Let_def
        del: openActive.simps)
  moreover have "represents (appendBytes (spDir s2) (segmentName (g + 1)) (encodeEntry f))
      (trimLog (L @ [(g, fs), (g + 1, [f])]))"
    using represents_grow [OF s2(2) [unfolded trim] f] unfolding trim by simp
  moreover have "length (dropped (L @ [(g, fs), (g + 1, [])])) = length L + 2 - maxSegments"
    by (simp add: dropped_def)
  ultimately show thesis using that s2(3) by simp
qed

lemma append_represents:
  assumes r: "represents (spDir s) L" and f: "frameOk f" and os: "noFaults os" and d: "dirName \<noteq> []"
    and g: "\<forall>(g, fs) \<in> set L. g + 1 < 18446744073709551616"
  obtains s' where "appendFrame (Suc n) os s dirName f = Some (None, s')" "represents (spDir s') (absAppend f L)"
    "droppedFrames s' = droppedFrames s + (if newestFull L then of_nat (length L + 1 - maxSegments) else 0)"
proof (cases L rule: rev_cases)
  case Nil
  obtain s' where "appendFrame (Suc n) os s dirName f = Some (None, s')"
    "represents (spDir s') [(1, [f])]" "droppedFrames s' = droppedFrames s"
    using append_first [OF r [unfolded Nil] f os d] by metis
  then show ?thesis using that Nil by (simp add: absAppend_def newestFull_def)
next
  case (snoc K x)
  obtain h fs where x: "x = (h, fs)" by force
  note r' = r [unfolded snoc x]
  show ?thesis
  proof (cases "length (segBytes fs) \<ge> segmentMaxBytes")
    case True
    obtain s' where "appendFrame (Suc n) os s dirName f = Some (None, s')"
      "represents (spDir s') (trimLog (K @ [(h, fs), (h + 1, [f])]))"
      "droppedFrames s' = droppedFrames s + of_nat (length K + 2 - maxSegments)"
      using append_rotates [OF r' f os d True] g snoc x by auto
    then show ?thesis using that True by (simp add: absAppend_def newestFull_def snoc x)
  next
    case False
    obtain s' where "appendFrame (Suc n) os s dirName f = Some (None, s')"
      "represents (spDir s') (K @ [(h, fs @ [f])])" "droppedFrames s' = droppedFrames s"
      using append_newest [OF r' f os d] False by (auto simp: not_le)
    then show ?thesis using that False by (simp add: absAppend_def newestFull_def snoc x)
  qed
qed

subsection \<open>Results about \<open>Append\<close>\<close>

text \<open>
  C1: on a directory that holds a well-formed log, a successful \<open>Append\<close> implements the abstract
  append: the frame goes to the end of the newest segment, or, when that is full, to a new
  generation, of which at most \<open>MaxSegments\<close> are kept; reading the directory afterwards gives
  exactly the frames of the abstract log, and \<open>Dropped\<close> grows by the number of segments
  retired.
\<close>

theorem append_refines:
  assumes "represents (spDir s) L" "frameOk f" "noFaults os" "dirName \<noteq> []"
    and "\<forall>(g, fs) \<in> set L. g + 1 < 18446744073709551616"
  shows "\<exists>s'. appendFrame (Suc n) os s dirName f = Some (None, s')
    \<and> represents (spDir s') (absAppend f L)
    \<and> readLog (\<lambda>_. False) (spDir s') = (logFrames (absAppend f L), None)
    \<and> droppedFrames s' = droppedFrames s + (if newestFull L then of_nat (length L + 1 - maxSegments) else 0)"
proof -
  obtain s' where "appendFrame (Suc n) os s dirName f = Some (None, s')" and r: "represents (spDir s') (absAppend f L)"
    and "droppedFrames s' = droppedFrames s + (if newestFull L then of_nat (length L + 1 - maxSegments) else 0)"
    by (rule append_represents [OF assms])
  with readLog_represents [OF r] show ?thesis by blast
qed

definition goodOs :: osFaults where
  "goodOs = \<lparr>mkdirFails = False, createFails = False, openFails = False, statFails = False,
     removeFails = \<lambda>_. False, writeResult = \<lambda>b. (length b, False)\<rparr>"

lemma goodOs_noFaults: "noFaults goodOs"
  by (simp add: noFaults_def goodOs_def)

definition emptySpool :: spoolState where
  "emptySpool = \<lparr>spDir = [], droppedFrames = 0, droppedBytes = 0\<rparr>"

theorem append_refines_witness:
  "\<exists>s'. appendFrame 1 goodOs emptySpool ''spool'' sampleFrame = Some (None, s')
    \<and> represents (spDir s') [(1, [sampleFrame])]
    \<and> readLog (\<lambda>_. False) (spDir s') = ([sampleFrame], None)
    \<and> droppedFrames s' = 0"
  using append_refines [of emptySpool "[]" sampleFrame goodOs "''spool''" 0]
    represents_Nil sampleFrame_ok goodOs_noFaults
  by (simp add: emptySpool_def absAppend_def newestFull_def logFrames_def)

text \<open>The state of the log after a run of appends.\<close>

fun appendAll :: "osFaults \<Rightarrow> string \<Rightarrow> frame list \<Rightarrow> spoolState \<Rightarrow> spoolState option" where
  "appendAll os dirName [] s = Some s"
| "appendAll os dirName (f # fs) s =
     (case appendFrame 1 os s dirName f of
        Some (None, s') \<Rightarrow> appendAll os dirName fs s'
      | _ \<Rightarrow> None)"

definition maxFrameBytes :: nat where
  "maxFrameBytes = framePrefixBytes + 65535 + maxFramePayload"

definition dirBytes :: "dir \<Rightarrow> nat" where
  "dirBytes d = sum_list (map (\<lambda>g. case map_of d (segmentName g) of None \<Rightarrow> 0 | Some b \<Rightarrow> length b) (generations d))"

definition boundedLog :: "segLog \<Rightarrow> bool" where
  "boundedLog L \<longleftrightarrow> length L \<le> maxSegments \<and> (\<forall>(g, fs) \<in> set L. length (segBytes fs) < segmentMaxBytes + maxFrameBytes)"

lemma length_encodeEntry: "frameOk f \<Longrightarrow> length (encodeEntry f) \<le> maxFrameBytes"
  by (simp add: encodeEntry_def length_frameBytes frameOk_def maxFrameBytes_def)

lemma boundedLog_absAppend:
  assumes "boundedLog L" "frameOk f"
  shows "boundedLog (absAppend f L)"
proof (cases L rule: rev_cases)
  case Nil
  then show ?thesis
    using length_encodeEntry [OF assms(2)] by (simp add: boundedLog_def absAppend_def maxSegments_def segmentMaxBytes_def)
next
  case (snoc K x)
  obtain g fs where x: "x = (g, fs)" by force
  have fb: "length (encodeEntry f) < segmentMaxBytes + maxFrameBytes"
    using length_encodeEntry [OF assms(2)] by (simp add: segmentMaxBytes_def)
  show ?thesis
  proof (cases "length (segBytes fs) \<ge> segmentMaxBytes")
    case True
    have "set (drop k (L @ [(g + 1, [f])])) \<subseteq> insert (g + 1, [f]) (set L)" for k
      using set_drop_subset [of k "L @ [(g + 1, [f])]"] by auto
    then show ?thesis
      using assms True fb by (force simp: boundedLog_def absAppend_def snoc x trimLog_def maxSegments_def)
  next
    case False
    then show ?thesis
      using assms length_encodeEntry [OF assms(2)] by (auto simp: boundedLog_def absAppend_def snoc x)
  qed
qed

lemma dirBytes_represents: "represents d L \<Longrightarrow> dirBytes d = sum_list (map (length \<circ> segBytes \<circ> snd) L)"
  by (auto simp: dirBytes_def represents_def case_prod_unfold intro!: arg_cong [where f = sum_list])

lemma boundedLog_bytes:
  assumes "boundedLog L"
  shows "sum_list (map (length \<circ> segBytes \<circ> snd) L) \<le> maxSegments * (segmentMaxBytes + maxFrameBytes)"
proof -
  have "sum_list (map (length \<circ> segBytes \<circ> snd) L) \<le> sum_list (map (\<lambda>_. segmentMaxBytes + maxFrameBytes) L)"
    using assms by (intro sum_list_mono) (force simp: boundedLog_def)
  also have "\<dots> = length L * (segmentMaxBytes + maxFrameBytes)" by (simp add: sum_list_triv)
  also have "\<dots> \<le> maxSegments * (segmentMaxBytes + maxFrameBytes)"
    using assms by (intro mult_le_mono1) (simp add: boundedLog_def)
  finally show ?thesis .
qed

lemma absAppend_suffix: "\<exists>lost. logFrames L @ [f] = lost @ logFrames (absAppend f L)"
proof (cases L rule: rev_cases)
  case (snoc K x)
  obtain g fs where x: "x = (g, fs)" by force
  have "L @ [(g + 1, [f])] = take k (L @ [(g + 1, [f])]) @ drop k (L @ [(g + 1, [f])])" for k
    by (rule append_take_drop_id [symmetric])
  then have "logFrames (L @ [(g + 1, [f])]) =
      logFrames (take k (L @ [(g + 1, [f])])) @ logFrames (drop k (L @ [(g + 1, [f])]))" for k
    by (metis concat_append logFrames_def map_append)
  moreover have "logFrames (L @ [(g + 1, [f])]) = logFrames L @ [f]"
    by (simp add: logFrames_def)
  ultimately have "\<exists>lost. logFrames L @ [f] = lost @ logFrames (trimLog (L @ [(g + 1, [f])]))"
    unfolding trimLog_def by metis
  then show ?thesis by (auto simp: absAppend_def snoc x logFrames_def)
qed (simp add: absAppend_def logFrames_def)

lemma absAppend_generations:
  assumes "\<forall>(g, fs) \<in> set L. g \<le> b" "1 \<le> Suc b"
  shows "\<forall>(g, fs) \<in> set (absAppend f L). g \<le> Suc b"
proof (cases L rule: rev_cases)
  case (snoc K x)
  obtain g fs where x: "x = (g, fs)" by force
  have "set (trimLog M) \<subseteq> set M" for M by (simp add: trimLog_def set_drop_subset)
  then show ?thesis
    using assms(1) unfolding snoc x absAppend_def by (fastforce split: if_splits)
qed (simp add: absAppend_def)

lemma appendAll_represents:
  assumes "\<forall>f \<in> set fs. frameOk f" "noFaults os" "dirName \<noteq> []"
    and "represents (spDir s) L" "boundedLog L" "\<forall>(g, gs) \<in> set L. g \<le> b"
    and "b + length fs < 18446744073709551615"
  shows "\<exists>s' L' lost. appendAll os dirName fs s = Some s' \<and> represents (spDir s') L' \<and> boundedLog L'
    \<and> logFrames L @ fs = lost @ logFrames L'"
  using assms
proof (induction fs arbitrary: s L b)
  case (Cons f fs)
  have lim: "\<forall>(g, gs) \<in> set L. g + 1 < 18446744073709551616"
    using Cons.prems by fastforce
  obtain s1 where s1: "appendFrame (Suc 0) os s dirName f = Some (None, s1)" "represents (spDir s1) (absAppend f L)"
    using append_represents [OF Cons.prems(4) _ Cons.prems(2,3) lim, of f 0] Cons.prems(1) by auto
  have "\<exists>s' L' lost. appendAll os dirName fs s1 = Some s' \<and> represents (spDir s') L' \<and> boundedLog L'
    \<and> logFrames (absAppend f L) @ fs = lost @ logFrames L'"
    using Cons.prems absAppend_generations [of L b f] boundedLog_absAppend [of L f] s1(2)
    by (intro Cons.IH [where b = "Suc b"]) simp_all
  then obtain s' L' lost where IH: "appendAll os dirName fs s1 = Some s'" "represents (spDir s') L'" "boundedLog L'"
    "logFrames (absAppend f L) @ fs = lost @ logFrames L'" by blast
  obtain lost1 where "logFrames L @ [f] = lost1 @ logFrames (absAppend f L)"
    using absAppend_suffix by blast
  then have "logFrames L @ f # fs = (lost1 @ lost) @ logFrames L'"
    using IH(4) by (metis append.assoc append_Cons append_Nil)
  then show ?case using s1(1) IH(1-3) by auto
qed force

text \<open>
  C2: the disk a spool takes is bounded, and the loss is the oldest frames only.  However many
  documents are appended to an empty directory, it holds at most \<open>MaxSegments\<close> segments of less
  than \<open>SegmentMaxBytes\<close> plus one frame each, and what a reader finds is the end of the
  sequence of documents, in order, with nothing missing from its middle.
\<close>

theorem spool_bounded_suffix:
  assumes "\<forall>f \<in> set fs. frameOk f" "noFaults os" "dirName \<noteq> []" "length fs < 18446744073709551615"
  shows "\<exists>s' lost kept. appendAll os dirName fs emptySpool = Some s'
    \<and> fs = lost @ kept \<and> readLog (\<lambda>_. False) (spDir s') = (kept, None)
    \<and> length (generations (spDir s')) \<le> maxSegments
    \<and> dirBytes (spDir s') \<le> maxSegments * (segmentMaxBytes + maxFrameBytes)"
proof -
  have "represents (spDir emptySpool) []" using represents_Nil by (simp add: emptySpool_def)
  moreover have "boundedLog []" by (simp add: boundedLog_def)
  ultimately obtain s' L' lost where r: "appendAll os dirName fs emptySpool = Some s'" "represents (spDir s') L'"
    "boundedLog L'" "fs = lost @ logFrames L'"
    using appendAll_represents [OF assms(1-3), of emptySpool "[]" 0] assms(4) by (auto simp: logFrames_def)
  have "length (generations (spDir s')) \<le> maxSegments"
    using r(2,3) by (simp add: represents_def boundedLog_def)
  moreover have "dirBytes (spDir s') \<le> maxSegments * (segmentMaxBytes + maxFrameBytes)"
    using boundedLog_bytes [OF r(3)] dirBytes_represents [OF r(2)] by simp
  ultimately show ?thesis using r readLog_represents by blast
qed

theorem spool_bounded_suffix_witness:
  "\<exists>s' lost kept. appendAll goodOs ''spool'' [sampleFrame, sampleFrame] emptySpool = Some s'
    \<and> [sampleFrame, sampleFrame] = lost @ kept \<and> readLog (\<lambda>_. False) (spDir s') = (kept, None)
    \<and> length (generations (spDir s')) \<le> maxSegments
    \<and> dirBytes (spDir s') \<le> maxSegments * (segmentMaxBytes + maxFrameBytes)"
  by (rule spool_bounded_suffix) (simp_all add: sampleFrame_ok goodOs_noFaults)

text \<open>
  C42: \<open>os.File.Write\<close> never returns a short count without an error, so the branch of \<open>Append\<close>
  that counts a short append is dead: under that contract a frame whose write failed is
  reported to the caller as an error and leaves both drop counters as they were.
\<close>

theorem failed_write_not_counted:
  assumes "represents (spDir s) (L @ [(g, fs)])" "frameOk f" "dirName \<noteq> []"
    and "\<not> mkdirFails os" "\<not> openFails os" "length (segBytes fs) < segmentMaxBytes"
    and contract: "\<forall>b. fst (writeResult os b) \<noteq> length b \<longrightarrow> snd (writeResult os b)"
    and short: "fst (writeResult os (encodeEntry f)) < length (encodeEntry f)"
  shows "\<exists>s'. appendFrame (Suc n) os s dirName f = Some (Some WriteFailed, s')
    \<and> droppedFrames s' = droppedFrames s \<and> droppedBytes s' = droppedBytes s"
proof -
  have o: "openActive (Suc n) os (spDir s) = Opened g (spDir s)"
    using openActive_newest [OF assms(1)] assms(5) by simp
  have m: "map_of (spDir s) (segmentName g) = Some (segBytes fs)"
    using assms(1) by (simp add: represents_def)
  have w: "snd (writeResult os (encodeEntry f))" using contract short by simp
  show ?thesis
    using o m w assms(3-6) encodeOf_ok [OF assms(2)]
    by (simp add: appendFrame_def appendDoc_def encodeOf_def writeFrame_def Let_def case_prod_unfold
        del: openActive.simps)
qed

definition fullDiskOs :: osFaults where
  "fullDiskOs = goodOs\<lparr>writeResult := \<lambda>b. (0, True)\<rparr>"

theorem failed_write_not_counted_witness:
  "\<exists>s'. appendFrame 1 fullDiskOs (emptySpool\<lparr>spDir := [(segmentName 1, [])]\<rparr>) ''spool'' sampleFrame
      = Some (Some WriteFailed, s') \<and> droppedFrames s' = 0 \<and> droppedBytes s' = 0"
proof -
  have "represents [(segmentName 1, [])] ([] @ [(1, [])])"
    using openActive_first(2) [OF represents_Nil] by simp
  then show ?thesis
    using failed_write_not_counted [of "emptySpool\<lparr>spDir := [(segmentName 1, [])]\<rparr>" "[]" 1 "[]"
        sampleFrame "''spool''" fullDiskOs 0] sampleFrame_ok sampleFrame_length
    by (simp add: fullDiskOs_def goodOs_def emptySpool_def segmentMaxBytes_def)
qed


end
