(* ===== verification/SpoolWriter.thy ===== *)
theory SpoolWriter
  imports SpoolLog
begin

text \<open>
  The \<open>Writer\<close> of \<open>spool/spool.go\<close>: \<open>WriteJSON\<close>, which appends a document to the log under its
  SHA-256 as identity, and \<open>WriteDocumentFile\<close>, which publishes a document as a file of its
  own through a rename.  The document is the result of \<open>json.Marshal\<close>, \<open>None\<close> when that failed.
  A result \<open>Some name\<close> is the path \<open>filepath.Join(w.Dir, name)\<close>, \<open>None\<close> the directory itself.
\<close>

datatype writerError = NoDirectory | MarshalFailed | AppendFailed appendError
  | WriterMkdirFailed | TmpWriteFailed | RenameFailed

definition contentID :: "bytes \<Rightarrow> string" where
  "contentID body = hexEncode (sha256 body)"

definition writeJSON ::
  "nat \<Rightarrow> osFaults \<Rightarrow> spoolState \<Rightarrow> string \<Rightarrow> string \<Rightarrow> bytes option \<Rightarrow>
   ((writerError + string option) \<times> spoolState) option" where
  "writeJSON n os s dirName signal doc =
     (if dirName = [] then Some (Inl NoDirectory, s)
      else case doc of None \<Rightarrow> Some (Inl MarshalFailed, s)
        | Some body \<Rightarrow>
            (case appendDoc n os s dirName signal ''json'' (contentID body) body of
               None \<Rightarrow> None
             | Some (Some e, s') \<Rightarrow> Some (Inl (AppendFailed e), s')
             | Some (None, s') \<Rightarrow>
                 (let gs = generations (spDir s')
                  in Some (Inr (if gs = [] then None else Some (segmentName (last gs))), s'))))"

record fileFaults =
  ffMkdirFails :: bool
  ffWriteResult :: "bytes \<Rightarrow> nat option"
  ffRenameFails :: bool
  ffRemoveFails :: bool

text \<open>
  \<open>os.WriteFile\<close> creates or truncates the file first; \<open>ffWriteResult\<close> is \<open>None\<close> when all of the
  body was written and otherwise how much was before the error.
\<close>

definition writeDocumentFile ::
  "fileFaults \<Rightarrow> string \<Rightarrow> dir \<Rightarrow> string \<Rightarrow> string \<Rightarrow> bytes option \<Rightarrow> (writerError + string) \<times> dir" where
  "writeDocumentFile os uuid d dirName signal doc =
     (if dirName = [] then (Inl NoDirectory, d)
      else if ffMkdirFails os then (Inl WriterMkdirFailed, d)
      else case doc of None \<Rightarrow> (Inl MarshalFailed, d)
        | Some body \<Rightarrow>
            (let finalName = contentID body @ ''.'' @ signal;
                 tmpName = ''tmp-'' @ uuid
             in case ffWriteResult os body of
                  Some k \<Rightarrow> (Inl TmpWriteFailed, AList.update tmpName (take k body) d)
                | None \<Rightarrow>
                    (let d1 = AList.update tmpName body d
                     in if ffRenameFails os
                        then (Inl RenameFailed, if ffRemoveFails os then d1 else AList.delete tmpName d1)
                        else (Inr finalName, AList.update finalName body (AList.delete tmpName d1)))))"

lemma contentID_length [simp]: "length (contentID body) = 64"
  by (simp add: contentID_def)

lemma contentID_not_tmp: "contentID body @ s \<noteq> ''tmp-'' @ t"
proof
  assume eq: "contentID body @ s = ''tmp-'' @ t"
  have "hd (contentID body) \<in> set (contentID body)"
    using contentID_length [of body] by (metis hd_in_set list.size(3) zero_neq_numeral)
  then have "lowerHexChar (hd (contentID body))"
    by (simp add: contentID_def hexEncode_chars)
  moreover have "hd (contentID body) = CHR ''t''"
    using eq contentID_length [of body]
    by (metis append_Cons hd_append2 list.sel(1) list.size(3) zero_neq_numeral)
  ultimately show False by (simp add: lowerHexChar_def)
qed

text \<open>
  C27: \<open>WriteDocumentFile\<close> publishes atomically.  Whatever fails, the file of the document's final
  name is either untouched or holds the whole document, no other published file changes, and a
  success leaves no temporary file behind.
\<close>

theorem document_file_atomic:
  "case writeDocumentFile os uuid d dirName signal (Some body) of (r, d') \<Rightarrow>
     (let final = contentID body @ ''.'' @ signal; tmp = ''tmp-'' @ uuid
      in (map_of d' final = map_of d final \<or> map_of d' final = Some body)
       \<and> (r = Inr final \<and> map_of d' final = Some body \<and> map_of d' tmp = None \<or> isl r \<and> map_of d' final = map_of d final)
       \<and> (map_of d')(final := None, tmp := None) = (map_of d)(final := None, tmp := None))"
proof -
  define final tmp where "final = contentID body @ ''.'' @ signal" and "tmp = ''tmp-'' @ uuid"
  have "final \<noteq> tmp"
    using contentID_not_tmp [of body "''.'' @ signal" uuid] by (simp add: final_def tmp_def)
  then show ?thesis
    unfolding writeDocumentFile_def Let_def option.case final_def [symmetric] tmp_def [symmetric]
    by (auto simp: delete_conv' fun_eq_iff split: option.splits)
qed

text \<open>
  A document written by \<open>WriteJSON\<close> becomes the last frame a reader of the directory finds,
  marked with the signal, the encoding \<open>json\<close> and the SHA-256 of its bytes as identity, and
  the path returned is that of the newest segment.
\<close>

theorem write_json_appends:
  assumes "represents (spDir s) L" "noFaults os" "dirName \<noteq> []"
    and "f = \<lparr>frSignal = signal, frEncoding = ''json'', frID = contentID body, frPayload = body\<rparr>" "frameOk f"
    and "\<forall>(g, fs) \<in> set L. g + 1 < 18446744073709551616"
  shows "\<exists>s'. writeJSON (Suc n) os s dirName signal (Some body)
        = Some (Inr (Some (segmentName (fst (last (absAppend f L))))), s')
    \<and> (\<exists>older. readLog (\<lambda>_. False) (spDir s') = (older @ [f], None))"
proof -
  obtain s' where s': "appendFrame (Suc n) os s dirName f = Some (None, s')" "represents (spDir s') (absAppend f L)"
    using append_represents [OF assms(1,5,2,3,6), of n] by metis
  have ne: "absAppend f L \<noteq> []" and "\<exists>older. logFrames (absAppend f L) = older @ [f]"
    by (auto simp: absAppend_def logFrames_def trimLog_def maxSegments_def split: prod.splits)
  moreover have "generations (spDir s') \<noteq> [] \<and> last (generations (spDir s')) = fst (last (absAppend f L))"
    using s'(2) ne by (simp add: represents_def last_map)
  ultimately show ?thesis
    using s'(1) readLog_represents [OF s'(2)] assms(3,4)
    by (simp add: writeJSON_def appendFrame_def Let_def)
qed

definition sampleDoc :: frame where
  "sampleDoc = \<lparr>frSignal = ''log'', frEncoding = ''json'', frID = contentID ''{}'', frPayload = ''{}''\<rparr>"

lemma lowerHex_plain:
  "\<forall>c \<in> set s. lowerHexChar c \<Longrightarrow> jsonEsc s = s \<and> isAscii s"
proof (induction s)
  case Nil
  then show ?case by (simp add: jsonEsc.simps)
next
  case (Cons c s)
  then have c: "ord c < 128" "escByte c = [c]"
    by (auto simp: lowerHexChar_def escByte_def)
  then show ?case using Cons by (simp add: jsonEsc.simps [of "c # s"] isAscii_def)
qed

lemma contentID_plain: "jsonEsc (contentID body) = contentID body" "isAscii (contentID body)"
  using lowerHex_plain [of "contentID body"] hexEncode_chars by (auto simp: contentID_def)

text \<open>Every document of at most 8 MiB fits a frame.\<close>

lemma frameOk_doc:
  assumes "signal \<in> {''trace'', ''log'', ''profile'', ''metrics''}" "length body \<le> maxFramePayload"
  shows "frameOk \<lparr>frSignal = signal, frEncoding = ''json'', frID = contentID body, frPayload = body\<rparr>"
proof -
  have "jsonEsc ''json'' = ''json''" "utf8Valid ''json''" by code_simp+
  moreover have "jsonEsc signal = signal" "utf8Valid signal" "signal \<noteq> []" "length signal \<le> 10"
    using assms(1) by (auto simp: jsonEsc.simps escByte_def utf8Valid_ascii)
  moreover have "jsonEsc ''signal'' = ''signal''" "jsonEsc ''encoding'' = ''encoding''" "jsonEsc ''id'' = ''id''"
    by code_simp+
  moreover have "utf8Valid (contentID body)" by (rule utf8Valid_ascii) (rule contentID_plain)
  ultimately show ?thesis
    using assms(2) by (simp add: frameOk_def frameHdr_def utf8Header_def marshalHeader_def jsonField_def
        jsonString_def contentID_plain)
qed

lemma sampleDoc_ok: "frameOk sampleDoc"
  unfolding sampleDoc_def by (rule frameOk_doc) (simp_all add: maxFramePayload_def)

theorem write_json_appends_witness:
  "\<exists>s'. writeJSON 1 goodOs emptySpool ''spool'' ''log'' (Some ''{}'') = Some (Inr (Some (segmentName 1)), s')
    \<and> (\<exists>older. readLog (\<lambda>_. False) (spDir s') = (older @ [sampleDoc], None))"
  using write_json_appends [of emptySpool "[]" goodOs "''spool''" sampleDoc "''log''" "''{}''" 0]
    represents_Nil goodOs_noFaults sampleDoc_ok
  by (simp add: emptySpool_def sampleDoc_def absAppend_def)

end
