(* ===== verification/SpanFlow.thy ===== *)
theory SpanFlow
  imports Tracing SpoolWriter
begin

text \<open>
  From a finished span to a frame on disk: \<open>flushSpanBatch\<close> of \<open>span_buffer.go\<close> on the spool of
  \<open>spool/\<close>, with \<open>json.Marshal\<close> of the batch in between.
\<close>

record spoolWorld =
  swSpool :: spoolState
  swNow :: int

text \<open>
  \<open>WriteJSON(signal, doc)\<close>; \<open>marshal\<close> is \<open>json.Marshal\<close> of the document.  A call that does not return (the
  rescan loop of \<open>openActive\<close>) is mapped to a failure here; the results below hold of directories on
  which it returns.
\<close>

definition spoolWriteDoc :: "osFaults \<Rightarrow> string \<Rightarrow> string \<Rightarrow> ('d \<Rightarrow> bytes) \<Rightarrow> 'd \<Rightarrow> spoolWorld \<Rightarrow> bool \<times> spoolWorld" where
  "spoolWriteDoc os dirName signal marshal d w =
     (case writeJSON 1 os (swSpool w) dirName signal (Some (marshal d)) of
        None \<Rightarrow> (False, w)
      | Some (Inl e, s) \<Rightarrow> (False, w\<lparr>swSpool := s\<rparr>)
      | Some (Inr path, s) \<Rightarrow> (True, w\<lparr>swSpool := s\<rparr>))"

definition spoolWriteBatch :: "osFaults \<Rightarrow> string \<Rightarrow> spanBatch \<Rightarrow> spoolWorld \<Rightarrow> bool \<times> spoolWorld" where
  "spoolWriteBatch os dirName batch w = spoolWriteDoc os dirName ''trace'' marshalSpanBatch batch w"

definition flushClient :: "osFaults \<Rightarrow> client \<Rightarrow> bool \<Rightarrow> spanRecord spanBuffer \<Rightarrow> spoolWorld
    \<Rightarrow> bool \<times> spanRecord spanBuffer \<times> spoolWorld" where
  "flushClient os cl all b w = flushSpanBatch (writeBatch (spoolWriteBatch os (clDir cl)) swNow (clCfg cl)) all b w"

definition batchBody :: "client \<Rightarrow> int \<Rightarrow> spanRecord list \<Rightarrow> bytes" where
  "batchBody cl now rs = marshalSpanBatch (mkSpanBatch (clCfg cl) now rs)"

definition batchFrame :: "client \<Rightarrow> int \<Rightarrow> spanRecord list \<Rightarrow> frame" where
  "batchFrame cl now rs = \<lparr>frSignal = ''trace'', frEncoding = ''json'',
     frID = contentID (batchBody cl now rs), frPayload = batchBody cl now rs\<rparr>"

lemma writeJSON_represents:
  assumes r: "represents (spDir s) L" and os: "noFaults os" and d: "dirName \<noteq> []"
    and f: "f = \<lparr>frSignal = signal, frEncoding = ''json'', frID = contentID body, frPayload = body\<rparr>" "frameOk f"
    and g: "\<forall>(g, fs) \<in> set L. g + 1 < 18446744073709551616"
  obtains s' p where "writeJSON 1 os s dirName signal (Some body) = Some (Inr p, s')" "represents (spDir s') (absAppend f L)"
proof -
  obtain s' where "appendFrame (Suc 0) os s dirName f = Some (None, s')" "represents (spDir s') (absAppend f L)"
    using append_represents [OF r f(2) os d g, of 0] by metis
  then show thesis using that d f(1) by (simp add: writeJSON_def appendFrame_def Let_def)
qed

lemma absAppend_last: "\<exists>older. logFrames (absAppend f L) = older @ [f]"
  by (auto simp: absAppend_def logFrames_def trimLog_def maxSegments_def split: prod.splits)

text \<open>
  A flush puts the spans on disk.  On a well-formed spool without faults, flushing a non-empty
  buffer empties it, and the last frame a reader of the directory finds is one \<open>trace\<close> document,
  the JSON of all the buffered spans in order, named by its SHA-256.
\<close>

theorem flushed_spans_reach_log:
  assumes "represents (spDir (swSpool w)) L" "noFaults os" "clDir cl \<noteq> []"
    and "\<forall>(g, fs) \<in> set L. g + 1 < 18446744073709551616"
    and "sbInv b" "sbSpans b \<noteq> []" "frameOk (batchFrame cl (swNow w) (sbSpans b))"
  shows "\<exists>w' older. flushClient os cl True b w = (True, b\<lparr>sbSpans := []\<rparr>, w')
    \<and> readLog (\<lambda>_. False) (spDir (swSpool w')) = (older @ [batchFrame cl (swNow w) (sbSpans b)], None)"
proof -
  let ?f = "batchFrame cl (swNow w) (sbSpans b)"
  obtain s' p where s': "writeJSON 1 os (swSpool w) (clDir cl) ''trace'' (Some (batchBody cl (swNow w) (sbSpans b))) = Some (Inr p, s')"
    "represents (spDir s') (absAppend ?f L)"
    using writeJSON_represents [OF assms(1-3) batchFrame_def assms(7,4)] by metis
  let ?wr = "writeBatch (spoolWriteBatch os (clDir cl)) swNow (clCfg cl)"
  have wr: "?wr (sbSpans b) w = (True, w\<lparr>swSpool := s'\<rparr>)"
    using s'(1) by (simp add: writeBatch_def spoolWriteBatch_def spoolWriteDoc_def batchBody_def)
  obtain older where "logFrames (absAppend ?f L) = older @ [?f]" using absAppend_last by metis
  then have "readLog (\<lambda>_. False) (spDir s') = (older @ [?f], None)"
    using readLog_represents [OF s'(2)] by simp
  moreover have "flushClient os cl True b w = (True, b\<lparr>sbSpans := []\<rparr>, w\<lparr>swSpool := s'\<rparr>)"
    using flush_all_ok [of b ?wr w] assms(5,6) by (simp add: flushClient_def wr)
  ultimately show ?thesis by auto
qed


definition sampleRecord :: "string \<Rightarrow> spanRecord" where
  "sampleRecord name = \<lparr>srOrganisation = ''org'', srApplication = \<lparr>arApplicationID = ''app'', arProject = None\<rparr>,
     srTraceID = ''t'', srSpanID = ''s'', srParentSpanID = [], srName = name, srStartedAt = [], srEndedAt = [],
     srStatus = ''ok'', srAttributes = [], srServiceName = [], srHTTPMethod = [], srHTTPRoute = [],
     srHTTPStatusCode = 0\<rparr>"

definition sampleBuffer :: "string \<Rightarrow> spanRecord spanBuffer" where
  "sampleBuffer name = \<lparr>sbSpans = [sampleRecord name], sbBatchSize = 2, sbMaxBuffered = 4, sbDropped = 0\<rparr>"

lemma deterministicID_plain: "list_all plainJson (deterministicID parts)" "length (deterministicID parts) = 32"
proof -
  have "\<forall>c \<in> set (deterministicID parts). lowerHexChar c"
    unfolding deterministicID_def by (meson hexEncode_chars in_set_takeD)
  then show "list_all plainJson (deterministicID parts)" by (rule lowerHex_plainJson)
  show "length (deterministicID parts) = 32" by (simp add: deterministicID_def)
qed

lemma sampleBody_length:
  assumes "list_all plainJson name"
  shows "length (batchBody liveClient now [sampleRecord name]) = 432 + length name"
proof -
  have p: "length (marshalProcessing (processing liveConfig seed)) = 157" for seed
    by (simp add: marshalProcessing_def processing_def Let_def jsonObject_def jsonMember_def omitEmpty_def
        liveConfig_def zeroConfig_def jsonString_plain deterministicID_plain plainJson_def)
  have c: "clCfg liveClient = liveConfig" by (simp add: liveClient_def)
  show ?thesis
    using assms
    by (simp add: batchBody_def marshalSpanBatch_def mkSpanBatch_def c p jsonObject_def jsonMember_def jsonArray_def
        marshalSpan_def sampleRecord_def marshalOrganisation_def marshalApplication_def jsonMap_def omitEmpty_def
        jsonString_plain plainJson_def itoa_def digits10_one)
qed

lemma sampleBuffer_inv: "sbInv (sampleBuffer name)"
  by (simp add: sbInv_def sampleBuffer_def)

theorem flushed_spans_reach_log_witness:
  "\<exists>w' older. flushClient goodOs liveClient True (sampleBuffer ''op'') \<lparr>swSpool = emptySpool, swNow = 7\<rparr>
      = (True, (sampleBuffer ''op'')\<lparr>sbSpans := []\<rparr>, w')
    \<and> readLog (\<lambda>_. False) (spDir (swSpool w')) = (older @ [batchFrame liveClient 7 [sampleRecord ''op'']], None)"
proof -
  have "length (batchBody liveClient 7 [sampleRecord ''op'']) = 434"
    using sampleBody_length [of "''op''" 7] by (simp add: plainJson_def)
  then have "frameOk (batchFrame liveClient 7 [sampleRecord ''op''])"
    unfolding batchFrame_def by (intro frameOk_doc) (simp_all add: maxFramePayload_def)
  then show ?thesis
    using flushed_spans_reach_log [of "\<lparr>swSpool = emptySpool, swNow = 7\<rparr>" "[]" goodOs liveClient "sampleBuffer ''op''"]
      represents_Nil goodOs_noFaults sampleBuffer_inv
    by (simp add: emptySpool_def liveClient_def sampleBuffer_def)
qed



end
