(* ===== verification/Frames.thy ===== *)
theory Frames
  imports GoText
begin

text \<open>
  \<open>profile_symbols.go\<close>: the package and module of a stack frame, and which frames are application
  code.  \<open>symEnv\<close> holds what the code asks the process once: \<open>CHRONOS_GO_MODULE_ROOT\<close>, the main
  module path of the build information and \<open>runtime.GOROOT()\<close>.  \<open>filepath.ToSlash\<close> is the identity,
  as on every system whose separator is the slash.
\<close>

record profileFrame =
  pfModule :: string
  pfFunction :: string
  pfFile :: string
  pfLine :: u32

record symEnv =
  syTables :: unicodeTables
  syModuleRoot :: string
  syMainPath :: "string option"
  syGoRoot :: string

definition internalModule :: string where
  "internalModule = ''internal''"

definition sdkPackage :: string where
  "sdkPackage = ''chronos.dev/collector/sdk/go''"

definition afterSlash :: "string \<Rightarrow> nat" where
  "afterSlash s = (case lastIndexByte s (CHR ''/'') of None \<Rightarrow> 0 | Some i \<Rightarrow> Suc i)"

definition packageOf :: "string \<Rightarrow> string" where
  "packageOf function =
     (let n = afterSlash function; segment = drop n function in
      case indexByte segment (CHR ''.'') of
        None \<Rightarrow> []
      | Some dot \<Rightarrow> if dot = 0 then [] else take n function @ take dot segment)"

definition mainModulePath :: "symEnv \<Rightarrow> string" where
  "mainModulePath E =
     (let env = trimSpace (syModuleRoot E) in
      if env \<noteq> [] then env
      else case syMainPath E of
        None \<Rightarrow> []
      | Some p \<Rightarrow> if p \<noteq> [] \<and> p \<noteq> ''command-line-arguments'' then p else [])"

definition inferModuleRoot :: "string \<Rightarrow> string" where
  "inferModuleRoot pkg =
     (let parts = splitByte (CHR ''/'') pkg in
      if CHR ''.'' \<in> set (hd parts)
      then (if length parts < 3 then pkg else joinStr ''/'' (take 3 parts))
      else hd parts)"

definition frameBaseName :: "string \<Rightarrow> string" where
  "frameBaseName path = drop (afterSlash path) path"

definition isSDKFrame :: "string \<Rightarrow> bool" where
  "isSDKFrame function \<longleftrightarrow> hasPrefix function (sdkPackage @ ''.'') \<or> hasPrefix function (sdkPackage @ ''/'')"

definition libraryMarkers :: "string list" where
  "libraryMarkers = [''/pkg/mod/'', ''/go/pkg/mod/'', ''/vendor/'', ''/src/runtime/'']"

definition trimRightSlash :: "string \<Rightarrow> string" where
  "trimRightSlash s = rev (dropWhile (\<lambda>c. c = CHR ''/'') (rev s))"

definition isLibraryFrame :: "symEnv \<Rightarrow> string \<Rightarrow> string \<Rightarrow> bool" where
  "isLibraryFrame E function file =
     (if function \<noteq> [] \<and> (hasPrefix function ''runtime.'' \<or> hasPrefix function ''runtime/''
           \<or> hasPrefix function ''runtime_asm'' \<or> isSDKFrame function) then True
      else if file = [] then False
      else (let lower = toLower (syTables E) file in
        if list_ex (containsStr lower) libraryMarkers then True
        else if syGoRoot E \<noteq> [] \<and> hasPrefix lower (trimRightSlash (toLower (syTables E) (syGoRoot E)) @ ''/'') then True
        else containsStr lower ''/go/src/''))"

definition frameModule :: "symEnv \<Rightarrow> string \<Rightarrow> string \<Rightarrow> string \<Rightarrow> string" where
  "frameModule E function file mappingModule =
     (if isLibraryFrame E function file then internalModule
      else (let pkg = packageOf function in
        if pkg = [] then mappingModule
        else (let root = (if mainModulePath E = [] then inferModuleRoot pkg else mainModulePath E) in
          if root = [] then pkg
          else if pkg = root then frameBaseName root
          else trimPrefix pkg (root @ ''/''))))"

definition userlandFrame :: "profileFrame \<Rightarrow> bool" where
  "userlandFrame f \<longleftrightarrow> pfFunction f \<noteq> [] \<and> pfModule f \<noteq> internalModule \<and> \<not> isSDKFrame (pfFunction f)"

definition hasUserlandFrame :: "profileFrame list \<Rightarrow> bool" where
  "hasUserlandFrame frames = list_ex userlandFrame frames"

text \<open>The loop of \<open>isSelfProfilingStack\<close>, with its flag.\<close>

fun selfProfilingFrom :: "bool \<Rightarrow> profileFrame list \<Rightarrow> bool" where
  "selfProfilingFrom sawSDK [] = sawSDK"
| "selfProfilingFrom sawSDK (f # fs) =
     (if pfFunction f = [] then selfProfilingFrom sawSDK fs
      else if isSDKFrame (pfFunction f) then selfProfilingFrom True fs
      else if pfModule f \<noteq> internalModule then False
      else selfProfilingFrom sawSDK fs)"

definition isSelfProfilingStack :: "profileFrame list \<Rightarrow> bool" where
  "isSelfProfilingStack frames = selfProfilingFrom False frames"

subsection \<open>Results\<close>

lemma isSDKFrame_nonempty: "isSDKFrame f \<Longrightarrow> f \<noteq> []"
  by (auto simp: isSDKFrame_def sdkPackage_def)

lemma selfProfilingFrom_iff:
  "selfProfilingFrom saw fs \<longleftrightarrow> \<not> hasUserlandFrame fs \<and> (saw \<or> list_ex (\<lambda>f. isSDKFrame (pfFunction f)) fs)"
  by (induction saw fs rule: selfProfilingFrom.induct)
    (auto simp: hasUserlandFrame_def userlandFrame_def dest: isSDKFrame_nonempty)

text \<open>
  C37: the profiler recognises itself.  The one-pass scan with its early exit is the same as asking
  that no frame is application code and some frame is the SDK's; so a stack with an application
  frame is never taken for the profiler observing itself.
\<close>

theorem self_profiling_iff:
  "isSelfProfilingStack fs = (\<not> hasUserlandFrame fs \<and> list_ex (\<lambda>f. isSDKFrame (pfFunction f)) fs)"
  by (simp add: isSelfProfilingStack_def selfProfilingFrom_iff)

lemma packageOf_symbol:
  assumes "dir = [] \<or> last dir = CHR ''/''" "CHR ''/'' \<notin> set seg" "CHR ''/'' \<notin> set rest"
    and "CHR ''.'' \<notin> set seg" "seg \<noteq> []"
  shows "packageOf (dir @ seg @ ''.'' @ rest) = dir @ seg"
proof -
  have n: "afterSlash (dir @ seg @ ''.'' @ rest) = length dir"
  proof (cases "dir = []")
    case True
    then have "lastIndexByte (dir @ seg @ ''.'' @ rest) (CHR ''/'') = None" using assms(2,3) by simp
    then show ?thesis unfolding afterSlash_def True by (simp only: option.case append_Nil list.size)
  next
    case False
    then obtain d where d: "dir = d @ [CHR ''/'']" using assms(1) by (metis append_butlast_last_id)
    have "lastIndexByte (d @ CHR ''/'' # (seg @ ''.'' @ rest)) (CHR ''/'') = Some (length d)"
      using assms(2,3) by (intro lastIndexByte_append) simp
    then show ?thesis by (simp add: afterSlash_def d)
  qed
  have "indexByte (seg @ CHR ''.'' # rest) (CHR ''.'') = Some (length seg)"
    using assms(4) by (rule indexByte_append)
  then show ?thesis using assms(5) n by (simp add: packageOf_def)
qed

text \<open>
  Application frames are grouped by their package inside the repository.  A symbol of the
  package \<open>root/rel\<close> that is not library code is shown under \<open>rel\<close> when the binary knows its main
  module \<open>root\<close>, whatever mapping the binary has.
\<close>

theorem app_frame_module:
  assumes "mainModulePath E = root" "root \<noteq> []"
    and "rel = dir @ seg" "dir = [] \<or> last dir = CHR ''/''" "CHR ''/'' \<notin> set seg" "CHR ''.'' \<notin> set seg" "seg \<noteq> []"
    and "CHR ''/'' \<notin> set name" "\<not> isLibraryFrame E (root @ ''/'' @ rel @ ''.'' @ name) file"
  shows "frameModule E (root @ ''/'' @ rel @ ''.'' @ name) file mapping = rel"
proof -
  have "packageOf ((root @ ''/'' @ dir) @ seg @ ''.'' @ name) = (root @ ''/'' @ dir) @ seg"
  proof (rule packageOf_symbol [OF _ assms(5,8,6,7)])
    have "last (root @ CHR ''/'' # dir) = CHR ''/''"
      using assms(4) unfolding last_append last.simps by (metis list.distinct(1))
    then show "root @ ''/'' @ dir = [] \<or> last (root @ ''/'' @ dir) = CHR ''/''" by simp
  qed
  then have "packageOf (root @ ''/'' @ rel @ ''.'' @ name) = root @ ''/'' @ rel" using assms(3) by simp
  moreover have "trimPrefix (root @ ''/'' @ rel) (root @ ''/'') = rel"
    using trimPrefix_append [of "root @ ''/''" rel] by simp
  ultimately show ?thesis using assms(1,2,9) by (simp add: frameModule_def Let_def)
qed

theorem app_frame_module_witness:
  "frameModule \<lparr>syTables = asciiTables, syModuleRoot = [], syMainPath = Some ''stock'', syGoRoot = []\<rparr>
     ''stock/internal/svc.(*Svc).Run'' ''/app/internal/svc/svc.go'' ''main'' = ''internal/svc''"
proof -
  let ?E = "\<lparr>syTables = asciiTables, syModuleRoot = [], syMainPath = Some ''stock'', syGoRoot = []\<rparr>"
  have "mainModulePath ?E = ''stock''" by (simp add: mainModulePath_def)
  moreover have "\<not> isLibraryFrame ?E ''stock/internal/svc.(*Svc).Run'' ''/app/internal/svc/svc.go''" by code_simp
  ultimately show ?thesis
    using app_frame_module [of ?E "''stock''" "''internal/svc''" "''internal/''" "''svc''" "''(*Svc).Run''" "''/app/internal/svc/svc.go''" "''main''"]
    by simp
qed

end
