(* ===== verification/ProfileSample.thy ===== *)
theory ProfileSample
  imports Tracing Frames
begin

text \<open>
  The sample records of \<open>profiling.go\<close>, their JSON, the labels every sample carries, and
  \<open>writeProfileSamples\<close>, which spools a list of samples in batches.
\<close>

record profileCorrelation =
  pcTraceID :: string
  pcSpanID :: string
  pcSessionID :: string

record profileSample =
  psOrganisation :: string
  psApplication :: applicationRef
  psSeriesID :: string
  psSequence :: string
  psSampledAt :: string
  psSampleType :: string
  psPeriod :: string
  psValue :: string
  psUnit :: string
  psStack :: "profileFrame list"
  psCorrelation :: "profileCorrelation option"
  psLabels :: attrs

record profileBatch =
  pbSchema :: string
  pbProcessing :: processingIdentity
  pbSamples :: "profileSample list"
  pbSampleCount :: string

text \<open>Arithmetic on \<open>int64\<close> wraps.\<close>

definition wrap64 :: "int \<Rightarrow> int" where
  "wrap64 x = (x + 9223372036854775808) mod 18446744073709551616 - 9223372036854775808"

lemma wrap64_id: "- 9223372036854775808 \<le> x \<Longrightarrow> x < 9223372036854775808 \<Longrightarrow> wrap64 x = x"
  by (simp add: wrap64_def)

subsection \<open>Records on the wire\<close>

definition marshalFrame :: "profileFrame \<Rightarrow> bytes" where
  "marshalFrame f = jsonObject (omitEmpty ''module'' (pfModule f) @ omitEmpty ''function'' (pfFunction f)
     @ omitEmpty ''file'' (pfFile f)
     @ (if pfLine f = 0 then [] else [(''line'', digits10 (unat (pfLine f)))]))"

definition marshalCorrelation :: "profileCorrelation \<Rightarrow> bytes" where
  "marshalCorrelation c = jsonObject (omitEmpty ''traceId'' (pcTraceID c) @ omitEmpty ''spanId'' (pcSpanID c)
     @ omitEmpty ''sessionId'' (pcSessionID c))"

definition marshalSample :: "profileSample \<Rightarrow> bytes" where
  "marshalSample s = jsonObject
     ([(''organisation'', marshalOrganisation (psOrganisation s)), (''application'', marshalApplication (psApplication s)),
       (''profileSeriesId'', jsonString (psSeriesID s)), (''sequence'', jsonString (psSequence s)),
       (''sampledAt'', jsonString (psSampledAt s)), (''sampleType'', jsonString (psSampleType s)),
       (''periodNanoseconds'', jsonString (psPeriod s)), (''value'', jsonString (psValue s)),
       (''unit'', jsonString (psUnit s)), (''stack'', jsonArray (map marshalFrame (psStack s)))]
      @ (case psCorrelation s of None \<Rightarrow> [] | Some c \<Rightarrow> [(''correlation'', marshalCorrelation c)])
      @ (if psLabels s = [] then [] else [(''labels'', jsonMap (psLabels s))]))"

definition marshalProfileBatch :: "profileBatch \<Rightarrow> bytes" where
  "marshalProfileBatch b = jsonObject
     [(''schema'', jsonString (pbSchema b)), (''processing'', marshalProcessing (pbProcessing b)),
      (''samples'', jsonArray (map marshalSample (pbSamples b))), (''sampleCount'', jsonString (pbSampleCount b))]"

subsection \<open>Building samples\<close>

text \<open>\<open>goVersion\<close> is \<open>runtime.Version()\<close>.\<close>

definition addLabel :: "string \<times> string \<Rightarrow> attrs \<Rightarrow> attrs" where
  "addLabel kv m = (if fst kv \<noteq> [] \<and> snd kv \<noteq> [] then AList.update (fst kv) (snd kv) m else m)"

definition baseProfileLabels :: "config \<Rightarrow> string \<Rightarrow> attrs \<Rightarrow> attrs" where
  "baseProfileLabels c goVersion extra =
     fold addLabel extra [(''service'', cfgServiceName c), (''go.version'', goVersion)]"

definition mkProfileSample ::
  "config \<Rightarrow> string \<Rightarrow> string \<Rightarrow> string \<Rightarrow> nat \<Rightarrow> int \<Rightarrow> int \<Rightarrow> int \<Rightarrow> profileFrame list \<Rightarrow> attrs
    \<Rightarrow> profileCorrelation option \<Rightarrow> profileSample" where
  "mkProfileSample c seriesID sampleType unit sequence at period val frames labels correlation =
     \<lparr>psOrganisation = organisationRef c, psApplication = appRef c, psSeriesID = seriesID,
      psSequence = itoa (int sequence), psSampledAt = formatRFC3339Nano at, psSampleType = sampleType,
      psPeriod = itoa period, psValue = itoa val, psUnit = unit, psStack = frames,
      psCorrelation = correlation, psLabels = labels\<rparr>"

subsection \<open>Spooling in batches\<close>

definition defaultBatchLimit :: nat where
  "defaultBatchLimit = 500"

definition profileLimit :: "config \<Rightarrow> nat" where
  "profileLimit c = (if cfgProfileBatchSize c \<le> 0 then defaultBatchLimit else nat (cfgProfileBatchSize c))"

lemma profileLimit_pos [simp]: "0 < profileLimit c"
  by (simp add: profileLimit_def defaultBatchLimit_def)

definition mkProfileBatch :: "config \<Rightarrow> int \<Rightarrow> string \<Rightarrow> nat \<Rightarrow> profileSample list \<Rightarrow> profileBatch" where
  "mkProfileBatch c now seriesID start chunk =
     \<lparr>pbSchema = ''chronos.profiling.sample-batch.v1'',
      pbProcessing = processing c (seedNow now @ seriesID @ itoa (int start)),
      pbSamples = chunk, pbSampleCount = itoa (int (length chunk))\<rparr>"

text \<open>
  The loop from \<open>start\<close>; \<open>wj\<close> is \<open>WriteJSON\<close> on the spool state and tells whether it succeeded.
  The limit is never 0 (\<open>profileLimit_pos\<close>), so the loop always ends.
\<close>

function writeChunks ::
  "(profileBatch \<Rightarrow> 'w \<Rightarrow> bool \<times> 'w) \<Rightarrow> ('w \<Rightarrow> int) \<Rightarrow> config \<Rightarrow> string \<Rightarrow> nat \<Rightarrow> profileSample list \<Rightarrow> nat
    \<Rightarrow> 'w \<Rightarrow> bool \<times> 'w" where
  "writeChunks wj clock c seriesID limit samples start w =
     (if start \<ge> length samples \<or> limit = 0 then (True, w)
      else (case wj (mkProfileBatch c (clock w) seriesID start (take limit (drop start samples))) w of
          (True, w') \<Rightarrow> writeChunks wj clock c seriesID limit samples (start + limit) w'
        | (False, w') \<Rightarrow> (False, w')))"
  by pat_completeness auto
termination by (relation "measure (\<lambda>(_, _, _, _, _, samples, start, _). length samples - start)") auto

declare writeChunks.simps [simp del]

definition writeProfileSamples ::
  "(profileBatch \<Rightarrow> 'w \<Rightarrow> bool \<times> 'w) \<Rightarrow> ('w \<Rightarrow> int) \<Rightarrow> config \<Rightarrow> string \<Rightarrow> profileSample list \<Rightarrow> 'w \<Rightarrow> bool \<times> 'w" where
  "writeProfileSamples wj clock c seriesID samples w =
     (if samples = [] then (True, w) else writeChunks wj clock c seriesID (profileLimit c) samples 0 w)"

text \<open>A sink that records the batches it accepts.\<close>

definition logSink :: "(profileBatch list \<Rightarrow> profileBatch \<Rightarrow> bool) \<Rightarrow> profileBatch \<Rightarrow> profileBatch list \<Rightarrow> bool \<times> profileBatch list" where
  "logSink accepts b bs = (if accepts bs b then (True, bs @ [b]) else (False, bs))"

lemma writeChunks_log:
  assumes "0 < limit"
  shows "\<exists>new rest. snd (writeChunks (logSink accepts) clock c seriesID limit samples start bs) = bs @ new
    \<and> list_all (\<lambda>b. pbSamples b \<noteq> [] \<and> length (pbSamples b) \<le> limit \<and> pbSampleCount b = itoa (int (length (pbSamples b)))) new
    \<and> drop start samples = concat (map pbSamples new) @ rest
    \<and> fst (writeChunks (logSink accepts) clock c seriesID limit samples start bs) = (rest = [])"
    (is "\<exists>new rest. ?P start bs new rest")
proof (induction "length samples - start" arbitrary: start bs rule: less_induct)
  case less
  let ?chunk = "take limit (drop start samples)"
  let ?b = "mkProfileBatch c (clock bs) seriesID start ?chunk"
  note unfold = writeChunks.simps [of "logSink accepts" clock c seriesID limit samples start bs]
  show ?case
  proof (cases "start \<ge> length samples")
    case True
    then have "?P start bs [] []" by (simp add: unfold)
    then show ?thesis by blast
  next
    case more: False
    show ?thesis
    proof (cases "accepts bs ?b")
      case True
      then have step: "writeChunks (logSink accepts) clock c seriesID limit samples start bs
          = writeChunks (logSink accepts) clock c seriesID limit samples (start + limit) (bs @ [?b])"
        using more assms by (simp add: unfold logSink_def)
      have "length samples - (start + limit) < length samples - start" using more assms by linarith
      from less.hyps [OF this] obtain new rest where IH: "?P (start + limit) (bs @ [?b]) new rest"
        by blast
      have "drop start samples = ?chunk @ drop (start + limit) samples"
        by (metis append_take_drop_id drop_drop add.commute)
      then have "?P start bs (?b # new) rest"
        using IH more assms unfolding step by (simp add: mkProfileBatch_def)
      then show ?thesis by blast
    next
      case False
      then have "logSink accepts ?b bs = (False, bs)" by (simp add: logSink_def)
      then have "?P start bs [] (drop start samples)" using more assms by (simp add: unfold)
      then show ?thesis by blast
    qed
  qed
qed

lemma writeChunks_all:
  "0 < limit \<Longrightarrow> fst (writeChunks (logSink (\<lambda>_ _. True)) clock c seriesID limit samples start bs)
    \<and> concat (map pbSamples (snd (writeChunks (logSink (\<lambda>_ _. True)) clock c seriesID limit samples start bs)))
       = concat (map pbSamples bs) @ drop start samples"
proof (induction "length samples - start" arbitrary: start bs rule: less_induct)
  case less
  note unfold = writeChunks.simps [of "logSink (\<lambda>_ _. True)" clock c seriesID limit samples start bs]
  show ?case
  proof (cases "start \<ge> length samples")
    case True
    then show ?thesis by (simp add: unfold)
  next
    case False
    then have "length samples - (start + limit) < length samples - start" using less.prems by linarith
    note IH = less.hyps [OF this less.prems]
    have "take limit (drop start samples) @ drop (start + limit) samples = drop start samples"
      by (metis append_take_drop_id drop_drop add.commute)
    moreover have "logSink (\<lambda>_ _. True) b bs = (True, bs @ [b])" for b by (simp add: logSink_def)
    ultimately show ?thesis using False less.prems IH by (simp add: unfold mkProfileBatch_def)
  qed
qed

lemma writeProfileSamples_all:
  "fst (writeProfileSamples (logSink (\<lambda>_ _. True)) clock c seriesID samples [])
    \<and> concat (map pbSamples (snd (writeProfileSamples (logSink (\<lambda>_ _. True)) clock c seriesID samples []))) = samples"
  using writeChunks_all [of "profileLimit c" clock c seriesID samples 0 "[]"]
  by (simp add: writeProfileSamples_def)

text \<open>
  C22: no profile document is over the ingest cap and no sample is written twice or skipped.
  Whatever batches the spool refuses, \<open>writeProfileSamples\<close> returns, having written the samples in
  order from the first, in non-empty batches of at most the limit each; and it reports success
  exactly when all of them were written.
\<close>

theorem profile_batches:
  "\<exists>new rest. snd (writeProfileSamples (logSink accepts) clock c seriesID samples bs) = bs @ new
    \<and> list_all (\<lambda>b. pbSamples b \<noteq> [] \<and> length (pbSamples b) \<le> profileLimit c \<and> pbSampleCount b = itoa (int (length (pbSamples b)))) new
    \<and> samples = concat (map pbSamples new) @ rest
    \<and> fst (writeProfileSamples (logSink accepts) clock c seriesID samples bs) = (rest = [])"
proof (cases "samples = []")
  case False
  then show ?thesis
    using writeChunks_log [of "profileLimit c" accepts clock c seriesID samples 0 bs]
    by (simp add: writeProfileSamples_def)
qed (auto simp: writeProfileSamples_def intro: exI [of _ "[]"])

end
