(* ===== verification/ProfileWall.thy ===== *)
theory ProfileWall
  imports ProfileSample
begin

text \<open>
  \<open>profile_wall.go\<close>: the goroutine sampler, the classification of parked stacks, and the WALL and
  OFF_CPU samples.  \<open>runtime.CallersFrames\<close> is the argument \<open>resolve\<close> (leaf first), the hash of a
  stack the argument \<open>h\<close>; the order of a bucket list is the order Go ranges over the map in.
\<close>

subsection \<open>Why a goroutine is parked\<close>

datatype waitKind = WaitRunning | WaitIO | WaitLock | WaitChan | WaitAccept | WaitSleep | WaitGC | WaitOther

instantiation waitKind :: enum
begin

definition enum_waitKind :: "waitKind list" where
  "enum_waitKind = [WaitRunning, WaitIO, WaitLock, WaitChan, WaitAccept, WaitSleep, WaitGC, WaitOther]"

definition enum_all_waitKind :: "(waitKind \<Rightarrow> bool) \<Rightarrow> bool" where
  "enum_all_waitKind P = list_all P [WaitRunning, WaitIO, WaitLock, WaitChan, WaitAccept, WaitSleep, WaitGC, WaitOther]"

definition enum_ex_waitKind :: "(waitKind \<Rightarrow> bool) \<Rightarrow> bool" where
  "enum_ex_waitKind P = list_ex P [WaitRunning, WaitIO, WaitLock, WaitChan, WaitAccept, WaitSleep, WaitGC, WaitOther]"

instance
proof
  have "k \<in> set enum_class.enum" for k :: waitKind
    by (cases k) (simp_all add: enum_waitKind_def)
  then show U: "UNIV = set (enum_class.enum :: waitKind list)" by blast
  show "distinct (enum_class.enum :: waitKind list)" by (simp add: enum_waitKind_def)
  show "enum_class.enum_all P \<longleftrightarrow> Ball UNIV P" for P :: "waitKind \<Rightarrow> bool"
    by (simp add: U enum_all_waitKind_def enum_waitKind_def)
  show "enum_class.enum_ex P \<longleftrightarrow> Bex UNIV P" for P :: "waitKind \<Rightarrow> bool"
    by (simp add: U enum_ex_waitKind_def enum_waitKind_def)
qed

end

fun waitLabel :: "waitKind \<Rightarrow> string" where
  "waitLabel WaitIO = ''io''"
| "waitLabel WaitLock = ''lock''"
| "waitLabel WaitChan = ''chan''"
| "waitLabel WaitAccept = ''accept''"
| "waitLabel WaitSleep = ''sleep''"
| "waitLabel WaitGC = ''gc''"
| "waitLabel WaitOther = ''parked''"
| "waitLabel WaitRunning = ''running''"

definition waitBlocked :: "waitKind \<Rightarrow> bool" where
  "waitBlocked k \<longleftrightarrow> k \<noteq> WaitRunning \<and> k \<noteq> WaitGC"

definition waitIdle :: "waitKind \<Rightarrow> bool" where
  "waitIdle k \<longleftrightarrow> k = WaitChan \<or> k = WaitAccept"

definition parkPrefixes :: "string list" where
  "parkPrefixes = [''runtime.gopark'', ''runtime.goparkunlock'', ''runtime.selectgo'', ''runtime.notetsleep'',
     ''runtime.semacquire'', ''runtime.chanrecv'', ''runtime.chansend'', ''runtime.block'']"

definition isParkPrimitive :: "string \<Rightarrow> bool" where
  "isParkPrimitive function = list_ex (hasPrefix function) parkPrefixes"

definition acceptPrefixes :: "string list" where
  "acceptPrefixes = [''internal/poll.(*FD).Accept'', ''net.(*netFD).accept'', ''net.(*TCPListener).Accept'',
     ''net.(*TCPListener).accept'', ''net.(*UnixListener).accept'', ''net/http.(*Server).Serve'']"

definition isAcceptStack :: "profileFrame list \<Rightarrow> bool" where
  "isAcceptStack frames = list_ex (\<lambda>f. list_ex (hasPrefix (pfFunction f)) acceptPrefixes) frames"

text \<open>The \<open>switch\<close> inside the leaf-ward scan, in the order of its cases.\<close>

definition waitReasons :: "(string list \<times> waitKind) list" where
  "waitReasons =
     [([''internal/poll.runtime_pollWait'', ''internal/poll.(*FD)'', ''internal/poll.(*pollDesc)'',
        ''net.(*netFD)'', ''net.(*conn)'', ''os.(*File)''], WaitIO),
      ([''sync.runtime_Semacquire'', ''sync.runtime_SemacquireMutex'', ''sync.runtime_SemacquireWaitGroup'',
        ''sync.runtime_notifyListWait'', ''sync.(*Mutex)'', ''sync.(*RWMutex)'', ''sync.(*WaitGroup)'', ''sync.(*Cond)''], WaitLock),
      ([''runtime.chanrecv'', ''runtime.chansend'', ''runtime.selectgo''], WaitChan),
      ([''time.Sleep'', ''runtime.timeSleep''], WaitSleep),
      ([''runtime.gcBgMarkWorker'', ''runtime.bgsweep'', ''runtime.bgscavenge'', ''runtime.forcegchelper'', ''runtime.runfinq''], WaitGC)]"

definition waitReason :: "string \<Rightarrow> waitKind option" where
  "waitReason fn = map_option snd (List.find (\<lambda>(ps, _). list_ex (hasPrefix fn) ps) waitReasons)"

fun scanWaits :: "profileFrame list \<Rightarrow> waitKind" where
  "scanWaits [] = WaitOther"
| "scanWaits (f # fs) = (case waitReason (pfFunction f) of Some k \<Rightarrow> k | None \<Rightarrow> scanWaits fs)"

definition classifyWait :: "profileFrame list \<Rightarrow> waitKind" where
  "classifyWait frames =
     (if frames = [] then WaitRunning
      else if \<not> isParkPrimitive (pfFunction (last frames)) then WaitRunning
      else if isAcceptStack frames then WaitAccept
      else scanWaits (rev frames))"

subsection \<open>The sampler\<close>

record wallBucket =
  wbPcs :: "u64 list"
  wbTicks :: int

record wallSampler =
  wsBuckets :: "(u64 \<times> wallBucket) list"
  wsMaxStacks :: int
  wsDropped :: int
  wsTicks :: int

definition newWallSampler :: "int \<Rightarrow> wallSampler" where
  "newWallSampler maxStacks =
     \<lparr>wsBuckets = [], wsMaxStacks = (if maxStacks \<le> 0 then 4096 else maxStacks), wsDropped = 0, wsTicks = 0\<rparr>"

text \<open>One stack of a snapshot; the empty stacks are skipped.\<close>

definition wsBank :: "(u64 list \<Rightarrow> u64) \<Rightarrow> u64 list \<Rightarrow> wallSampler \<Rightarrow> wallSampler" where
  "wsBank h pcs w =
     (if pcs = [] then w
      else (case map_of (wsBuckets w) (h pcs) of
          Some b \<Rightarrow> w\<lparr>wsBuckets := AList.update (h pcs) (b\<lparr>wbTicks := wbTicks b + 1\<rparr>) (wsBuckets w)\<rparr>
        | None \<Rightarrow>
            if int (length (wsBuckets w)) \<ge> wsMaxStacks w then w\<lparr>wsDropped := wsDropped w + 1\<rparr>
            else w\<lparr>wsBuckets := AList.update (h pcs) \<lparr>wbPcs = pcs, wbTicks = 1\<rparr> (wsBuckets w)\<rparr>))"

definition wsSample :: "(u64 list \<Rightarrow> u64) \<Rightarrow> u64 list list option \<Rightarrow> wallSampler \<Rightarrow> wallSampler" where
  "wsSample h snap w =
     (case snap of None \<Rightarrow> w
      | Some stacks \<Rightarrow> fold (wsBank h) stacks (w\<lparr>wsTicks := wsTicks w + 1\<rparr>))"



text \<open>\<open>sort.Slice\<close> leaves the order of buckets with the same count open; here it is that of the map.\<close>

definition wsDrain :: "wallSampler \<Rightarrow> (wallBucket list \<times> int \<times> int) \<times> wallSampler" where
  "wsDrain w = ((sort_key (\<lambda>b. - wbTicks b) (map snd (wsBuckets w)), wsTicks w, wsDropped w),
     w\<lparr>wsBuckets := [], wsTicks := 0, wsDropped := 0\<rparr>)"

subsection \<open>Samples\<close>

record rawFrame =
  rfPC :: u64
  rfFunction :: string
  rfFile :: string
  rfLine :: int

definition lineNumber :: "int \<Rightarrow> u32" where
  "lineNumber line = (if line \<le> 0 \<or> line \<ge> 2147483648 then 0 else of_int line)"

definition symbolizeRootFirst :: "symEnv \<Rightarrow> (u64 list \<Rightarrow> rawFrame list) \<Rightarrow> u64 list \<Rightarrow> profileFrame list" where
  "symbolizeRootFirst E resolve pcs =
     (if pcs = [] then []
      else rev (map (\<lambda>f. \<lparr>pfModule = frameModule E (rfFunction f) (rfFile f) [], pfFunction = rfFunction f,
                    pfFile = rfFile f, pfLine = lineNumber (rfLine f)\<rparr>)
                (filter (\<lambda>f. rfFunction f \<noteq> [] \<or> rfPC f \<noteq> 0) (resolve pcs))))"

definition samplesForFrames ::
  "config \<Rightarrow> string \<Rightarrow> int \<Rightarrow> profileFrame list \<Rightarrow> int \<Rightarrow> int \<Rightarrow> profileSample list \<times> profileSample list" where
  "samplesForFrames c goVersion now frames ticks interval =
     (if interval \<le> 0 \<or> ticks \<le> 0 \<or> \<not> hasUserlandFrame frames \<or> isSelfProfilingStack frames then ([], [])
      else (let kind = classifyWait frames in
        if kind = WaitGC then ([], [])
        else if waitIdle kind \<and> cfgWallExcludeIdle c then ([], [])
        else (let nanos = wrap64 (ticks * interval);
                  labels = baseProfileLabels c goVersion [(''wait'', waitLabel kind)];
                  mk = (\<lambda>series kindName. mkProfileSample c series kindName ''nanoseconds'' 1 now interval nanos frames labels None)
              in ([mk ''go-wall'' ''PROFILE_SAMPLE_TYPE_WALL''],
                  if waitBlocked kind then [mk ''go-offcpu'' ''PROFILE_SAMPLE_TYPE_OFF_CPU''] else []))))"

definition renumber :: "profileSample list \<Rightarrow> profileSample list" where
  "renumber ss = map (\<lambda>(i, s). s\<lparr>psSequence := itoa (int (Suc i))\<rparr>) (enumerate 0 ss)"

text \<open>\<open>now i\<close> is the clock when bucket \<open>i\<close> is turned into samples.\<close>

definition wallSamplesFrom ::
  "config \<Rightarrow> string \<Rightarrow> (u64 list \<Rightarrow> profileFrame list) \<Rightarrow> (nat \<Rightarrow> int) \<Rightarrow> wallBucket list \<Rightarrow> int
    \<Rightarrow> profileSample list \<times> profileSample list" where
  "wallSamplesFrom c goVersion symbolize now buckets interval =
     (if interval \<le> 0 then ([], [])
      else (let rs = map (\<lambda>(i, b). samplesForFrames c goVersion (now i) (symbolize (wbPcs b)) (wbTicks b) interval) (enumerate 0 buckets)
            in (renumber (concat (map fst rs)), renumber (concat (map snd rs)))))"

text \<open>\<open>flushWallProfiles\<close>; \<open>None\<close> is a client without a sampler.\<close>

definition flushWallProfiles ::
  "(profileBatch \<Rightarrow> 'w \<Rightarrow> bool \<times> 'w) \<Rightarrow> ('w \<Rightarrow> int) \<Rightarrow> config \<Rightarrow> string \<Rightarrow> (u64 list \<Rightarrow> profileFrame list) \<Rightarrow> (nat \<Rightarrow> int)
    \<Rightarrow> wallSampler option \<Rightarrow> 'w \<Rightarrow> bool \<times> wallSampler option \<times> 'w" where
  "flushWallProfiles wj clock c goVersion symbolize now sampler w = (case sampler of
     None \<Rightarrow> (True, None, w)
   | Some s \<Rightarrow> (case wsDrain s of ((buckets, ticks, _), s') \<Rightarrow>
       if ticks = 0 \<or> buckets = [] then (True, Some s', w)
       else (case wallSamplesFrom c goVersion symbolize now buckets (cfgWallSampleInterval c) of (wall, offCPU) \<Rightarrow>
         (case writeProfileSamples wj clock c ''go-wall'' wall w of
            (False, w1) \<Rightarrow> (False, Some s', w1)
          | (True, w1) \<Rightarrow> (case writeProfileSamples wj clock c ''go-offcpu'' offCPU w1 of (ok, w2) \<Rightarrow> (ok, Some s', w2))))))"

subsection \<open>Results\<close>

lemma waitLabel_inject: "waitLabel k = waitLabel l \<longleftrightarrow> k = l"
proof -
  have "distinct (map waitLabel enum_class.enum)" by (simp add: enum_waitKind_def)
  then have "inj_on waitLabel (set enum_class.enum)" by (simp add: distinct_map)
  then show ?thesis by (simp add: inj_eq flip: UNIV_enum)
qed

lemma waitLabel_nonempty [simp]: "waitLabel k \<noteq> []"
  by (cases k) simp_all

text \<open>Counting ticks: the total in the buckets.\<close>

definition bankedTicks :: "wallSampler \<Rightarrow> int" where
  "bankedTicks w = sum_list (map (wbTicks \<circ> snd) (wsBuckets w))"

definition wsInv :: "wallSampler \<Rightarrow> bool" where
  "wsInv w \<longleftrightarrow> wf_map (wsBuckets w) \<and> int (length (wsBuckets w)) \<le> wsMaxStacks w"

lemma sum_update:
  "wf_map m \<Longrightarrow> map_of m k = Some b \<Longrightarrow>
   sum_list (map (wbTicks \<circ> snd) (AList.update k b' m)) = sum_list (map (wbTicks \<circ> snd) m) - wbTicks b + wbTicks b'"
  by (induction m) (auto simp: wf_map_def split: if_splits)

lemma wsBank_step:
  assumes "wsInv w" "pcs \<noteq> []"
  shows "wsInv (wsBank h pcs w) \<and> wsTicks (wsBank h pcs w) = wsTicks w \<and> wsMaxStacks (wsBank h pcs w) = wsMaxStacks w
    \<and> bankedTicks (wsBank h pcs w) + wsDropped (wsBank h pcs w) = bankedTicks w + wsDropped w + 1"
proof (cases "map_of (wsBuckets w) (h pcs)")
  case None
  note upd = update_new [OF this]
  have new: "h pcs \<notin> fst ` set (wsBuckets w)" using None map_of_None_iff by metis
  show ?thesis
    unfolding wsBank_def None upd
    using assms new by (auto simp: bankedTicks_def wsInv_def wf_map_def)
next
  case (Some b)
  then have "h pcs \<in> fst ` set (wsBuckets w)" by (metis map_of_None_iff option.distinct(1))
  then show ?thesis
    using Some assms by (simp add: wsBank_def bankedTicks_def wsInv_def sum_update length_update)
qed

lemma wsBank_Nil [simp]: "wsBank h [] w = w"
  by (simp add: wsBank_def)

lemma wsBank_fold:
  "wsInv w \<Longrightarrow> wsInv (fold (wsBank h) stacks w) \<and> wsTicks (fold (wsBank h) stacks w) = wsTicks w
    \<and> wsMaxStacks (fold (wsBank h) stacks w) = wsMaxStacks w
    \<and> bankedTicks (fold (wsBank h) stacks w) + wsDropped (fold (wsBank h) stacks w)
       = bankedTicks w + wsDropped w + int (length (filter (\<lambda>s. s \<noteq> []) stacks))"
proof (induction stacks arbitrary: w)
  case (Cons pcs stacks)
  show ?case
  proof (cases "pcs = []")
    case True
    then show ?thesis using Cons.IH [OF Cons.prems] by simp
  next
    case False
    from wsBank_step [OF Cons.prems False, of h] Cons.IH [of "wsBank h pcs w"] False show ?thesis by simp
  qed
qed simp

text \<open>The stacks of a window of snapshots, as banked.\<close>

definition windowStacks :: "u64 list list option list \<Rightarrow> u64 list list" where
  "windowStacks snaps = filter (\<lambda>s. s \<noteq> []) (concat (map (case_option [] id) snaps))"

lemma wsSample_window:
  "wsInv w \<Longrightarrow> wsInv (fold (wsSample h) snaps w)
    \<and> wsMaxStacks (fold (wsSample h) snaps w) = wsMaxStacks w
    \<and> wsTicks (fold (wsSample h) snaps w) = wsTicks w + int (length (filter (\<lambda>s. s \<noteq> None) snaps))
    \<and> bankedTicks (fold (wsSample h) snaps w) + wsDropped (fold (wsSample h) snaps w)
       = bankedTicks w + wsDropped w + int (length (windowStacks snaps))"
proof (induction snaps arbitrary: w)
  case (Cons snap snaps)
  show ?case
  proof (cases snap)
    case None
    then show ?thesis using Cons by (simp add: wsSample_def windowStacks_def)
  next
    case (Some stacks)
    let ?w = "w\<lparr>wsTicks := wsTicks w + 1\<rparr>"
    have "wsInv ?w" "bankedTicks ?w = bankedTicks w" using Cons.prems by (simp_all add: wsInv_def bankedTicks_def)
    with wsBank_fold [of ?w h stacks] Cons.IH [of "fold (wsBank h) stacks ?w"] Some show ?thesis
      by (simp add: wsSample_def windowStacks_def)
  qed
qed (simp add: windowStacks_def)

text \<open>
  C20: no goroutine-tick is lost or counted twice.  After any window of snapshots from a drained
  sampler, the ticks banked and the stacks counted as dropped add up to the non-empty stacks seen,
  at most \<open>maxStacks\<close> buckets are held, each hash once, and draining empties the sampler and hands
  the buckets over in descending order of ticks.
\<close>

theorem wall_ticks_conserved:
  "(let w = fold (wsSample h) snaps (newWallSampler maxStacks); d = wsDrain w in
     bankedTicks w + wsDropped w = int (length (windowStacks snaps))
     \<and> int (length (wsBuckets w)) \<le> wsMaxStacks (newWallSampler maxStacks) \<and> wf_map (wsBuckets w)
     \<and> wsTicks w = int (length (filter (\<lambda>s. s \<noteq> None) snaps))
     \<and> sorted (rev (map wbTicks (fst (fst d)))) \<and> mset (fst (fst d)) = mset (map snd (wsBuckets w))
     \<and> snd d = newWallSampler maxStacks)"
proof -
  let ?start = "newWallSampler maxStacks" and ?w = "fold (wsSample h) snaps (newWallSampler maxStacks)"
  have inv: "wsInv ?start" "bankedTicks ?start = 0" "wsDropped ?start = 0" "wsTicks ?start = 0" "wsBuckets ?start = []"
    by (simp_all add: newWallSampler_def wsInv_def bankedTicks_def)
  note W = wsSample_window [OF inv(1), of h snaps]
  have drained: "snd (wsDrain ?w) = ?start"
    using W by (simp add: wsDrain_def newWallSampler_def)
  have "sorted (map (\<lambda>b. - wbTicks b) (fst (fst (wsDrain ?w))))" by (simp add: wsDrain_def)
  then have "sorted (rev (map wbTicks (fst (fst (wsDrain ?w)))))"
    by (simp add: sorted_wrt_map sorted_wrt_rev)
  moreover have "mset (fst (fst (wsDrain ?w))) = mset (map snd (wsBuckets ?w))" by (simp add: wsDrain_def)
  ultimately show ?thesis using W inv drained by (simp add: Let_def wsInv_def)
qed


subsubsection \<open>Classification\<close>

lemma scanWaits_skip:
  "list_all (\<lambda>g. waitReason (pfFunction g) = None) gs \<Longrightarrow> scanWaits (gs @ fs) = scanWaits fs"
  by (induction gs) simp_all

text \<open>
  The innermost wait wins.  On a parked stack that is not an accept loop, the classification is
  the reason of the last frame that has one, whatever the frames above it would say.
\<close>

theorem innermost_wait_wins:
  assumes "isParkPrimitive (pfFunction (last (outer @ f # inner)))" "\<not> isAcceptStack (outer @ f # inner)"
    and "waitReason (pfFunction f) = Some k" "list_all (\<lambda>g. waitReason (pfFunction g) = None) inner"
  shows "classifyWait (outer @ f # inner) = k"
proof -
  have "scanWaits (rev inner @ f # rev outer) = k"
    using scanWaits_skip [of "rev inner"] assms(3,4) by simp
  then show ?thesis using assms(1,2) by (simp add: classifyWait_def)
qed

definition fnFrame :: "string \<Rightarrow> profileFrame" where
  "fnFrame fn = \<lparr>pfModule = internalModule, pfFunction = fn, pfFile = [], pfLine = 0\<rparr>"

lemmas classify_defs = isParkPrimitive_def parkPrefixes_def isAcceptStack_def acceptPrefixes_def waitReason_def
  waitReasons_def fnFrame_def hasPrefix_def

theorem innermost_wait_wins_witness:
  "classifyWait ([fnFrame ''sync.(*Mutex).Lock''] @ fnFrame ''internal/poll.runtime_pollWait'' # [fnFrame ''runtime.gopark'']) = WaitIO"
  by (rule innermost_wait_wins) (simp_all add: classify_defs)

text \<open>
  The accept test takes a request handler for an idle server loop.  The prefix
  \<open>net/http.(*Server).Serve\<close> also matches the closure \<open>Serve\<close> starts for each connection
  (\<open>Serve.gowrap3\<close>); with that frame at the root, a handler parked on a database read is classified
  \<open>accept\<close>, without it \<open>io\<close>, and with idle stacks excluded it leaves no sample.
\<close>

theorem accept_prefix_takes_handlers:
  "(let handler = [fnFrame ''net/http.(*conn).serve'', (fnFrame ''shop/cart.Load'')\<lparr>pfModule := ''cart''\<rparr>,
         fnFrame ''net.(*conn).Read'', fnFrame ''internal/poll.runtime_pollWait'', fnFrame ''runtime.gopark''];
       served = fnFrame ''net/http.(*Server).Serve.gowrap3'' # handler
    in classifyWait handler = WaitIO \<and> classifyWait served = WaitAccept
       \<and> samplesForFrames (liveConfig\<lparr>cfgWallExcludeIdle := True\<rparr>) goVersion now served ticks interval = ([], []))"
  by (simp add: Let_def classifyWait_def classify_defs samplesForFrames_def waitIdle_def)

subsubsection \<open>WALL and OFF_CPU\<close>

text \<open>What a WALL and an OFF_CPU sample of one stack share.\<close>

definition sampleBody :: "profileSample \<Rightarrow> profileFrame list \<times> string \<times> string \<times> attrs" where
  "sampleBody s = (psStack s, psPeriod s, psValue s, psLabels s)"

definition parkedLabels :: "attrs \<Rightarrow> bool" where
  "parkedLabels labels \<longleftrightarrow> map_of labels ''wait'' \<noteq> Some ''running''"

lemma map_of_wait_label: "map_of (baseProfileLabels c g [(''wait'', waitLabel k)]) ''wait'' = Some (waitLabel k)"
  by (simp add: baseProfileLabels_def addLabel_def)

lemma samples_parked:
  "filter (\<lambda>b. parkedLabels (snd (snd (snd b)))) (map sampleBody (fst (samplesForFrames c g now frames ticks interval)))
     = map sampleBody (snd (samplesForFrames c g now frames ticks interval))"
  using map_of_wait_label [of c g "classifyWait frames"] waitLabel_inject [of "classifyWait frames" WaitRunning]
  by (simp add: samplesForFrames_def Let_def sampleBody_def parkedLabels_def mkProfileSample_def waitBlocked_def)

lemma sampleBody_sequence [simp]: "sampleBody (s\<lparr>psSequence := q\<rparr>) = sampleBody s"
  by (simp add: sampleBody_def)

lemma renumber_body [simp]: "map sampleBody (renumber ss) = map sampleBody ss"
  by (rule nth_equalityI) (simp_all add: renumber_def nth_enumerate_eq)

lemma renumber_sequence: "map psSequence (renumber ss) = map (\<lambda>i. itoa (int (Suc i))) [0..<length ss]"
  by (rule nth_equalityI) (simp_all add: renumber_def nth_enumerate_eq)

text \<open>
  C21: off-CPU time is a part of wall time.  The OFF_CPU samples of a flush are exactly its WALL
  samples whose \<open>wait\<close> label is not \<open>running\<close>, with the same stacks, periods, values and labels and in
  the same order; both series are numbered from 1 without gaps.
\<close>

theorem offcpu_within_wall:
  "case wallSamplesFrom c goVersion symbolize now buckets interval of (wall, offCPU) \<Rightarrow>
     map sampleBody offCPU = filter (\<lambda>b. parkedLabels (snd (snd (snd b)))) (map sampleBody wall)
     \<and> map psSequence wall = map (\<lambda>i. itoa (int (Suc i))) [0..<length wall]
     \<and> map psSequence offCPU = map (\<lambda>i. itoa (int (Suc i))) [0..<length offCPU]"
proof (cases "interval \<le> 0")
  case False
  let ?P = "\<lambda>b. parkedLabels (snd (snd (snd b)))"
  define rs where "rs = map (\<lambda>(i, b). samplesForFrames c goVersion (now i) (symbolize (wbPcs b)) (wbTicks b) interval) (enumerate 0 buckets)"
  have "list_all (\<lambda>r. filter ?P (map sampleBody (fst r)) = map sampleBody (snd r)) rs"
    by (simp add: rs_def list_all_iff case_prod_unfold samples_parked)
  then have "filter ?P (map sampleBody (concat (map fst rs))) = map sampleBody (concat (map snd rs))"
    by (induction rs) simp_all
  moreover have "wallSamplesFrom c goVersion symbolize now buckets interval = (renumber (concat (map fst rs)), renumber (concat (map snd rs)))"
    using False by (simp add: wallSamplesFrom_def rs_def Let_def)
  moreover have "length (renumber ss) = length ss" for ss by (simp add: renumber_def)
  ultimately show ?thesis by (simp add: renumber_sequence)
qed (simp add: wallSamplesFrom_def)

end
