(* ===== verification/ProfileIO.thy ===== *)
theory ProfileIO
  imports ProfileWall
begin

text \<open>
  \<open>profile_io.go\<close>: the buffer of measured blocking calls and the samples made of them.  The call
  stack \<open>runtime.Callers\<close> sees past the skipped frames is the argument \<open>stack\<close>.
\<close>

record ioWait =
  iwPcs :: "u64 list"
  iwOp :: string
  iwSystem :: string
  iwNanos :: int
  iwAt :: int
  iwTraceID :: string
  iwSpanID :: string

record ioRecorder =
  irWaits :: "ioWait list"
  irMax :: int
  irMaxDepth :: int
  irDropped :: int

definition newIORecorder :: "int \<Rightarrow> int \<Rightarrow> ioRecorder" where
  "newIORecorder mx maxDepth =
     \<lparr>irWaits = [], irMax = (if mx \<le> 0 then 4096 else mx), irMaxDepth = (if maxDepth \<le> 0 then 64 else maxDepth), irDropped = 0\<rparr>"

definition ioAdd :: "ioWait \<Rightarrow> ioRecorder \<Rightarrow> ioRecorder" where
  "ioAdd w r =
     (if int (length (irWaits r)) \<ge> irMax r then r\<lparr>irDropped := irDropped r + 1\<rparr>
      else r\<lparr>irWaits := irWaits r @ [w]\<rparr>)"

definition ioDrain :: "ioRecorder \<Rightarrow> ioWait list \<times> ioRecorder" where
  "ioDrain r = (irWaits r, r\<lparr>irWaits := []\<rparr>)"

interpretation ios: drop_newest ioAdd irWaits "\<lambda>r. nat (irMax r)" irDropped
  by unfold_locales (auto simp: ioAdd_def)

text \<open>
  \<open>recordIOWait\<close> on a client with the configuration \<open>c\<close> and, if it has one, the recorder.
\<close>

definition recordIOWait ::
  "config \<Rightarrow> u64 list \<Rightarrow> int \<Rightarrow> ctx \<Rightarrow> string \<Rightarrow> string \<Rightarrow> int \<Rightarrow> ioRecorder option \<Rightarrow> ioRecorder option" where
  "recordIOWait c stack now cx op system d rec =
     (if \<not> cfgEnabled c \<or> \<not> cfgProfilerEnabled c \<or> \<not> cfgIOProfileEnabled c then rec
      else (case rec of
          None \<Rightarrow> None
        | Some r \<Rightarrow>
            if d < cfgIOMinWait c then Some r
            else (let pcs = take (nat (cfgProfileMaxStackDepth c)) stack in
              if pcs = [] then Some r
              else Some (ioAdd \<lparr>iwPcs = pcs, iwOp = op, iwSystem = system, iwNanos = d, iwAt = now,
                     iwTraceID = (case cx of None \<Rightarrow> [] | Some s \<Rightarrow> spTraceID s),
                     iwSpanID = (case cx of None \<Rightarrow> [] | Some s \<Rightarrow> spSpanID s)\<rparr> r))))"

text \<open>\<open>RecordIOWait\<close>, for callers outside: a wait of no particular system.\<close>

definition recordWait :: "config \<Rightarrow> u64 list \<Rightarrow> int \<Rightarrow> ctx \<Rightarrow> string \<Rightarrow> int \<Rightarrow> ioRecorder option \<Rightarrow> ioRecorder option" where
  "recordWait c stack now cx op d rec = recordIOWait c stack now cx op [] d rec"

definition waitCorrelation :: "ioWait \<Rightarrow> profileCorrelation option" where
  "waitCorrelation w =
     (if iwTraceID w \<noteq> [] \<or> iwSpanID w \<noteq> []
      then Some \<lparr>pcTraceID = iwTraceID w, pcSpanID = iwSpanID w, pcSessionID = []\<rparr> else None)"

definition waitExtra :: "ioWait \<Rightarrow> attrs" where
  "waitExtra w = (''wait'', ''io'') # (if iwSystem w \<noteq> [] then [(''db.system'', iwSystem w)] else [])"

definition ioSample :: "config \<Rightarrow> string \<Rightarrow> (u64 list \<Rightarrow> profileFrame list) \<Rightarrow> nat \<Rightarrow> ioWait \<Rightarrow> profileSample" where
  "ioSample c goVersion symbolize i w =
     mkProfileSample c ''go-io'' ''PROFILE_SAMPLE_TYPE_IO'' ''nanoseconds'' (Suc i) (iwAt w) 0 (iwNanos w)
       (symbolize (iwPcs w) @ [\<lparr>pfModule = ''io'', pfFunction = iwOp w, pfFile = [], pfLine = 0\<rparr>])
       (baseProfileLabels c goVersion (waitExtra w)) (waitCorrelation w)"

definition ioSamplesFrom :: "config \<Rightarrow> string \<Rightarrow> (u64 list \<Rightarrow> profileFrame list) \<Rightarrow> ioWait list \<Rightarrow> profileSample list" where
  "ioSamplesFrom c goVersion symbolize waits = map (\<lambda>(i, w). ioSample c goVersion symbolize i w) (enumerate 0 waits)"

definition flushIOProfiles ::
  "(profileBatch \<Rightarrow> 'w \<Rightarrow> bool \<times> 'w) \<Rightarrow> ('w \<Rightarrow> int) \<Rightarrow> config \<Rightarrow> string \<Rightarrow> (u64 list \<Rightarrow> profileFrame list)
    \<Rightarrow> ioRecorder option \<Rightarrow> 'w \<Rightarrow> bool \<times> ioRecorder option \<times> 'w" where
  "flushIOProfiles wj clock c goVersion symbolize rec w = (case rec of
     None \<Rightarrow> (True, None, w)
   | Some r \<Rightarrow> (case ioDrain r of (waits, r') \<Rightarrow>
       if waits = [] then (True, Some r', w)
       else (case writeProfileSamples wj clock c ''go-io'' (ioSamplesFrom c goVersion symbolize waits) w of
               (ok, w') \<Rightarrow> (ok, Some r', w'))))"

definition flushProfiles ::
  "(profileBatch \<Rightarrow> 'w \<Rightarrow> bool \<times> 'w) \<Rightarrow> ('w \<Rightarrow> int) \<Rightarrow> config \<Rightarrow> string \<Rightarrow> (u64 list \<Rightarrow> profileFrame list) \<Rightarrow> (nat \<Rightarrow> int)
    \<Rightarrow> wallSampler option \<Rightarrow> ioRecorder option \<Rightarrow> 'w \<Rightarrow> bool \<times> wallSampler option \<times> ioRecorder option \<times> 'w" where
  "flushProfiles wj clock c goVersion symbolize now sampler rec w =
     (case flushWallProfiles wj clock c goVersion symbolize now sampler w of
        (False, sampler', w1) \<Rightarrow> (False, sampler', rec, w1)
      | (True, sampler', w1) \<Rightarrow>
          (case flushIOProfiles wj clock c goVersion symbolize rec w1 of (ok, rec', w2) \<Rightarrow> (ok, sampler', rec', w2)))"

subsection \<open>Results\<close>

lemma ioSamples_nth:
  "i < length waits \<Longrightarrow> ioSamplesFrom c g symf waits ! i = ioSample c g symf i (waits ! i)"
  by (simp add: ioSamplesFrom_def nth_enumerate_eq)

lemma length_ioSamples [simp]: "length (ioSamplesFrom c g symf waits) = length waits"
  by (simp add: ioSamplesFrom_def)

text \<open>What a wait says once it is a sample: operation, duration, trace and span.\<close>

definition sampleStory :: "profileSample \<Rightarrow> string \<times> string \<times> (string \<times> string) option" where
  "sampleStory s = (pfFunction (last (psStack s)), psValue s, map_option (\<lambda>c. (pcTraceID c, pcSpanID c)) (psCorrelation s))"

definition waitStory :: "ioWait \<Rightarrow> string \<times> string \<times> (string \<times> string) option" where
  "waitStory w = (iwOp w, itoa (iwNanos w), if iwTraceID w = [] \<and> iwSpanID w = [] then None else Some (iwTraceID w, iwSpanID w))"

lemma ioSamples_story: "map sampleStory (ioSamplesFrom c g symf waits) = map waitStory waits"
  by (rule nth_equalityI)
    (auto simp: ioSamples_nth ioSample_def mkProfileSample_def sampleStory_def waitStory_def waitCorrelation_def)

text \<open>
  C24: measured waits reach the spool in order.  However many waits a window records, a flush on a
  sink that accepts everything writes one sample for each of the first \<open>max\<close> of them, in order, with
  its operation as the leaf frame, its exact duration and its trace; the recorder is empty again and
  has counted the others as dropped.
\<close>

theorem io_window_flushed:
  "case flushIOProfiles (logSink (\<lambda>_ _. True)) clock c goVersion symbolize (Some (fold ioAdd waits (newIORecorder mx depth))) [] of
     (ok, rec, bs) \<Rightarrow>
       ok \<and> map sampleStory (concat (map pbSamples bs)) = map waitStory (take (nat (irMax (newIORecorder mx depth))) waits)
       \<and> map_option irWaits rec = Some []
       \<and> map_option irDropped rec = Some (int (length waits - nat (irMax (newIORecorder mx depth))))"
proof -
  let ?r = "newIORecorder mx depth"
  let ?n = "nat (irMax ?r)"
  have fresh: "irWaits ?r = []" "irDropped ?r = 0" by (simp_all add: newIORecorder_def)
  have kept: "irWaits (fold ioAdd waits ?r) = take ?n waits"
    and lost: "irDropped (fold ioAdd waits ?r) = int (length waits - ?n)"
    using ios.fold_put [of waits ?r] fresh by simp_all
  let ?s = "ioSamplesFrom c goVersion symbolize (take ?n waits)"
  have flush: "fst (writeProfileSamples (logSink (\<lambda>_ _. True)) clock c ''go-io'' ?s [])
      \<and> concat (map pbSamples (snd (writeProfileSamples (logSink (\<lambda>_ _. True)) clock c ''go-io'' ?s []))) = ?s"
    using writeProfileSamples_all by blast
  show ?thesis
    using flush lost kept ioSamples_story [of c goVersion symbolize "take ?n waits"]
    by (auto simp: flushIOProfiles_def ioDrain_def split: prod.splits)
qed

end
