(* ===== verification/Pprof.thy ===== *)
theory Pprof
  imports ProfileWall
begin

text \<open>
  \<open>NormalizePprof\<close> and the collectors of \<open>profiling.go\<close>: pprof profiles turned into samples.  A profile
  is the exported data of \<open>github.com/google/pprof/profile\<close> the code reads; a nil pointer is \<open>None\<close>.
\<close>

record pprofFunction =
  ppName :: string
  ppFilename :: string

record pprofLine =
  ppFunction :: "pprofFunction option"
  ppLine :: int

record pprofLocation =
  ppMappingFile :: "string option"
  ppAddress :: nat
  ppLines :: "pprofLine list"

record pprofSample =
  ppLocations :: "pprofLocation option list"
  ppValues :: "int list"
  ppLabels :: "(string \<times> string list) list"

record pprofProfile =
  ppPeriod :: int
  ppSamples :: "pprofSample option list"

text \<open>\<open>fmt.Sprintf("0x%x", n)\<close>.\<close>

fun hexDigits :: "nat \<Rightarrow> string" where
  "hexDigits n = (if n < 16 then [hexLower n] else hexDigits (n div 16) @ [hexLower (n mod 16)])"

declare hexDigits.simps [simp del]

definition lineFrame :: "symEnv \<Rightarrow> string \<Rightarrow> pprofLine \<Rightarrow> profileFrame" where
  "lineFrame E mappingModule l =
     (let fn = (case ppFunction l of None \<Rightarrow> [] | Some f \<Rightarrow> ppName f);
          file = (case ppFunction l of None \<Rightarrow> [] | Some f \<Rightarrow> ppFilename f)
      in \<lparr>pfModule = frameModule E fn file mappingModule, pfFunction = fn, pfFile = file,
          pfLine = (if ppLine l > 0 \<and> ppLine l < 4294967296 then of_int (ppLine l) else 0)\<rparr>)"

definition locationFrames :: "symEnv \<Rightarrow> pprofLocation \<Rightarrow> profileFrame list" where
  "locationFrames E loc =
     (let mappingModule = (case ppMappingFile loc of None \<Rightarrow> [] | Some f \<Rightarrow> frameBaseName f)
      in if ppLines loc = []
         then [\<lparr>pfModule = frameModule E [] [] mappingModule, pfFunction = ''0x'' @ hexDigits (ppAddress loc),
                pfFile = [], pfLine = 0\<rparr>]
         else map (lineFrame E mappingModule) (ppLines loc))"

definition framesRootFirst :: "symEnv \<Rightarrow> pprofSample \<Rightarrow> profileFrame list" where
  "framesRootFirst E s = concat (map (case_option [] (locationFrames E)) (rev (ppLocations s)))"

definition mergePprofSampleLabels :: "pprofSample \<Rightarrow> attrs \<Rightarrow> attrs" where
  "mergePprofSampleLabels s dst =
     fold (\<lambda>(k, vs) m. if vs = [] \<or> hd vs = [] then m else AList.update k (hd vs) m) (ppLabels s) dst"

definition labelValue :: "attrs \<Rightarrow> string \<Rightarrow> string" where
  "labelValue m k = (case map_of m k of None \<Rightarrow> [] | Some v \<Rightarrow> v)"

definition takeCorrelation :: "attrs \<Rightarrow> profileCorrelation option \<times> attrs" where
  "takeCorrelation labels =
     (let traceID = labelValue labels ''trace_id''; spanID = labelValue labels ''span_id''
      in if traceID = [] \<and> spanID = [] then (None, labels)
         else (Some \<lparr>pcTraceID = traceID, pcSpanID = spanID, pcSessionID = []\<rparr>,
               filter (\<lambda>kv. fst kv \<noteq> ''trace_id'' \<and> fst kv \<noteq> ''span_id'') labels))"

record normalizeOptions =
  noOrganisation :: string
  noProject :: string
  noApplication :: string
  noSeriesID :: string
  noSampleType :: string
  noUnit :: string
  noLabels :: attrs
  noDropNonUserland :: bool
  noDropIdleWaits :: bool

definition defaultPeriod :: "int \<Rightarrow> int" where
  "defaultPeriod p = (if p \<le> 0 then 10000000 else p)"

definition sampleValue :: "int list \<Rightarrow> int" where
  "sampleValue vs = (if vs = [] then 0 else if last vs = 0 then hd vs else last vs)"

definition optionsConfig :: "normalizeOptions \<Rightarrow> config" where
  "optionsConfig opt = zeroConfig\<lparr>cfgOrganisation := noOrganisation opt, cfgProject := noProject opt, cfgApplication := noApplication opt\<rparr>"

text \<open>One sample of the profile, at its index; \<open>None\<close> is one the loop skips.\<close>

definition normalizeSample ::
  "symEnv \<Rightarrow> normalizeOptions \<Rightarrow> int \<Rightarrow> int \<Rightarrow> nat \<Rightarrow> pprofSample option \<Rightarrow> profileSample option" where
  "normalizeSample E opt period now i so = (case so of None \<Rightarrow> None | Some s \<Rightarrow>
     (if ppLocations s = [] then None
      else (let v = sampleValue (ppValues s); stack = framesRootFirst E s in
        if v = 0 then None
        else if noDropNonUserland opt \<and> \<not> hasUserlandFrame stack then None
        else if noDropIdleWaits opt \<and> waitIdle (classifyWait stack) then None
        else if isSelfProfilingStack stack then None
        else (case takeCorrelation (mergePprofSampleLabels s (mergeInto (noLabels opt) [])) of (correlation, labels) \<Rightarrow>
          Some (mkProfileSample (optionsConfig opt) (noSeriesID opt) (noSampleType opt) (noUnit opt) (Suc i) now period v stack labels correlation)))))"

definition normalizePprof :: "symEnv \<Rightarrow> normalizeOptions \<Rightarrow> int \<Rightarrow> pprofProfile option \<Rightarrow> profileSample list" where
  "normalizePprof E opt now po = (case po of None \<Rightarrow> []
   | Some p \<Rightarrow> List.map_filter (\<lambda>(i, s). normalizeSample E opt (defaultPeriod (ppPeriod p)) now i s) (enumerate 0 (ppSamples p)))"

subsection \<open>Collectors\<close>

record normalizeFilters =
  nfDropNonUserland :: bool
  nfDropIdleWaits :: bool

definition seriesOptions :: "config \<Rightarrow> string \<Rightarrow> string \<Rightarrow> string \<Rightarrow> string \<Rightarrow> attrs \<Rightarrow> normalizeFilters \<Rightarrow> normalizeOptions" where
  "seriesOptions c goVersion seriesID sampleType unit extra fs =
     \<lparr>noOrganisation = cfgOrganisation c, noProject = cfgProject c, noApplication = cfgApplication c,
      noSeriesID = seriesID, noSampleType = sampleType, noUnit = unit,
      noLabels = baseProfileLabels c goVersion extra,
      noDropNonUserland = nfDropNonUserland fs, noDropIdleWaits = nfDropIdleWaits fs\<rparr>"

definition writeNormalizedProfile ::
  "(profileBatch \<Rightarrow> 'w \<Rightarrow> bool \<times> 'w) \<Rightarrow> ('w \<Rightarrow> int) \<Rightarrow> symEnv \<Rightarrow> string \<Rightarrow> config \<Rightarrow> pprofProfile \<Rightarrow> string \<Rightarrow> string \<Rightarrow> string
    \<Rightarrow> attrs \<Rightarrow> normalizeFilters \<Rightarrow> 'w \<Rightarrow> bool \<times> 'w" where
  "writeNormalizedProfile wj clock E goVersion c prof seriesID sampleType unit extra fs w =
     writeProfileSamples wj clock c seriesID
       (normalizePprof E (seriesOptions c goVersion seriesID sampleType unit extra fs) (clock w) (Some prof)) w"

text \<open>
  A collector: \<open>None\<close> is a profile that is not there or empty, \<open>Some None\<close> one that could not be
  started, written or parsed.  \<open>profiling c\<close> is the guard each collector opens with.
\<close>

definition profiling :: "config \<Rightarrow> bool" where
  "profiling c \<longleftrightarrow> cfgEnabled c \<and> cfgProfilerEnabled c"

definition noFilters :: normalizeFilters where
  "noFilters = \<lparr>nfDropNonUserland = False, nfDropIdleWaits = False\<rparr>"

definition collectProfile ::
  "(profileBatch \<Rightarrow> 'w \<Rightarrow> bool \<times> 'w) \<Rightarrow> ('w \<Rightarrow> int) \<Rightarrow> symEnv \<Rightarrow> string \<Rightarrow> config \<Rightarrow> pprofProfile option option
    \<Rightarrow> string \<Rightarrow> string \<Rightarrow> string \<Rightarrow> attrs \<Rightarrow> normalizeFilters \<Rightarrow> 'w \<Rightarrow> bool \<times> 'w" where
  "collectProfile wj clock E goVersion c prof seriesID sampleType unit extra fs w =
     (if \<not> profiling c then (True, w)
      else (case prof of None \<Rightarrow> (True, w) | Some None \<Rightarrow> (False, w)
        | Some (Some p) \<Rightarrow> writeNormalizedProfile wj clock E goVersion c p seriesID sampleType unit extra fs w))"

definition collectCPUProfile ::
  "(profileBatch \<Rightarrow> 'w \<Rightarrow> bool \<times> 'w) \<Rightarrow> ('w \<Rightarrow> int) \<Rightarrow> symEnv \<Rightarrow> string \<Rightarrow> config \<Rightarrow> pprofProfile option \<Rightarrow> 'w \<Rightarrow> bool \<times> 'w" where
  "collectCPUProfile wj clock E goVersion c prof =
     collectProfile wj clock E goVersion c (Some prof) ''go-cpu'' ''PROFILE_SAMPLE_TYPE_CPU'' ''nanoseconds'' [] noFilters"

definition collectHeapProfile ::
  "(profileBatch \<Rightarrow> 'w \<Rightarrow> bool \<times> 'w) \<Rightarrow> ('w \<Rightarrow> int) \<Rightarrow> symEnv \<Rightarrow> string \<Rightarrow> config \<Rightarrow> pprofProfile option \<Rightarrow> 'w \<Rightarrow> bool \<times> 'w" where
  "collectHeapProfile wj clock E goVersion c prof =
     collectProfile wj clock E goVersion c (Some prof) ''go-heap'' ''PROFILE_SAMPLE_TYPE_ALLOCATION'' ''bytes'' [] noFilters"

definition collectLookupProfile ::
  "(profileBatch \<Rightarrow> 'w \<Rightarrow> bool \<times> 'w) \<Rightarrow> ('w \<Rightarrow> int) \<Rightarrow> symEnv \<Rightarrow> string \<Rightarrow> config \<Rightarrow> pprofProfile option option
    \<Rightarrow> string \<Rightarrow> 'w \<Rightarrow> bool \<times> 'w" where
  "collectLookupProfile wj clock E goVersion c prof lockKind =
     collectProfile wj clock E goVersion c prof ''go-lock'' ''PROFILE_SAMPLE_TYPE_LOCK'' ''nanoseconds''
       (if lockKind = [] then [] else [(''lock.kind'', lockKind)])
       \<lparr>nfDropNonUserland = True, nfDropIdleWaits = cfgWallExcludeIdle c\<rparr>"

definition collectLockProfile ::
  "(profileBatch \<Rightarrow> 'w \<Rightarrow> bool \<times> 'w) \<Rightarrow> ('w \<Rightarrow> int) \<Rightarrow> symEnv \<Rightarrow> string \<Rightarrow> config \<Rightarrow> pprofProfile option option
    \<Rightarrow> pprofProfile option option \<Rightarrow> 'w \<Rightarrow> bool \<times> 'w" where
  "collectLockProfile wj clock E goVersion c mutexProf blockProf w =
     (case collectLookupProfile wj clock E goVersion c mutexProf ''mutex'' w of
        (False, w1) \<Rightarrow> (False, w1)
      | (True, w1) \<Rightarrow> collectLookupProfile wj clock E goVersion c blockProf ''block'' w1)"

subsection \<open>Results\<close>

text \<open>
  The stack pprof documents: locations from the leaf outwards, and within a location first the
  innermost inlined function, then the functions it was inlined into.
\<close>

definition leafFirstFrames :: "symEnv \<Rightarrow> pprofSample \<Rightarrow> profileFrame list" where
  "leafFirstFrames E s = concat (map (case_option [] (locationFrames E)) (ppLocations s))"

lemma concat_rev_single: "list_all (\<lambda>xs. length xs \<le> 1) xss \<Longrightarrow> concat (rev xss) = rev (concat xss)"
proof (induction xss)
  case (Cons xs xss)
  have "rev xs = xs" using Cons.prems by (cases xs; cases "tl xs") auto
  then show ?case using Cons by simp
qed simp

lemma length_locationFrames: "length (locationFrames E loc) = max 1 (length (ppLines loc))"
  by (cases "ppLines loc") (simp_all add: locationFrames_def Let_def)

text \<open>
  Without inlining the emitted stack is the documented pprof stack reversed, root first.
\<close>

theorem frames_root_first:
  assumes "list_all (\<lambda>lo. case lo of None \<Rightarrow> True | Some loc \<Rightarrow> length (ppLines loc) \<le> 1) (ppLocations s)"
  shows "framesRootFirst E s = rev (leafFirstFrames E s)"
proof -
  have "list_all (\<lambda>xs. length xs \<le> 1) (map (case_option [] (locationFrames E)) (ppLocations s))"
    using assms by (auto simp: list_all_iff length_locationFrames split: option.splits)
  from concat_rev_single [OF this] show ?thesis
    by (simp add: framesRootFirst_def leafFirstFrames_def rev_map)
qed

definition sampleLocation :: "string list \<Rightarrow> pprofLocation" where
  "sampleLocation fns = \<lparr>ppMappingFile = None, ppAddress = 4096,
     ppLines = map (\<lambda>fn. \<lparr>ppFunction = Some \<lparr>ppName = fn, ppFilename = []\<rparr>, ppLine = 7\<rparr>) fns\<rparr>"

definition sampleOf :: "string list list \<Rightarrow> pprofSample" where
  "sampleOf locs = \<lparr>ppLocations = map (Some \<circ> sampleLocation) locs, ppValues = [1], ppLabels = []\<rparr>"

theorem frames_root_first_witness:
  "framesRootFirst E (sampleOf [[''shop.Leaf''], [''shop.Root'']]) = rev (leafFirstFrames E (sampleOf [[''shop.Leaf''], [''shop.Root'']]))"
  by (rule frames_root_first) (simp add: sampleOf_def sampleLocation_def)

text \<open>
  Inlined frames are emitted upside down.  pprof lists \<open>memcpy\<close>, inlined into \<open>Encode\<close>, before
  \<open>Encode\<close>; the stack that is sent puts the callee \<open>memcpy\<close> above its caller, so the leaf a flame
  chart and the wait classifier see is \<open>Encode\<close>.
\<close>

theorem inlined_frames_inverted:
  "map pfFunction (framesRootFirst E (sampleOf [[''shop.memcpy'', ''shop.Encode''], [''shop.Root'']]))
     = [''shop.Root'', ''shop.memcpy'', ''shop.Encode'']
   \<and> map pfFunction (rev (leafFirstFrames E (sampleOf [[''shop.memcpy'', ''shop.Encode''], [''shop.Root'']])))
     = [''shop.Root'', ''shop.Encode'', ''shop.memcpy'']"
  by (simp add: framesRootFirst_def leafFirstFrames_def sampleOf_def sampleLocation_def locationFrames_def lineFrame_def Let_def)

lemma map_of_filter_keys: "map_of (filter (\<lambda>kv. P (fst kv)) m) k = (if P k then map_of m k else None)"
  by (induction m) auto

text \<open>
  The correlation of a sample is lifted out of its labels exactly once.  A sample that is kept
  has its trace and span either in the typed field and in no label, or, when the profile carries
  neither, in neither place; every other label is passed on.
\<close>

theorem correlation_lifted:
  "case takeCorrelation labels of (correlation, rest) \<Rightarrow>
     map_of rest k = (if correlation \<noteq> None \<and> k \<in> {''trace_id'', ''span_id''} then None else map_of labels k)
     \<and> (case correlation of
          None \<Rightarrow> labelValue labels ''trace_id'' = [] \<and> labelValue labels ''span_id'' = []
        | Some x \<Rightarrow> pcTraceID x = labelValue labels ''trace_id'' \<and> pcSpanID x = labelValue labels ''span_id'')"
  using map_of_filter_keys [of "\<lambda>k. k \<noteq> ''trace_id'' \<and> k \<noteq> ''span_id''" labels k]
  by (auto simp: takeCorrelation_def Let_def)

end
