(* ===== verification/HttpRecorder.thy ===== *)
theory HttpRecorder
  imports Tracing
begin

text \<open>
  The response recorder of \<open>http.go\<close>: the writer the middleware hands to the wrapped handler.  The
  writer it wraps is stated as an interface, and net/http's own is one implementation of it; a
  recorder over such a writer is another.
\<close>

definition htmlMaxBodyBytes :: int where
  "htmlMaxBodyBytes = 104857600"

definition bodyCapBytes :: "string \<Rightarrow> int \<Rightarrow> int" where
  "bodyCapBytes contentType defaultMax =
     (if equalFold (trimSpace (takeWhile (\<lambda>c. c \<noteq> CHR '';'') contentType)) ''text/html''
      then (if defaultMax > htmlMaxBodyBytes then defaultMax else htmlMaxBodyBytes)
      else if defaultMax \<le> 0 then 65536 else defaultMax)"

subsection \<open>The response recorder\<close>

text \<open>
  A call on the response writer; a \<open>Write\<close> carries the \<open>Content-Type\<close> that is set when it is made.
  Of the two optional interfaces, \<open>rrFlusher\<close> and \<open>rrHijacker\<close> tell which the wrapped writer has.
\<close>

datatype wAction = WriteHeader int | Write bytes string | Flush | Hijack

record responseRecorder =
  rrStatus :: int
  rrBody :: bytes
  rrTruncated :: bool
  rrWroteHeader :: bool
  rrCapture :: bool
  rrMaxBody :: int
  rrFlusher :: bool
  rrHijacker :: bool

definition newRecorder :: "config \<Rightarrow> bool \<Rightarrow> bool \<Rightarrow> responseRecorder" where
  "newRecorder c flusher hijacker = \<lparr>rrStatus = 200, rrBody = [], rrTruncated = False, rrWroteHeader = False,
     rrCapture = cfgHTTPCaptureBodies c, rrMaxBody = cfgHTTPMaxBody c, rrFlusher = flusher, rrHijacker = hijacker\<rparr>"

text \<open>Each call gives the calls forwarded to the underlying writer.\<close>

definition recWriteHeader :: "int \<Rightarrow> responseRecorder \<Rightarrow> wAction list \<times> responseRecorder" where
  "recWriteHeader code r =
     (if rrWroteHeader r then ([], r)
      else ([WriteHeader code], r\<lparr>rrWroteHeader := True, rrStatus := code\<rparr>))"

definition keepBody :: "bytes \<Rightarrow> string \<Rightarrow> responseRecorder \<Rightarrow> responseRecorder" where
  "keepBody b contentType r =
     (if rrCapture r \<and> rrMaxBody r > 0
      then (let remain = bodyCapBytes contentType (rrMaxBody r) - int (length (rrBody r)) in
        if remain > 0
        then (if int (length b) > remain then r\<lparr>rrBody := rrBody r @ take (nat remain) b, rrTruncated := True\<rparr>
              else r\<lparr>rrBody := rrBody r @ b\<rparr>)
        else r\<lparr>rrTruncated := True\<rparr>)
      else r)"

definition recWrite :: "bytes \<Rightarrow> string \<Rightarrow> responseRecorder \<Rightarrow> wAction list \<times> responseRecorder" where
  "recWrite b contentType r =
     (case (if rrWroteHeader r then ([], r) else recWriteHeader 200 r) of
        (sent, r1) \<Rightarrow> (sent @ [Write b contentType], keepBody b contentType r1))"

definition recFlush :: "responseRecorder \<Rightarrow> wAction list \<times> responseRecorder" where
  "recFlush r = ((if rrFlusher r then [Flush] else []), r)"

text \<open>\<open>http.ErrNotSupported\<close> where the writer cannot be hijacked: no call goes out.\<close>

definition recHijack :: "responseRecorder \<Rightarrow> wAction list \<times> responseRecorder" where
  "recHijack r = ((if rrHijacker r then [Hijack] else []), r)"

fun recAction :: "wAction \<Rightarrow> responseRecorder \<Rightarrow> wAction list \<times> responseRecorder" where
  "recAction (WriteHeader code) r = recWriteHeader code r"
| "recAction (Write b ct) r = recWrite b ct r"
| "recAction Flush r = recFlush r"
| "recAction Hijack r = recHijack r"

fun recRun :: "wAction list \<Rightarrow> responseRecorder \<Rightarrow> wAction list \<times> responseRecorder" where
  "recRun [] r = ([], r)"
| "recRun (a # as) r = (case recAction a r of (sent, r1) \<Rightarrow>
     (case recRun as r1 of (sent', r2) \<Rightarrow> (sent @ sent', r2)))"

lemma keepBody_fields [simp]:
  "rrStatus (keepBody b ct r) = rrStatus r" "rrWroteHeader (keepBody b ct r) = rrWroteHeader r"
  "rrCapture (keepBody b ct r) = rrCapture r" "rrMaxBody (keepBody b ct r) = rrMaxBody r"
  by (simp_all add: keepBody_def Let_def)

subsection \<open>The writer underneath\<close>

text \<open>
  What the recorder relies on: once a final status is committed further ones are ignored and nothing
  uncommits it; the first write commits 200; an interface the writer does not have does nothing.
\<close>

definition informational :: "int \<Rightarrow> bool" where
  "informational code \<longleftrightarrow> 100 \<le> code \<and> code \<le> 199 \<and> code \<noteq> 101"

definition finalOnly :: "wAction list \<Rightarrow> bool" where
  "finalOnly as \<longleftrightarrow> list_all (\<lambda>a. case a of WriteHeader code \<Rightarrow> \<not> informational code | _ \<Rightarrow> True) as"

lemma recAction_flags [simp]:
  "rrFlusher (snd (recAction a r)) = rrFlusher r" "rrHijacker (snd (recAction a r)) = rrHijacker r"
  by (cases a; simp add: recWriteHeader_def recWrite_def recFlush_def recHijack_def keepBody_def Let_def split: prod.splits)+

locale response_writer =
  fixes act :: "wAction \<Rightarrow> 'w \<Rightarrow> 'w" and committed :: "'w \<Rightarrow> bool" and flusher hijacker :: bool
  assumes superfluous: "committed w \<Longrightarrow> act (WriteHeader code) w = w"
    and implicit_ok: "\<not> committed w \<Longrightarrow> act (Write b ct) w = act (Write b ct) (act (WriteHeader 200) w)"
    and stays: "committed w \<Longrightarrow> committed (act a w)"
    and commits: "\<not> informational code \<Longrightarrow> committed (act (WriteHeader code) w)"
    and no_flush: "\<not> flusher \<Longrightarrow> act Flush w = w"
    and no_hijack: "\<not> hijacker \<Longrightarrow> act Hijack w = w"
begin

text \<open>One call through a recorder has the effect of the call itself.\<close>

lemma forwarded:
  assumes "rrWroteHeader r \<Longrightarrow> committed w" "rrFlusher r = flusher" "rrHijacker r = hijacker"
    and "case a of WriteHeader code \<Rightarrow> \<not> informational code | _ \<Rightarrow> True"
  shows "fold act (fst (recAction a r)) w = act a w \<and> (rrWroteHeader (snd (recAction a r)) \<longrightarrow> committed (act a w))"
proof (cases a)
  case (WriteHeader code)
  then show ?thesis using assms superfluous commits stays by (simp add: recWriteHeader_def)
next
  case (Write b ct)
  have ok: "\<not> informational 200" by (simp add: informational_def)
  have same: "act (Write b ct) (act (WriteHeader 200) w) = act (Write b ct) w"
    using implicit_ok superfluous by (cases "committed w") simp_all
  moreover have "committed (act (Write b ct) w)"
    using same stays [OF commits [OF ok]] by metis
  ultimately show ?thesis using Write assms by (auto simp: recWrite_def recWriteHeader_def)
qed (use assms stays no_flush no_hijack in \<open>simp_all add: recFlush_def recHijack_def\<close>)

lemma transparent:
  assumes "rrWroteHeader r \<Longrightarrow> committed w" "rrFlusher r = flusher" "rrHijacker r = hijacker" "finalOnly as"
  shows "fold act (fst (recRun as r)) w = fold act as w"
  using assms
proof (induction as arbitrary: r w)
  case (Cons a as)
  have a: "case a of WriteHeader code \<Rightarrow> \<not> informational code | _ \<Rightarrow> True" and rest: "finalOnly as"
    using Cons.prems(4) by (simp_all add: finalOnly_def)
  have step: "fold act (fst (recAction a r)) w = act a w" "rrWroteHeader (snd (recAction a r)) \<longrightarrow> committed (act a w)"
    using forwarded [of r w a] Cons.prems(1-3) a by blast+
  have "fold act (fst (recRun as (snd (recAction a r)))) (act a w) = fold act as (act a w)"
    using Cons.prems(2,3) step(2) rest by (intro Cons.IH) simp_all
  then show ?case using step(1) by (simp add: case_prod_unfold)
qed simp

end

text \<open>
  The writer of \<open>net/http\<close>: 1xx headers other than 101 go out without committing; the first other one
  commits, as does a write or a flush; a hijacked connection takes nothing more; a 101, 204 or 304 has no body.
\<close>

record netWriter =
  nwInformational :: "int list"
  nwStatus :: "int option"
  nwBody :: bytes
  nwHijacked :: bool

definition freshWriter :: netWriter where
  "freshWriter = \<lparr>nwInformational = [], nwStatus = None, nwBody = [], nwHijacked = False\<rparr>"

definition netCommitted :: "netWriter \<Rightarrow> bool" where
  "netCommitted w \<longleftrightarrow> nwHijacked w \<or> nwStatus w \<noteq> None"

definition netWriteHeader :: "int \<Rightarrow> netWriter \<Rightarrow> netWriter" where
  "netWriteHeader code w =
     (if netCommitted w then w
      else if informational code then w\<lparr>nwInformational := nwInformational w @ [code]\<rparr>
      else w\<lparr>nwStatus := Some code\<rparr>)"

definition netWrite :: "bytes \<Rightarrow> netWriter \<Rightarrow> netWriter" where
  "netWrite b w =
     (if nwHijacked w \<or> nwStatus w = Some 101 \<or> nwStatus w = Some 204 \<or> nwStatus w = Some 304 then w else w\<lparr>nwBody := nwBody w @ b\<rparr>)"

fun netAct :: "wAction \<Rightarrow> netWriter \<Rightarrow> netWriter" where
  "netAct (WriteHeader code) w = netWriteHeader code w"
| "netAct (Write b ct) w = netWrite b (netWriteHeader 200 w)"
| "netAct Flush w = netWriteHeader 200 w"
| "netAct Hijack w = w\<lparr>nwHijacked := True\<rparr>"


lemma netWriteHeader_committed [simp]: "netCommitted w \<Longrightarrow> netWriteHeader code w = w"
  by (simp add: netWriteHeader_def)



text \<open>A recorder over a writer is itself such a writer, so middlewares stack.\<close>

definition recAct :: "(wAction \<Rightarrow> 'w \<Rightarrow> 'w) \<Rightarrow> wAction \<Rightarrow> responseRecorder \<times> 'w \<Rightarrow> responseRecorder \<times> 'w" where
  "recAct act a rw = (case rw of (r, w) \<Rightarrow> (case recAction a r of (sent, r') \<Rightarrow> (r', fold act sent w)))"

interpretation stacked: response_writer "recAct netAct" "\<lambda>(r, w). rrWroteHeader r" True True
proof
  fix rw :: "responseRecorder \<times> netWriter" and code b ct a
  obtain r w where rw: "rw = (r, w)" by force
  show "case rw of (r, w) \<Rightarrow> rrWroteHeader r \<Longrightarrow> recAct netAct (WriteHeader code) rw = rw"
    by (simp add: rw recAct_def recWriteHeader_def)
  show "\<not> (case rw of (r, w) \<Rightarrow> rrWroteHeader r) \<Longrightarrow>
      recAct netAct (Write b ct) rw = recAct netAct (Write b ct) (recAct netAct (WriteHeader 200) rw)"
    by (simp add: rw recAct_def recWriteHeader_def recWrite_def)
  show "case rw of (r, w) \<Rightarrow> rrWroteHeader r \<Longrightarrow> case recAct netAct a rw of (r, w) \<Rightarrow> rrWroteHeader r"
    by (cases a) (simp_all add: rw recAct_def recWriteHeader_def recWrite_def recFlush_def recHijack_def keepBody_def Let_def)
  show "case recAct netAct (WriteHeader code) rw of (r, w) \<Rightarrow> rrWroteHeader r"
    by (simp add: rw recAct_def recWriteHeader_def)
qed simp_all

subsection \<open>Results\<close>

text \<open>
  An informational response swallows the real status.  \<open>net/http\<close> allows 1xx headers before the
  final one; the recorder forwards only the first, so a handler that sends 103 and then 404 is
  answered with the default 200 of its first write, and the span says 103.
\<close>

theorem informational_status_swallows_final:
  "(let (sent, r) = recRun [WriteHeader 103, WriteHeader 404, Write ''gone'' ''text/plain''] (newRecorder c True True)
    in nwStatus (fold netAct sent freshWriter) = Some 200 \<and> rrStatus r = 103
     \<and> nwStatus (fold netAct [WriteHeader 103, WriteHeader 404, Write ''gone'' ''text/plain''] freshWriter) = Some 404)"
  by (simp add: newRecorder_def recWriteHeader_def recWrite_def keepBody_def Let_def freshWriter_def
      netWriteHeader_def netCommitted_def netWrite_def informational_def)

text \<open>
  A flush hides the status.  \<open>Flush\<close> commits 200 on the connection without the recorder noticing: a
  handler that flushes first and then reports 404 is answered with 200, and the span says 404.
\<close>

theorem flush_hides_status:
  "(let (sent, r) = recRun [Flush, WriteHeader 404] (newRecorder c True True)
    in nwStatus (fold netAct sent freshWriter) = Some 200 \<and> rrStatus r = 404)"
  by (simp add: newRecorder_def recFlush_def recWriteHeader_def freshWriter_def netWriteHeader_def netCommitted_def informational_def)

text \<open>The status the handler commits: its first header, or 200 before its first write.\<close>

fun writtenStatus :: "wAction list \<Rightarrow> int" where
  "writtenStatus [] = 200"
| "writtenStatus (WriteHeader code # as) = code"
| "writtenStatus (Write b ct # as) = 200"
| "writtenStatus (Flush # as) = writtenStatus as"
| "writtenStatus (Hijack # as) = writtenStatus as"

lemma recRun_status:
  "rrStatus (snd (recRun as r)) = (if rrWroteHeader r then rrStatus r else if rrStatus r = 200 then writtenStatus as
     else rrStatus (snd (recRun as r)))"
proof (induction as arbitrary: r)
  case (Cons a as)
  show ?case
  proof (cases a)
    case (WriteHeader code)
    then show ?thesis using Cons.IH [of r] Cons.IH [of "r\<lparr>rrWroteHeader := True, rrStatus := code\<rparr>"]
      by (auto simp: recWriteHeader_def case_prod_unfold)
  next
    case (Write b ct)
    then show ?thesis
      using Cons.IH [of "keepBody b ct r"] Cons.IH [of "keepBody b ct (r\<lparr>rrWroteHeader := True, rrStatus := 200\<rparr>)"]
      by (auto simp: recWrite_def recWriteHeader_def case_prod_unfold)
  qed (use Cons.IH [of r] in \<open>auto simp: recFlush_def recHijack_def case_prod_unfold\<close>)
qed simp




text \<open>Two middlewares around one handler: the inner recorder changes nothing the outer one or the client sees.\<close>

theorem stacked_middlewares:
  assumes "finalOnly as"
  shows "fold (recAct netAct) (fst (recRun as (newRecorder c True True))) (newRecorder c' True True, freshWriter)
    = fold (recAct netAct) as (newRecorder c' True True, freshWriter)"
  using assms by (intro stacked.transparent) (simp_all add: newRecorder_def)

text \<open>The calls in terms of what they carry.\<close>

definition writesOf :: "wAction list \<Rightarrow> bytes" where
  "writesOf as = concat (map (\<lambda>a. case a of Write b ct \<Rightarrow> b | _ \<Rightarrow> []) as)"

definition headersOf :: "wAction list \<Rightarrow> int list" where
  "headersOf as = List.map_filter (\<lambda>a. case a of WriteHeader code \<Rightarrow> Some code | _ \<Rightarrow> None) as"

lemma actions_simps [simp]:
  "writesOf [] = []" "writesOf (WriteHeader code # as) = writesOf as" "writesOf (Write b ct # as) = b @ writesOf as"
  "writesOf (Flush # as) = writesOf as" "writesOf (Hijack # as) = writesOf as"
  "headersOf [] = []" "headersOf (WriteHeader code # as) = code # headersOf as" "headersOf (Write b ct # as) = headersOf as"
  "headersOf (Flush # as) = headersOf as" "headersOf (Hijack # as) = headersOf as"
  by (simp_all add: writesOf_def headersOf_def map_filter_simps)

lemma recRun_written:
  "writesOf (fst (recRun as r)) = writesOf as
   \<and> headersOf (fst (recRun as r)) = (if rrWroteHeader r \<or> headersOf as = [] \<and> list_all (\<lambda>a. a = Flush \<or> a = Hijack) as then []
       else [writtenStatus as])"
proof (induction as arbitrary: r)
  case (Cons a as)
  show ?case
  proof (cases a)
    case (WriteHeader code)
    then show ?thesis using Cons.IH by (simp add: recWriteHeader_def case_prod_unfold)
  next
    case (Write b ct)
    then show ?thesis using Cons.IH by (simp add: recWrite_def recWriteHeader_def case_prod_unfold)
  qed (use Cons.IH in \<open>simp_all add: recFlush_def recHijack_def case_prod_unfold\<close>)
qed simp

text \<open>
  Every byte the handler writes is forwarded, in order; at most one status is, the handler's first
  one, or 200 before its first write; and that is the status the span reports.
\<close>

theorem recorder_transparent:
  "case recRun as (newRecorder c flusher hijacker) of (sent, r) \<Rightarrow>
     writesOf sent = writesOf as \<and> rrStatus r = writtenStatus as
     \<and> headersOf sent = (if list_all (\<lambda>a. a = Flush \<or> a = Hijack) as then [] else [writtenStatus as])"
proof -
  have "headersOf as = []" if "list_all (\<lambda>a. a = Flush \<or> a = Hijack) as"
    using that by (induction as) auto
  then show ?thesis
    using recRun_written [of as "newRecorder c flusher hijacker"] recRun_status [of as "newRecorder c flusher hijacker"]
    by (auto simp: newRecorder_def case_prod_unfold)
qed

text \<open>The captured response body, when the content type does not change between writes.\<close>

definition sameType :: "string \<Rightarrow> wAction list \<Rightarrow> bool" where
  "sameType ct as = list_all (\<lambda>a. case a of Write _ ct' \<Rightarrow> ct' = ct | _ \<Rightarrow> True) as"

lemma bodyCap_pos: "mx > 0 \<Longrightarrow> bodyCapBytes ct mx > 0"
  by (simp add: bodyCapBytes_def htmlMaxBodyBytes_def)

lemma keepBody_body:
  assumes "rrCapture r" "rrMaxBody r > 0" "cap = nat (bodyCapBytes ct (rrMaxBody r))" "length (rrBody r) \<le> cap"
  shows "rrBody (keepBody b ct r) = rrBody r @ take (cap - length (rrBody r)) b"
proof -
  have "bodyCapBytes ct (rrMaxBody r) = int cap" using bodyCap_pos [OF assms(2), of ct] assms(3) by simp
  then have remain: "bodyCapBytes ct (rrMaxBody r) - int (length (rrBody r)) = int (cap - length (rrBody r))"
    using assms(4) by (simp add: of_nat_diff)
  show ?thesis
    unfolding keepBody_def remain Let_def nat_int using assms(1,2) by simp
qed

lemma recRun_body:
  assumes "rrCapture r" "rrMaxBody r > 0" "cap = nat (bodyCapBytes ct (rrMaxBody r))" "length (rrBody r) \<le> cap" "sameType ct as"
  shows "rrBody (snd (recRun as r)) = rrBody r @ take (cap - length (rrBody r)) (writesOf as)"
  using assms
proof (induction as arbitrary: r)
  case (Cons a as)
  show ?case
  proof (cases a)
    case (WriteHeader code)
    then show ?thesis
      using Cons.IH [of r] Cons.IH [of "r\<lparr>rrWroteHeader := True, rrStatus := code\<rparr>"] Cons.prems
      by (auto simp: recWriteHeader_def sameType_def split: prod.splits)
  next
    case (Write b ct')
    then have ct': "ct' = ct" and rest: "sameType ct as" using Cons.prems(5) by (simp_all add: sameType_def)
    define r1 where "r1 = (if rrWroteHeader r then r else r\<lparr>rrWroteHeader := True, rrStatus := 200\<rparr>)"
    have r1: "rrBody r1 = rrBody r" "rrCapture r1" "rrMaxBody r1 = rrMaxBody r" using Cons.prems by (simp_all add: r1_def)
    have kept: "rrBody (keepBody b ct r1) = rrBody r @ take (cap - length (rrBody r)) b"
      using keepBody_body [of r1 cap ct b] r1 Cons.prems by simp
    have "rrBody (snd (recRun as (keepBody b ct r1)))
        = rrBody (keepBody b ct r1) @ take (cap - length (rrBody (keepBody b ct r1))) (writesOf as)"
      using r1 Cons.prems rest kept by (intro Cons.IH) auto
    moreover have "snd (recRun (a # as) r) = snd (recRun as (keepBody b ct r1))"
      using Write ct' by (simp add: recWrite_def recWriteHeader_def r1_def split: prod.splits)
    ultimately show ?thesis using Write kept by (simp add: min_def)
  next
    case Flush
    then show ?thesis using Cons.IH [of r] Cons.prems by (simp add: recFlush_def sameType_def case_prod_unfold)
  next
    case Hijack
    then show ?thesis using Cons.IH [of r] Cons.prems by (simp add: recHijack_def sameType_def case_prod_unfold)
  qed
qed simp

text \<open>
  The captured response body is a prefix of what was sent.  It is the first bytes the handler
  wrote, up to the cap for its content type, however the writes were cut.
\<close>

theorem captured_response_body:
  assumes "cfgHTTPCaptureBodies c" "cfgHTTPMaxBody c > 0" "sameType ct as"
  shows "rrBody (snd (recRun as (newRecorder c flusher hijacker))) = take (nat (bodyCapBytes ct (cfgHTTPMaxBody c))) (writesOf as)"
  using recRun_body [of "newRecorder c flusher hijacker", OF _ _ refl _ assms(3)] assms(1,2) by (simp add: newRecorder_def)

definition bodyConfig :: config where
  "bodyConfig = liveConfig\<lparr>cfgHTTPCapture := True, cfgHTTPCaptureBodies := True, cfgHTTPMaxBody := 4\<rparr>"

theorem captured_response_body_witness:
  "rrBody (snd (recRun [Write ''hello '' [], WriteHeader 500, Flush, Write ''world'' []] (newRecorder bodyConfig True False)))
     = take (nat (bodyCapBytes [] 4)) ''hello world''"
  using captured_response_body [of bodyConfig "[]" "[Write ''hello '' [], WriteHeader 500, Flush, Write ''world'' []]" True False]
  by (simp add: bodyConfig_def sameType_def)

end
