(* ===== verification/Messaging.thy ===== *)
theory Messaging
  imports Tracing
begin

text \<open>
  \<open>messaging.go\<close>: the span of a message crossing the boundary, its attributes and the captured body.
\<close>

definition operationPublish :: string where
  "operationPublish = ''publish''"

definition operationProcess :: string where
  "operationProcess = ''process''"

record messagingSpan =
  msSystem :: string
  msOperation :: string
  msDestination :: string
  msServer :: string
  msPartition :: int
  msOffset :: int
  msBodySize :: int
  msBody :: bytes
  msMessageID :: string
  msConsumerGroup :: string

definition messagingSpanName :: "messagingSpan \<Rightarrow> string" where
  "messagingSpanName m =
     (let name = map asciiUpper (if msOperation m = [] then operationPublish else msOperation m)
      in if msDestination m = [] then name else name @ '' '' @ msDestination m)"

definition spanKindFor :: "string \<Rightarrow> string" where
  "spanKindFor operation = (if operation = operationPublish then ''producer'' else ''consumer'')"

subsection \<open>Bodies\<close>

text \<open>\<open>base64.StdEncoding.EncodeToString\<close>.\<close>

definition base64Char :: "nat \<Rightarrow> char" where
  "base64Char n =
     (if n < 26 then char_of (65 + n) else if n < 52 then char_of (97 + (n - 26))
      else if n < 62 then char_of (48 + (n - 52)) else if n = 62 then CHR ''+'' else CHR ''/'')"

fun base64 :: "bytes \<Rightarrow> string" where
  "base64 [] = []"
| "base64 [a] = [base64Char (ord a div 4), base64Char (ord a mod 4 * 16), CHR ''='', CHR ''='']"
| "base64 [a, b] = [base64Char (ord a div 4), base64Char (ord a mod 4 * 16 + ord b div 16),
     base64Char (ord b mod 16 * 4), CHR ''='']"
| "base64 (a # b # c # s) = [base64Char (ord a div 4), base64Char (ord a mod 4 * 16 + ord b div 16),
     base64Char (ord b mod 16 * 4 + ord c div 64), base64Char (ord c mod 64)] @ base64 s"

definition controlByte :: "char \<Rightarrow> bool" where
  "controlByte b \<longleftrightarrow> ord b < 32 \<and> ord b \<noteq> 9 \<and> ord b \<noteq> 10 \<and> ord b \<noteq> 13"

definition messagingText :: "bytes \<Rightarrow> string option" where
  "messagingText bs = (if \<not> utf8Valid bs \<or> list_ex controlByte bs then None else Some bs)"

definition captureMessagingBodies :: "client option \<Rightarrow> bool" where
  "captureMessagingBodies co = (case co of None \<Rightarrow> False
     | Some cl \<Rightarrow> cfgEnabled (clCfg cl) \<and> cfgAPMEnabled (clCfg cl) \<and> cfgMessagingCaptureBodies (clCfg cl))"

definition bodyTruncated :: "int \<Rightarrow> bytes \<Rightarrow> bool" where
  "bodyTruncated mx body \<longleftrightarrow> mx > 0 \<and> int (length body) > mx"

definition cappedBody :: "int \<Rightarrow> bytes \<Rightarrow> bytes" where
  "cappedBody mx body = (if bodyTruncated mx body then take (nat mx) body else body)"

definition storeBody :: "bytes \<Rightarrow> span \<Rightarrow> span" where
  "storeBody raw s = (case messagingText raw of
     Some text \<Rightarrow> setAttribute ''messaging.message.body'' text s
   | None \<Rightarrow> setAttribute ''messaging.message.body.encoding'' ''base64'' (setAttribute ''messaging.message.body'' (base64 raw) s))"

definition applyMessagingBody :: "client option \<Rightarrow> bytes \<Rightarrow> span \<Rightarrow> span" where
  "applyMessagingBody co body s =
     (case co of None \<Rightarrow> s
      | Some cl \<Rightarrow>
          if \<not> captureMessagingBodies co \<or> body = [] then s
          else (let mx = cfgMessagingMaxBody (clCfg cl); s1 = storeBody (cappedBody mx body) s
                in if bodyTruncated mx body then setAttribute ''messaging.message.body.truncated'' ''true'' s1 else s1))"

subsection \<open>The span\<close>

definition setWhen :: "bool \<Rightarrow> string \<Rightarrow> string \<Rightarrow> span \<Rightarrow> span" where
  "setWhen b k v s = (if b then setAttribute k v s else s)"

definition messageBodySize :: "messagingSpan \<Rightarrow> int" where
  "messageBodySize m = (if msBodySize m \<le> 0 \<and> msBody m \<noteq> [] then int (length (msBody m)) else msBodySize m)"

definition messageAttributes :: "messagingSpan \<Rightarrow> span \<Rightarrow> span" where
  "messageAttributes m =
     setWhen (messageBodySize m \<ge> 0) ''messaging.message.body.size'' (attrInt (messageBodySize m))
     \<circ> setWhen (msOffset m \<ge> 0) ''messaging.kafka.offset'' (attrInt (msOffset m))
     \<circ> setWhen (msPartition m \<ge> 0) ''messaging.kafka.partition'' (attrInt (msPartition m))
     \<circ> setWhen (msMessageID m \<noteq> []) ''messaging.message.id'' (msMessageID m)
     \<circ> setWhen (msConsumerGroup m \<noteq> []) ''messaging.consumer.group.name'' (msConsumerGroup m)
     \<circ> setWhen (msServer m \<noteq> []) ''server.address'' (msServer m)
     \<circ> setWhen (msDestination m \<noteq> []) ''messaging.destination.name'' (msDestination m)
     \<circ> setWhen (msOperation m \<noteq> []) ''messaging.operation'' (msOperation m)
     \<circ> setWhen (msSystem m \<noteq> []) ''messaging.system'' (msSystem m)
     \<circ> setAttribute ''span.kind'' (spanKindFor (msOperation m))"

text \<open>
  The span returned is the one the context carries when tracing is on, so its attributes are seen
  through either.
\<close>

definition startMessagingSpan ::
  "client option \<Rightarrow> ctx \<Rightarrow> messagingSpan \<Rightarrow> int \<Rightarrow> bytes \<Rightarrow> bytes \<Rightarrow> ctx \<times> span" where
  "startMessagingSpan co c m now rnd16 rnd8 =
     (case startSpan co c (messagingSpanName m) now rnd16 rnd8 of (c', s0) \<Rightarrow>
       (let s = applyMessagingBody co (msBody m) (messageAttributes m s0)
        in (if tracingOn co then Some s else c', s)))"

text \<open>\<open>RecordMessaging\<close>; \<open>fn\<close> is the wrapped work on its state \<open>'p\<close>, with the error it returns.\<close>

definition markError :: "string option \<Rightarrow> span \<Rightarrow> span" where
  "markError err s = (case err of None \<Rightarrow> s
     | Some msg \<Rightarrow> setAttribute ''error.message'' msg (setStatus ''error'' s))"

definition recordMessaging ::
  "client option \<Rightarrow> ctx \<Rightarrow> messagingSpan \<Rightarrow> int \<Rightarrow> bytes \<Rightarrow> bytes \<Rightarrow> (ctx \<Rightarrow> 'p \<Rightarrow> string option \<times> 'p) \<Rightarrow> 'p
    \<Rightarrow> string option \<times> span \<times> 'p" where
  "recordMessaging co c m now rnd16 rnd8 fn p =
     (case startMessagingSpan co c m now rnd16 rnd8 of (c', s) \<Rightarrow>
       (case fn c' p of (err, p') \<Rightarrow> (err, markError err s, p')))"

subsection \<open>Results\<close>

definition capturing :: "int \<Rightarrow> client" where
  "capturing mx = liveClient\<lparr>clCfg := liveConfig\<lparr>cfgMessagingCaptureBodies := True, cfgMessagingMaxBody := mx\<rparr>\<rparr>"

text \<open>
  A text body can be recorded as binary.  Truncation cuts at a byte, so a UTF-8 text whose cap
  falls inside a character is no longer valid UTF-8 and is stored as base64, marked as such.
\<close>

theorem truncated_text_becomes_binary:
  "(let body = ''caf'' @ [CHR 0xC3, CHR 0xA9]; s = applyMessagingBody (Some (capturing 4)) body zeroSpan in
     messagingText body = Some body
     \<and> map_of (spAttributes s) ''messaging.message.body'' = Some ''Y2Fmww==''
     \<and> map_of (spAttributes s) ''messaging.message.body.encoding'' = Some ''base64''
     \<and> map_of (spAttributes s) ''messaging.message.body.truncated'' = Some ''true'')"
proof -
  let ?body = "''caf'' @ [CHR 0xC3, CHR 0xA9]"
  have whole: "messagingText ?body = Some ?body" by code_simp
  have cut: "messagingText (take 4 ?body) = None" by code_simp
  have enc: "base64 (take 4 ?body) = ''Y2Fmww==''" by code_simp
  have "captureMessagingBodies (Some (capturing 4))"
    by (simp add: captureMessagingBodies_def capturing_def liveClient_def liveConfig_def)
  moreover have "bodyTruncated 4 ?body" by (simp add: bodyTruncated_def)
  ultimately have "applyMessagingBody (Some (capturing 4)) ?body zeroSpan =
      setAttribute ''messaging.message.body.truncated'' ''true'' (setAttribute ''messaging.message.body.encoding'' ''base64''
        (setAttribute ''messaging.message.body'' ''Y2Fmww=='' zeroSpan))"
    using cut enc by (simp add: applyMessagingBody_def cappedBody_def storeBody_def capturing_def liveClient_def Let_def)
  then show ?thesis using whole by (simp add: Let_def setAttribute_def maxAttributes_def zeroSpan_def)
qed

text \<open>What a body attribute can be: the text itself, or base64 of the raw bytes.\<close>

lemma base64Char_ascii: "n < 64 \<Longrightarrow> 32 \<le> ord (base64Char n) \<and> ord (base64Char n) < 127"
  unfolding base64Char_def by (auto simp: less_diff_conv)

lemma div_bound: "n < 256 \<Longrightarrow> n div 4 < (64 :: nat)" "n < 256 \<Longrightarrow> n div 16 < (16 :: nat)" "n < 256 \<Longrightarrow> n div 64 < (4 :: nat)"
  by simp_all

lemma base64_indices:
  "ord a div 4 < 64" "ord a mod 4 * 16 + ord b div 16 < 64" "ord b mod 16 * 4 + ord c div 64 < 64"
  "ord c mod 64 < 64" "ord a mod 4 * 16 < 64" "ord b mod 16 * 4 < 64"
proof -
  have "ord a < 256" "ord b < 256" "ord c < 256" by simp_all
  note div_bound [OF this(1)] div_bound [OF this(2)] div_bound [OF this(3)]
  moreover have "ord a mod 4 < 4" "ord b mod 16 < 16" "ord c mod 64 < 64" by simp_all
  ultimately show "ord a div 4 < 64" "ord a mod 4 * 16 + ord b div 16 < 64" "ord b mod 16 * 4 + ord c div 64 < 64"
    "ord c mod 64 < 64" "ord a mod 4 * 16 < 64" "ord b mod 16 * 4 < 64" by linarith+
qed

lemma base64_printable: "list_all (\<lambda>c. 32 \<le> ord c \<and> ord c < 127) (base64 s)"
  by (induction s rule: base64.induct) (simp_all add: base64Char_ascii base64_indices)

lemma utf8Valid_lowBytes: "list_all (\<lambda>c. ord c < 128) s \<Longrightarrow> utf8Valid s"
proof (induction s)
  case (Cons c s)
  then have "runeLen (c # s) = Some 1" by simp
  then show ?case using Cons by (subst utf8Valid.simps) simp
qed (simp add: utf8Valid.simps)

lemma messagingText_ok: "messagingText raw = Some t \<Longrightarrow> t = raw \<and> utf8Valid raw \<and> \<not> list_ex controlByte raw"
  by (auto simp: messagingText_def split: if_splits)

lemma base64_ok: "utf8Valid (base64 s) \<and> \<not> list_ex controlByte (base64 s)"
proof -
  have p: "32 \<le> ord c \<and> ord c < 127" if "c \<in> set (base64 s)" for c
    using base64_printable [of s] that by (auto simp: list_all_iff)
  have "utf8Valid (base64 s)" using p by (intro utf8Valid_lowBytes) (fastforce simp: list_all_iff)
  moreover have "\<not> list_ex controlByte (base64 s)" using p by (fastforce simp: list_ex_iff controlByte_def)
  ultimately show ?thesis by blast
qed

text \<open>
  A captured body is always storable text.  Whatever the payload, the body attribute of a fresh
  span is valid UTF-8 without control bytes other than tab, line feed and carriage return; and it is
  the payload itself, cut at the cap, unless it is marked as base64.
\<close>

theorem captured_body_is_text:
  assumes "captureMessagingBodies (Some cl)" "body \<noteq> []" "spAttributes s = []"
  shows "\<exists>t. map_of (spAttributes (applyMessagingBody (Some cl) body s)) ''messaging.message.body'' = Some t
    \<and> messagingText t = Some t
    \<and> (if map_of (spAttributes (applyMessagingBody (Some cl) body s)) ''messaging.message.body.encoding'' = Some ''base64''
       then t = base64 (cappedBody (cfgMessagingMaxBody (clCfg cl)) body)
       else t = cappedBody (cfgMessagingMaxBody (clCfg cl)) body)"
proof -
  define raw where "raw = cappedBody (cfgMessagingMaxBody (clCfg cl)) body"
  have eq: "applyMessagingBody (Some cl) body s =
      setWhen (bodyTruncated (cfgMessagingMaxBody (clCfg cl)) body) ''messaging.message.body.truncated'' ''true'' (storeBody raw s)"
    using assms(1,2) by (simp add: applyMessagingBody_def Let_def raw_def setWhen_def)
  show ?thesis
  proof (cases "messagingText raw")
    case None
    then show ?thesis
      unfolding eq raw_def [symmetric]
      using assms(3) base64_ok [of raw] by (simp add: storeBody_def setWhen_def setAttribute_def maxAttributes_def messagingText_def)
  next
    case (Some t)
    then have "t = raw" using messagingText_ok by blast
    then show ?thesis
      unfolding eq raw_def [symmetric]
      using assms(3) Some by (simp add: storeBody_def setWhen_def setAttribute_def maxAttributes_def)
  qed
qed

theorem captured_body_is_text_witness:
  "\<exists>t. map_of (spAttributes (applyMessagingBody (Some (capturing 0)) [CHR 0x08] zeroSpan)) ''messaging.message.body'' = Some t
    \<and> messagingText t = Some t"
  using captured_body_is_text [of "capturing 0" "[CHR 0x08]" zeroSpan]
  by (auto simp: captureMessagingBodies_def capturing_def liveClient_def liveConfig_def zeroSpan_def)

end
