(* ===== verification/SpanIdentity.thy ===== *)
theory SpanIdentity
  imports Messaging
begin

text \<open>
  A span's place in its trace, and the operations that leave it alone: whatever is recorded on a span
  while its work runs, its trace, its parent, the sampling decision and the state it forwards stay
  those it was started with.
\<close>

definition spanIdentity :: "span \<Rightarrow> string \<times> string \<times> string \<times> bool \<times> string \<times> string" where
  "spanIdentity s = (spTraceID s, spSpanID s, spParentID s, spSampled s, spTracestate s, spBaggage s)"

named_theorems identity "span operations that keep a span's place in its trace"

lemma spanIdentity_setAttribute [identity]: "spanIdentity (setAttribute k v s) = spanIdentity s"
  by (simp add: setAttribute_def spanIdentity_def)

lemma spanIdentity_setStatus [identity]: "spanIdentity (setStatus st s) = spanIdentity s"
  by (simp add: setStatus_def spanIdentity_def)

lemma spanIdentity_http [identity]:
  "spanIdentity (s\<lparr>spHTTPStatus := n\<rparr>) = spanIdentity s" "spanIdentity (s\<lparr>spHTTPMethod := m\<rparr>) = spanIdentity s"
  "spanIdentity (s\<lparr>spHTTPMethod := m, spHTTPRoute := rt\<rparr>) = spanIdentity s"
  by (simp_all add: spanIdentity_def)

lemma spanIdentity_setWhen [identity]: "spanIdentity (setWhen b k v s) = spanIdentity s"
  by (simp add: setWhen_def identity)

lemma spanIdentity_attributes [identity]: "spanIdentity (messageAttributes m s) = spanIdentity s"
  by (simp add: messageAttributes_def identity)

lemma spanIdentity_body [identity]: "spanIdentity (applyMessagingBody co body s) = spanIdentity s"
  by (simp add: applyMessagingBody_def storeBody_def Let_def identity split: option.split)

lemma spanIdentity_startMessaging:
  assumes "startSpan co c (messagingSpanName m) now rnd16 rnd8 = (c', s0)"
  shows "spanIdentity (snd (startMessagingSpan co c m now rnd16 rnd8)) = spanIdentity s0"
  using assms by (simp add: startMessagingSpan_def Let_def identity)

end
