(* ===== verification/Http.thy ===== *)
theory Http
  imports HttpRecorder SpanIdentity
begin

text \<open>
  \<open>http.go\<close>: the server middleware and the outbound transport.  Header names are in canonical form, as
  \<open>net/http\<close> stores them; parsed cookies and query values are part of the request.  The wrapped handler
  is a function that reads the request body it is given and answers with the calls it makes on the
  response writer, and how it came back.
\<close>

record httpRequest =
  rqMethod :: string
  rqPattern :: string
  rqPath :: string
  rqRawQuery :: string
  rqRequestURI :: string
  rqHost :: string
  rqTLS :: bool
  rqHeaders :: "(string \<times> string list) list"
  rqCookies :: "(string \<times> string) list"
  rqQuery :: "(string \<times> string list) list"
  rqBody :: "bytes option"
  rqBodyFails :: bool

definition headerGet :: "(string \<times> string list) list \<Rightarrow> string \<Rightarrow> string" where
  "headerGet hs k = (case map_of hs k of Some (v # vs) \<Rightarrow> v | _ \<Rightarrow> [])"

definition httpRoute :: "httpRequest \<Rightarrow> string" where
  "httpRoute r = (if rqPattern r \<noteq> [] then rqPattern r else if rqPath r \<noteq> [] then rqPath r else ''/'')"

definition shouldSkipHTTPPath :: "string list \<Rightarrow> string \<Rightarrow> bool" where
  "shouldSkipHTTPPath skip route =
     (if skip = [] \<or> route = [] then False
      else (let path = (case indexByte route (CHR '' '') of
                None \<Rightarrow> route
              | Some i \<Rightarrow> if Suc i < length route then drop (Suc i) route else route)
            in list_ex (\<lambda>candidate. candidate \<noteq> [] \<and> (path = candidate \<or> route = candidate)) skip))"

definition firstListed :: "string \<Rightarrow> string" where
  "firstListed v = trimSpace (hd (splitByte (CHR '','') v))"

definition requestScheme :: "httpRequest \<Rightarrow> string" where
  "requestScheme r =
     (let proto = headerGet (rqHeaders r) ''X-Forwarded-Proto''
      in if proto \<noteq> [] then firstListed proto else if rqTLS r then ''https'' else ''http'')"

definition requestHost :: "httpRequest \<Rightarrow> string" where
  "requestHost r =
     (let host = headerGet (rqHeaders r) ''X-Forwarded-Host'' in if host \<noteq> [] then firstListed host else rqHost r)"

definition bodyText :: "config \<Rightarrow> string \<Rightarrow> string" where
  "bodyText c body = (if cfgHTTPRedact c then credentials body else body)"

subsection \<open>Captured maps\<close>

definition firstValues :: "(string \<times> string list) list \<Rightarrow> attrs" where
  "firstValues h = List.map_filter (\<lambda>(k, vals). case vals of [] \<Rightarrow> None | v # vs \<Rightarrow> Some (k, v)) h"

definition queryMap :: "httpRequest \<Rightarrow> attrs" where
  "queryMap r = firstValues (rqQuery r)"

definition cookieMap :: "(string \<times> string) list \<Rightarrow> attrs" where
  "cookieMap cookies = fold (\<lambda>(k, v) m. if k = [] then m else AList.update k v m) cookies []"

definition setJSONObjectAttr :: "string \<Rightarrow> attrs \<Rightarrow> span \<Rightarrow> span" where
  "setJSONObjectAttr key vals s = (if vals = [] then s else setAttribute key (jsonMap vals) s)"

definition masked :: "unicodeTables \<Rightarrow> config \<Rightarrow> attrs \<Rightarrow> attrs" where
  "masked U c m = (if cfgHTTPRedact c then redactMap U m (cfgRedactPatterns c) else m)"

definition captureRequestExchange :: "unicodeTables \<Rightarrow> config \<Rightarrow> httpRequest \<Rightarrow> span \<Rightarrow> span" where
  "captureRequestExchange U c r s =
     setJSONObjectAttr ''http.request.query'' (queryMap r)
       (setJSONObjectAttr ''http.request.cookies'' (masked U c (cookieMap (rqCookies r)))
         (setJSONObjectAttr ''http.request.headers'' (masked U c (firstValues (rqHeaders r))) s))"

definition captureResponseExchange :: "unicodeTables \<Rightarrow> config \<Rightarrow> (string \<times> string list) list \<Rightarrow> span \<Rightarrow> span" where
  "captureResponseExchange U c hs s = setJSONObjectAttr ''http.response.headers'' (masked U c (firstValues hs)) s"

text \<open>\<open>readBodyCap\<close>: the bytes kept and whether there were more; nothing when reading fails.\<close>

definition readBodyCap :: "bytes \<Rightarrow> bool \<Rightarrow> int \<Rightarrow> bytes \<times> bool" where
  "readBodyCap body fails mx =
     (let cap = (if mx \<le> 0 then 65536 else nat mx) in
      if fails then ([], False) else if length body > cap then (take cap body, True) else (body, False))"

subsection \<open>The middleware\<close>

text \<open>
  What a request takes from the outside: the case tables, the clock when the span starts and how long the
  request took, random bytes, and which optional interfaces the writer of the server has.
\<close>

record serverEnv =
  hvTables :: unicodeTables
  hvNow :: int
  hvElapsed :: int
  hvTrace :: bytes
  hvSpan :: bytes
  hvFlusher :: bool
  hvHijacker :: bool

definition adoptInbound :: "httpRequest \<Rightarrow> span \<Rightarrow> span" where
  "adoptInbound r s = (case parseTraceparentContext (headerGet (rqHeaders r) ''Traceparent'') of
     None \<Rightarrow> s
   | Some remote \<Rightarrow> adopt (remote\<lparr>rcTracestate := normalizeTracestate (headerGet (rqHeaders r) ''Tracestate''),
        rcBaggage := normalizeBaggage (headerGet (rqHeaders r) ''Baggage'')\<rparr>) s)"

definition describeRequest :: "httpRequest \<Rightarrow> span \<Rightarrow> span" where
  "describeRequest r s =
     (let route = httpRoute r;
          s1 = setAttribute ''url.path'' (rqPath r) (setAttribute ''http.method'' (rqMethod r)
                 (s\<lparr>spHTTPMethod := rqMethod r, spHTTPRoute := route\<rparr>));
          s2 = (if rqRawQuery r \<noteq> [] then setAttribute ''url.query'' (rqRawQuery r) s1 else s1)
      in setAttribute ''url.full'' (requestScheme r @ ''://'' @ requestHost r @ rqRequestURI r)
           (setAttribute ''url.scheme'' (requestScheme r) s2))"

text \<open>The captured body, and the request as the wrapped handler gets it.\<close>

definition captureRequestBody :: "config \<Rightarrow> httpRequest \<Rightarrow> span \<Rightarrow> httpRequest \<times> span" where
  "captureRequestBody c r s =
     (case rqBody r of None \<Rightarrow> (r, s)
      | Some b \<Rightarrow>
          if \<not> cfgHTTPCaptureBodies c then (r, s)
          else (case readBodyCap b (rqBodyFails r) (cfgHTTPMaxBody c) of (body, truncated) \<Rightarrow>
            (let s1 = setAttribute ''http.request.body.size'' (attrInt (int (length body)))
                        (setAttribute ''http.request.body'' (bodyText c body) s);
                 s2 = (if truncated then setAttribute ''http.request.body.truncated'' ''true'' s1 else s1);
                 ct = headerGet (rqHeaders r) ''Content-Type'';
                 s3 = (if ct \<noteq> [] then setAttribute ''http.request.body.content_type'' ct s2 else s2)
             in (r\<lparr>rqBody := Some body, rqBodyFails := False\<rparr>, s3))))"

definition captureRequest :: "unicodeTables \<Rightarrow> config \<Rightarrow> httpRequest \<Rightarrow> span \<Rightarrow> httpRequest \<times> span" where
  "captureRequest U c r s =
     (if cfgHTTPCapture c then captureRequestBody c r (captureRequestExchange U c r s) else (r, s))"

definition describeResponse :: "unicodeTables \<Rightarrow> config \<Rightarrow> (string \<times> string list) list \<Rightarrow> responseRecorder \<Rightarrow> span \<Rightarrow> span" where
  "describeResponse U c hs rr s =
     (let s1 = setStatus (statusFromCode (rrStatus rr))
                 (setAttribute ''http.status_code'' (attrInt (rrStatus rr)) (s\<lparr>spHTTPStatus := uint32Status (rrStatus rr)\<rparr>))
      in if \<not> cfgHTTPCapture c then s1
         else (let s2 = captureResponseExchange U c hs s1 in
           if \<not> cfgHTTPCaptureBodies c \<or> rrBody rr = [] then s2
           else (let s3 = setAttribute ''http.response.body.size'' (attrInt (int (length (rrBody rr))))
                            (setAttribute ''http.response.body'' (bodyText c (rrBody rr)) s2);
                     s4 = (if rrTruncated rr then setAttribute ''http.response.body.truncated'' ''true'' s3 else s3);
                     ct = headerGet hs ''Content-Type''
                 in if ct \<noteq> [] then setAttribute ''http.response.body.content_type'' ct s4 else s4)))"

text \<open>The counters \<open>recordHTTP\<close> of \<open>client.go\<close> keeps.\<close>

record httpCounters =
  hcRequests :: u64
  hcErrors :: u64
  hcDuration :: u64

definition recordHTTP :: "int \<Rightarrow> int \<Rightarrow> httpCounters \<Rightarrow> httpCounters" where
  "recordHTTP status duration h =
     h\<lparr>hcRequests := hcRequests h + 1,
       hcErrors := (if status \<ge> 500 then hcErrors h + 1 else hcErrors h),
       hcDuration := (if duration > 0 then hcDuration h + of_int duration else hcDuration h)\<rparr>"

text \<open>
  A request through \<open>Handler\<close>.  \<open>next\<close> gets the context, the pprof labels of its goroutine, the request, the
  header map of the response and its own state; it answers with its calls on the writer, the header map
  as it left it and the value it panicked with, if it did.  The result is what the underlying writer gets,
  the panic, which passes through, the span as ended (none where the request is not traced) and the counters.
\<close>

record served =
  svActions :: "wAction list"
  svHeaders :: "(string \<times> string list) list"
  svPanic :: "string option"

type_synonym 'p httpNext = "ctx \<Rightarrow> attrs \<Rightarrow> httpRequest \<Rightarrow> (string \<times> string list) list \<Rightarrow> 'p \<Rightarrow> served \<times> 'p"

record handled =
  hdSent :: "wAction list"
  hdPanic :: "string option"
  hdSpan :: "span option"
  hdCounters :: httpCounters

definition untraced :: "'p httpNext \<Rightarrow> ctx \<Rightarrow> attrs \<Rightarrow> httpRequest \<Rightarrow> (string \<times> string list) list \<Rightarrow> httpCounters \<Rightarrow> 'p
    \<Rightarrow> handled \<times> 'p" where
  "untraced next cx labels r hs h p = (case next cx labels r hs p of (sv, p') \<Rightarrow>
     (\<lparr>hdSent = svActions sv, hdPanic = svPanic sv, hdSpan = None, hdCounters = h\<rparr>, p'))"

definition requestLabels :: "config \<Rightarrow> httpRequest \<Rightarrow> span \<Rightarrow> attrs \<Rightarrow> attrs" where
  "requestLabels c r s labels =
     (if cfgProfilerEnabled c
      then mergeInto [(''http.method'', rqMethod r), (''route'', httpRoute r), (''trace_id'', spTraceID s), (''span_id'', spSpanID s)] labels
      else labels)"

definition requestSpan :: "serverEnv \<Rightarrow> client \<Rightarrow> ctx \<Rightarrow> httpRequest \<Rightarrow> httpRequest \<times> span" where
  "requestSpan E cl cx r =
     (let s0 = snd (startSpan (Some cl) cx (rqMethod r @ '' '' @ httpRoute r) (hvNow E) (hvTrace E) (hvSpan E))
      in captureRequest (hvTables E) (clCfg cl) r (describeRequest r (adoptInbound r s0)))"

definition httpHandler ::
  "serverEnv \<Rightarrow> client option \<Rightarrow> 'p httpNext \<Rightarrow> ctx \<Rightarrow> attrs \<Rightarrow> httpRequest \<Rightarrow> (string \<times> string list) list
    \<Rightarrow> httpCounters \<Rightarrow> 'p \<Rightarrow> handled \<times> 'p" where
  "httpHandler E co next cx labels r hs h p = (case co of
     None \<Rightarrow> untraced next cx labels r hs h p
   | Some cl \<Rightarrow>
      if \<not> cfgEnabled (clCfg cl) \<or> \<not> cfgAPMEnabled (clCfg cl) then untraced next cx labels r hs h p
      else if shouldSkipHTTPPath (cfgHTTPSkipPaths (clCfg cl)) (httpRoute r) then untraced next cx labels r hs h p
      else (let (r1, s) = requestSpan E cl cx r;
                (sv, p') = next (Some s) (requestLabels (clCfg cl) r s labels) r1
                             (AList.update ''Traceparent'' [spanTraceparent (Some s)] hs) p;
                (sent, rr) = recRun (svActions sv) (newRecorder (clCfg cl) (hvFlusher E) (hvHijacker E))
            in (\<lparr>hdSent = sent, hdPanic = svPanic sv,
                 hdSpan = Some (describeResponse (hvTables E) (clCfg cl) (svHeaders sv) rr s),
                 hdCounters = recordHTTP (rrStatus rr) (hvElapsed E) h\<rparr>, p')))"

subsection \<open>The transport\<close>

record reqEntropy =
  reNow :: int
  reTrace :: bytes
  reSpan :: bytes

record outRequest =
  orMethod :: string
  orURL :: string
  orHost :: string
  orPath :: string
  orHeaders :: "(string \<times> string list) list"

definition headerSet :: "string \<Rightarrow> string \<Rightarrow> outRequest \<Rightarrow> outRequest" where
  "headerSet k v r = r\<lparr>orHeaders := AList.update k [v] (orHeaders r)\<rparr>"

definition propagate :: "span \<Rightarrow> outRequest \<Rightarrow> outRequest" where
  "propagate s r =
     (if spanTraceparent (Some s) = [] then r
      else (let r1 = headerSet ''Traceparent'' (spanTraceparent (Some s)) r;
                r2 = (if spTracestate s \<noteq> [] then headerSet ''Tracestate'' (spTracestate s) r1 else r1)
            in if spBaggage s \<noteq> [] then headerSet ''Baggage'' (spBaggage s) r2 else r2))"

definition outboundSpan :: "client \<Rightarrow> reqEntropy \<Rightarrow> ctx \<Rightarrow> outRequest \<Rightarrow> span option" where
  "outboundSpan cl en cx r =
     (if cfgAPMEnabled (clCfg cl) \<and> cx \<noteq> None
      then (let s = snd (startSpan (Some cl) cx (''HTTP '' @ orMethod r) (reNow en) (reTrace en) (reSpan en))
            in Some ((setAttribute ''server.address'' (orHost r) (setAttribute ''url.full'' (orURL r)
                 (setAttribute ''http.request.method'' (orMethod r) (setAttribute ''span.kind'' ''client'' s))))
               \<lparr>spHTTPMethod := orMethod r, spHTTPRoute := orPath r\<rparr>))
      else None)"

definition outboundOutcome :: "int option \<times> string option \<Rightarrow> span \<Rightarrow> span" where
  "outboundOutcome res s = (case snd res of
     Some msg \<Rightarrow> setAttribute ''exception.message'' msg (setAttribute ''error'' ''true'' (setStatus ''error'' s))
   | None \<Rightarrow> (case fst res of
        None \<Rightarrow> s
      | Some code \<Rightarrow> setStatus (statusFromCode code) (setAttribute ''http.response.status_code'' (attrInt code)
                        (s\<lparr>spHTTPStatus := uint32Status code\<rparr>))))"

text \<open>
  \<open>RoundTrip\<close>: \<open>send\<close> is the wrapped transport, answering with a status or an error; the last two
  components are the wait handed to the I/O recorder and the span as ended.
\<close>

definition roundTrip ::
  "client \<Rightarrow> reqEntropy \<Rightarrow> (outRequest \<Rightarrow> 'p \<Rightarrow> (int option \<times> string option) \<times> 'p) \<Rightarrow> ctx \<Rightarrow> outRequest \<Rightarrow> 'p
    \<Rightarrow> (int option \<times> string option) \<times> 'p \<times> (string \<times> string) \<times> span option" where
  "roundTrip cl en send cx r p =
     (let so = outboundSpan cl en cx r;
          r' = (case so of None \<Rightarrow> r | Some s \<Rightarrow> propagate s r);
          (res, p') = send r' p
      in (res, p', (''HTTP '' @ orMethod r @ '' '' @ orHost r, ''http''), map_option (outboundOutcome res) so))"

text \<open>\<open>Transport\<close>: without an enabled client it is the wrapped transport itself.\<close>

definition httpTransport ::
  "client option \<Rightarrow> reqEntropy \<Rightarrow> (outRequest \<Rightarrow> 'p \<Rightarrow> (int option \<times> string option) \<times> 'p) \<Rightarrow> ctx \<Rightarrow> outRequest \<Rightarrow> 'p
    \<Rightarrow> (int option \<times> string option) \<times> 'p \<times> (string \<times> string) option \<times> span option" where
  "httpTransport co en send cx r p =
     (if (case co of None \<Rightarrow> True | Some cl \<Rightarrow> \<not> cfgEnabled (clCfg cl))
      then (case send r p of (res, p') \<Rightarrow> (res, p', None, None))
      else (case roundTrip (the co) en send cx r p of (res, p', wait, so) \<Rightarrow> (res, p', Some wait, so)))"

subsection \<open>Results\<close>

definition quietServer :: "bytes \<Rightarrow> serverEnv" where
  "quietServer rnd8 = \<lparr>hvTables = asciiTables, hvNow = 0, hvElapsed = 0, hvTrace = ''ABCDEFGHIJKLMNOP'', hvSpan = rnd8,
     hvFlusher = True, hvHijacker = True\<rparr>"

definition plainRequest :: "bytes \<Rightarrow> httpRequest" where
  "plainRequest body = \<lparr>rqMethod = ''POST'', rqPattern = [], rqPath = ''/orders'', rqRawQuery = [], rqRequestURI = ''/orders'',
     rqHost = ''shop'', rqTLS = False, rqHeaders = [], rqCookies = [], rqQuery = [], rqBody = Some body, rqBodyFails = False\<rparr>"

lemma captured_body_given:
  assumes "cfgHTTPCapture c" "cfgHTTPCaptureBodies c" "rqBody r = Some b"
  shows "rqBody (fst (captureRequest U c r s)) = Some (fst (readBodyCap b (rqBodyFails r) (cfgHTTPMaxBody c)))"
  using assms by (simp add: captureRequest_def captureRequestBody_def Let_def split: prod.splits)

text \<open>
  Capturing a request body changes what the application reads.  With body capture on, a request
  body longer than the cap reaches the wrapped handler cut off at the cap, and a body whose reading
  fails reaches it as an empty one, without the error.
\<close>

theorem captured_request_body_is_cut:
  assumes "cfgEnabled (clCfg cl)" "cfgAPMEnabled (clCfg cl)" "\<not> shouldSkipHTTPPath (cfgHTTPSkipPaths (clCfg cl)) (httpRoute r)"
    and "cfgHTTPCapture (clCfg cl)" "cfgHTTPCaptureBodies (clCfg cl)" "rqBody r = Some b" "cfgHTTPMaxBody (clCfg cl) > 0"
  shows "snd (httpHandler E (Some cl) (\<lambda>cx labels r' hs p. (\<lparr>svActions = [], svHeaders = hs, svPanic = None\<rparr>, rqBody r')) cx labels r hs h p)
    = Some (if rqBodyFails r then [] else take (nat (cfgHTTPMaxBody (clCfg cl))) b)"
proof -
  have "snd (httpHandler E (Some cl) (\<lambda>cx labels r' hs p. (\<lparr>svActions = [], svHeaders = hs, svPanic = None\<rparr>, rqBody r')) cx labels r hs h p)
      = rqBody (fst (requestSpan E cl cx r))"
    using assms(1-3) by (simp add: httpHandler_def case_prod_unfold Let_def)
  then show ?thesis
    using captured_body_given [OF assms(4-6)] assms(7) by (simp add: requestSpan_def readBodyCap_def Let_def)
qed

definition bodyClient :: client where
  "bodyClient = liveClient\<lparr>clCfg := bodyConfig\<rparr>"

theorem captured_request_body_is_cut_witness:
  "snd (httpHandler E (Some bodyClient) (\<lambda>cx labels r' hs p. (\<lparr>svActions = [], svHeaders = hs, svPanic = None\<rparr>, rqBody r'))
      None [] (plainRequest ''sku=42&n=7'') [] h None) = Some ''sku=''"
  using captured_request_body_is_cut [of bodyClient "plainRequest ''sku=42&n=7''" "''sku=42&n=7''"]
  by (simp add: bodyClient_def bodyConfig_def liveConfig_def zeroConfig_def plainRequest_def httpRoute_def shouldSkipHTTPPath_def)

text \<open>
  A request that panics is recorded as a success.  The deferred function reads the status of the
  recorder, which is 200 until the handler sets one, and does not look for a panic: the connection is
  torn down, and the span says 200 and ok.
\<close>

theorem panicked_request_recorded_ok:
  assumes "cfgEnabled (clCfg cl)" "cfgAPMEnabled (clCfg cl)" "\<not> shouldSkipHTTPPath (cfgHTTPSkipPaths (clCfg cl)) (httpRoute r)"
    and "\<not> cfgHTTPCapture (clCfg cl)"
  shows "case httpHandler E (Some cl) (\<lambda>cx labels r' hs p. (\<lparr>svActions = [], svHeaders = hs, svPanic = Some msg\<rparr>, p)) cx labels r hs h p of (res, p') \<Rightarrow>
    hdPanic res = Some msg \<and> (case hdSpan res of None \<Rightarrow> False | Some s \<Rightarrow> spStatus s = ''ok'' \<and> spHTTPStatus s = 200)"
  using assms
  by (simp add: httpHandler_def case_prod_unfold Let_def newRecorder_def describeResponse_def setStatus_def setAttribute_def
      statusFromCode_def uint32Status_def)

theorem panicked_request_recorded_ok_witness:
  "case fst (httpHandler E (Some liveClient) (\<lambda>cx labels r' hs p. (\<lparr>svActions = [], svHeaders = hs, svPanic = Some ''boom''\<rparr>, p)) None []
      (plainRequest []) [] h ()) of res \<Rightarrow> hdPanic res = Some ''boom''"
  using panicked_request_recorded_ok [where cl = liveClient and r = "plainRequest []" and E = E and msg = "''boom''" and cx = None
      and labels = "[]" and hs = "[]" and h = h and p = "()"]
  by (auto simp: liveClient_def liveConfig_def zeroConfig_def shouldSkipHTTPPath_def)

lemma spanIdentity_captured [identity]: "spanIdentity (setJSONObjectAttr key vals s) = spanIdentity s"
  by (simp add: setJSONObjectAttr_def identity)

lemma spanIdentity_describeRequest [identity]: "spanIdentity (describeRequest r s) = spanIdentity s"
  by (simp add: describeRequest_def Let_def identity)

lemma spanIdentity_captureRequest [identity]: "spanIdentity (snd (captureRequest U c r s)) = spanIdentity s"
  by (simp add: captureRequest_def captureRequestBody_def captureRequestExchange_def Let_def identity case_prod_unfold
      split: option.split)

lemma spanIdentity_describeResponse [identity]: "spanIdentity (describeResponse U c hs rr s) = spanIdentity s"
  by (simp add: describeResponse_def captureResponseExchange_def Let_def identity)

lemma headerGet_update [simp]:
  "headerGet (AList.update k [v] hs) k' = (if k = k' then v else headerGet hs k')"
  by (simp add: headerGet_def)

lemma propagated_headers:
  assumes "spanTraceparent (Some s) \<noteq> []" "headerGet (orHeaders r) ''Tracestate'' = []" "headerGet (orHeaders r) ''Baggage'' = []"
  shows "headerGet (orHeaders (propagate s r)) ''Traceparent'' = spanTraceparent (Some s)"
    "headerGet (orHeaders (propagate s r)) ''Tracestate'' = spTracestate s"
    "headerGet (orHeaders (propagate s r)) ''Baggage'' = spBaggage s"
  using assms by (simp_all add: propagate_def Let_def headerSet_def)

text \<open>
  C15: a call between two services is one trace.  A request sent through the outbound transport of one
  client from within a traced context, by a caller who set no tracestate or baggage of their own, and served
  by the middleware of another: the transport sends the request of the span it ends, and the server's span
  is a child of it, in its trace, under its sampling decision, with its tracestate and baggage
  normalised; whatever the wrapped handler does, it runs under that span.
\<close>

theorem http_hop_one_trace:
  assumes "cfgEnabled (clCfg clB)" "cfgAPMEnabled (clCfg clB)" "\<not> shouldSkipHTTPPath (cfgHTTPSkipPaths (clCfg clB)) (httpRoute rq)"
    and "outboundSpan clA enA cx r = Some out" "validIds (spTraceID out) (spSpanID out)"
    and "headerGet (orHeaders r) ''Tracestate'' = []" "headerGet (orHeaders r) ''Baggage'' = []"
    and "rqHeaders rq = orHeaders (propagate out r)"
  shows "(case roundTrip clA enA (\<lambda>r' _. (answer, Some r')) cx r None of (res, sent, wait, so) \<Rightarrow>
       res = answer \<and> sent = Some (propagate out r) \<and> so = Some (outboundOutcome answer out))
    \<and> (case httpHandler E (Some clB) (\<lambda>cx' labels rq' hs' _. (serve cx' rq', cx')) cxB labels rq hs h None of (res, seen) \<Rightarrow>
       (case (seen, hdSpan res) of
          (Some c, Some s) \<Rightarrow> spanIdentity c = spanIdentity s
            \<and> spTraceID s = spTraceID out \<and> spParentID s = spSpanID out \<and> spSampled s = spSampled out
            \<and> spTracestate s = normalizeTracestate (spTracestate out) \<and> spBaggage s = normalizeBaggage (spBaggage out)
        | _ \<Rightarrow> False))"
proof -
  define remote where "remote = \<lparr>rcTraceID = spTraceID out, rcSpanID = spSpanID out, rcSampled = spSampled out,
    rcTracestate = normalizeTracestate (spTracestate out), rcBaggage = normalizeBaggage (spBaggage out)\<rparr>"
  have ne: "spTraceID out \<noteq> []" "spSpanID out \<noteq> []" using assms(5) by (auto simp: validIds_def lowerHex_def)
  then have tp: "spanTraceparent (Some out) \<noteq> []" by (simp add: spanTraceparent_def formatTraceparent_def)
  have parsed: "parseTraceparentContext (spanTraceparent (Some out)) =
      Some (noRemote\<lparr>rcTraceID := spTraceID out, rcSpanID := spSpanID out, rcSampled := spSampled out\<rparr>)"
    using parse_format [OF assms(5)] by (simp add: spanTraceparent_def)
  have adopted: "adoptInbound rq s = adopt remote s" for s
    using propagated_headers [OF tp assms(6,7)] by (simp add: adoptInbound_def assms(8) parsed remote_def noRemote_def)
  have rv: "remoteValid remote" using ne by (simp add: remoteValid_def remote_def)
  define s0 where "s0 = snd (startSpan (Some clB) cxB (rqMethod rq @ '' '' @ httpRoute rq) (hvNow E) (hvTrace E) (hvSpan E))"
  have id: "spanIdentity (snd (requestSpan E clB cxB rq)) = spanIdentity (adopt remote s0)"
    by (simp add: requestSpan_def Let_def identity adopted s0_def)
  have first: "roundTrip clA enA (\<lambda>r' _. (answer, Some r')) cx r None =
      (answer, Some (propagate out r), (''HTTP '' @ orMethod r @ '' '' @ orHost r, ''http''), Some (outboundOutcome answer out))"
    using assms(4) by (simp add: roundTrip_def Let_def)
  have fin: "spanIdentity (describeResponse U c hs' rr (snd (requestSpan E clB cxB rq))) = spanIdentity (adopt remote s0)" for U c hs' rr
    by (simp add: identity id)
  then show ?thesis
    using assms(1-3) rv id first
    by (simp add: httpHandler_def case_prod_unfold Let_def) (auto simp: spanIdentity_def adopt_def remote_def)
qed

definition outEntropy :: reqEntropy where
  "outEntropy = \<lparr>reNow = 0, reTrace = [], reSpan = ''ABCDEFGH''\<rparr>"

definition outCall :: outRequest where
  "outCall = \<lparr>orMethod = ''GET'', orURL = ''http://b/stock'', orHost = ''b'', orPath = ''/stock'', orHeaders = []\<rparr>"

definition outSpan :: span where
  "outSpan = the (outboundSpan liveClient outEntropy
     (Some (zeroSpan\<lparr>spTraceID := w3cTrace, spSpanID := w3cSpan, spSampled := True\<rparr>)) outCall)"

definition inCall :: httpRequest where
  "inCall = (plainRequest [])\<lparr>rqHeaders := orHeaders (propagate outSpan outCall)\<rparr>"

lemma outbound_ids:
  assumes "tracingOn (Some cl)" "spTraceID s \<noteq> []"
  obtains out where "outboundSpan cl en (Some s) r = Some out" "spTraceID out = spTraceID s" "spSpanID out = newSpanID (reSpan en)"
proof
  have "spTraceID (snd (startSpan (Some cl) (Some s) n t e (reSpan en))) = spTraceID s"
    "spSpanID (snd (startSpan (Some cl) (Some s) n t e (reSpan en))) = newSpanID (reSpan en)" for n t e
    using assms by (simp_all add: startSpan_def Let_def)
  then show "outboundSpan cl en (Some s) r = Some (the (outboundSpan cl en (Some s) r))"
    "spTraceID (the (outboundSpan cl en (Some s) r)) = spTraceID s"
    "spSpanID (the (outboundSpan cl en (Some s) r)) = newSpanID (reSpan en)"
    using assms by (simp_all add: outboundSpan_def Let_def setAttribute_def)
qed

lemma outSpan_ids:
  "outboundSpan liveClient outEntropy (Some (zeroSpan\<lparr>spTraceID := w3cTrace, spSpanID := w3cSpan, spSampled := True\<rparr>)) outCall = Some outSpan
   \<and> spTraceID outSpan = w3cTrace \<and> spSpanID outSpan = hexEncode ''ABCDEFGH''"
proof -
  have live: "tracingOn (Some liveClient)" by (simp add: liveClient_def liveConfig_def zeroConfig_def)
  have ne: "spTraceID (zeroSpan\<lparr>spTraceID := w3cTrace, spSpanID := w3cSpan, spSampled := True\<rparr>) \<noteq> []"
    using w3c_valid by (auto simp: validIds_def lowerHex_def)
  obtain out where "outboundSpan liveClient outEntropy (Some (zeroSpan\<lparr>spTraceID := w3cTrace, spSpanID := w3cSpan, spSampled := True\<rparr>)) outCall = Some out"
    "spTraceID out = w3cTrace" "spSpanID out = newSpanID (reSpan outEntropy)"
    by (rule outbound_ids [OF live ne]) simp
  then show ?thesis by (simp add: outSpan_def outEntropy_def newSpanID_def)
qed

theorem http_hop_one_trace_witness:
  "case httpHandler (quietServer ''HGFEDCBA'') (Some liveClient)
       (\<lambda>cx' labels rq' hs' _. (\<lparr>svActions = [], svHeaders = [], svPanic = None\<rparr>, cx')) None [] inCall []
       \<lparr>hcRequests = 0, hcErrors = 0, hcDuration = 0\<rparr> None of
     (res, seen) \<Rightarrow> (case hdSpan res of None \<Rightarrow> False | Some s \<Rightarrow> spTraceID s = w3cTrace \<and> spParentID s = hexEncode ''ABCDEFGH'')"
proof -
  have live: "cfgEnabled (clCfg liveClient)" "cfgAPMEnabled (clCfg liveClient)"
    "\<not> shouldSkipHTTPPath (cfgHTTPSkipPaths (clCfg liveClient)) (httpRoute inCall)"
    by (simp_all add: liveClient_def liveConfig_def zeroConfig_def shouldSkipHTTPPath_def)
  have v: "validIds (spTraceID outSpan) (spSpanID outSpan)"
    using outSpan_ids w3c_valid lowerHex_hexEncode [of "''ABCDEFGH''" 8]
    by (simp add: validIds_def) (simp add: allZero_def hexEncode_def hexLower_def charOf_eq)
  have hs: "headerGet (orHeaders outCall) k = []" for k by (simp add: outCall_def headerGet_def)
  have rq: "rqHeaders inCall = orHeaders (propagate outSpan outCall)" by (simp add: inCall_def)
  note hop = http_hop_one_trace [where clA = liveClient and serve = "\<lambda>_ _. \<lparr>svActions = [], svHeaders = [], svPanic = None\<rparr>"
      and h = "\<lparr>hcRequests = 0, hcErrors = 0, hcDuration = 0\<rparr>" and labels = "[]" and hs = "[]" and cxB = None
      and E = "quietServer ''HGFEDCBA''" and answer = "(None, None)",
      OF live outSpan_ids [THEN conjunct1] v hs hs rq, THEN conjunct2]
  show ?thesis
    using hop outSpan_ids by (simp add: case_prod_unfold split: option.splits)
qed

text \<open>
  Secrets in the query string are recorded in the clear.  With redaction on and \<open>token\<close> among the
  patterns, a header named so is masked before it is captured while the query parameter of the same
  name is not.
\<close>

theorem query_is_not_masked:
  "(let c = liveConfig\<lparr>cfgHTTPRedact := True, cfgRedactPatterns := [''token'']\<rparr>;
        r = (plainRequest [])\<lparr>rqHeaders := [(''X-Token'', [''hunter2-hunter2''])], rqQuery := [(''token'', [''hunter2-hunter2''])]\<rparr>;
        s = captureRequestExchange asciiTables c r zeroSpan
    in map_of (spAttributes s) ''http.request.headers'' = Some (jsonMap [(''X-Token'', maskPrefix @ ''ter2'')])
     \<and> map_of (spAttributes s) ''http.request.query'' = Some (jsonMap [(''token'', ''hunter2-hunter2'')]))"
proof -
  have "isSensitive asciiTables ''X-Token'' [''token'']" by code_simp
  then show ?thesis
    by (simp add: Let_def captureRequestExchange_def masked_def queryMap_def firstValues_def map_filter_simps cookieMap_def
        setJSONObjectAttr_def redactMap_def maskValue_def setAttribute_def maxAttributes_def zeroSpan_def plainRequest_def)
qed

end
