(* ===== verification/GoFloat.thy ===== *)
theory GoFloat
  imports GoNum Complex_Main "HOL-Library.Log_Nat"
begin

text \<open>
  Go's \<open>float64\<close>, IEEE 754 binary64, over exact rationals: a finite value is the rational it
  stands for (the sign of zero, which nothing here reads, is not kept), every operation is
  the exact one rounded to the nearest representable value, ties to the even significand.
  Then the two conversions to and from text the program uses: \<open>strconv.FormatFloat(x, 'f', 6,
  64)\<close> and \<open>strconv.ParseFloat(s, 64)\<close>, the latter with all of its grammar: sign, decimal and
  hexadecimal literals, exponents, digit-separating underscores, infinities and NaN.
\<close>

subsection \<open>Rounding\<close>

datatype f64 = Fin rat | PosInf | NegInf | NaN

definition roundHalfEven :: "rat \<Rightarrow> int" where
  "roundHalfEven x =
     (let f = \<lfloor>x\<rfloor>; d = x - of_int f
      in if d < 1 / 2 then f else if 1 / 2 < d then f + 1 else if even f then f else f + 1)"

text \<open>The exponent of the leading bit: \<open>2 ^ binExp x \<le> \<bar>x\<bar> < 2 ^ (binExp x + 1)\<close> for \<open>x \<noteq> 0\<close>.\<close>

definition binExp :: "rat \<Rightarrow> int" where
  "binExp x = (if 1 \<le> \<bar>x\<bar> then bitlen \<lfloor>\<bar>x\<bar>\<rfloor> - 1 else - bitlen (\<lceil>1 / \<bar>x\<bar>\<rceil> - 1))"

text \<open>53 significant bits, none below \<open>2 ^ -1074\<close>; from \<open>2 ^ 1024\<close> on an infinity.\<close>

definition f64Value :: "rat \<Rightarrow> rat" where
  "f64Value x =
     (if x = 0 then 0
      else let q = max (binExp x - 52) (- 1074)
           in of_int (roundHalfEven (x / 2 powi q)) * 2 powi q)"

definition toF64 :: "rat \<Rightarrow> f64" where
  "toF64 x = (let r = f64Value x
              in if 2 ^ 1024 \<le> r then PosInf else if r \<le> - (2 ^ 1024) then NegInf else Fin r)"

subsection \<open>Operations\<close>

definition fneg :: "f64 \<Rightarrow> f64" where
  "fneg x = (case x of Fin r \<Rightarrow> Fin (- r) | PosInf \<Rightarrow> NegInf | NegInf \<Rightarrow> PosInf | NaN \<Rightarrow> NaN)"

definition fadd :: "f64 \<Rightarrow> f64 \<Rightarrow> f64" where
  "fadd x y =
     (case (x, y) of
        (Fin a, Fin b) \<Rightarrow> toF64 (a + b)
      | (NaN, _) \<Rightarrow> NaN | (_, NaN) \<Rightarrow> NaN
      | (Fin a, y) \<Rightarrow> y | (x, Fin b) \<Rightarrow> x
      | (x, y) \<Rightarrow> if x = y then x else NaN)"

definition fsub :: "f64 \<Rightarrow> f64 \<Rightarrow> f64" where
  "fsub x y = fadd x (fneg y)"

text \<open>Multiplication and division by a positive constant.\<close>

definition fmulBy :: "f64 \<Rightarrow> rat \<Rightarrow> f64" where
  "fmulBy x c = (case x of Fin a \<Rightarrow> toF64 (a * c) | _ \<Rightarrow> x)"

definition fdivBy :: "f64 \<Rightarrow> rat \<Rightarrow> f64" where
  "fdivBy x c = (case x of Fin a \<Rightarrow> toF64 (a / c) | _ \<Rightarrow> x)"

definition fless :: "f64 \<Rightarrow> f64 \<Rightarrow> bool" where
  "fless x y =
     (case (x, y) of
        (Fin a, Fin b) \<Rightarrow> a < b
      | (NegInf, y) \<Rightarrow> y \<noteq> NegInf \<and> y \<noteq> NaN
      | (x, PosInf) \<Rightarrow> x \<noteq> PosInf \<and> x \<noteq> NaN
      | _ \<Rightarrow> False)"

definition fle :: "f64 \<Rightarrow> f64 \<Rightarrow> bool" where
  "fle x y \<longleftrightarrow> fless x y \<or> (x = y \<and> x \<noteq> NaN)"

text \<open>
  \<open>int64(x)\<close> truncates; Go leaves the result to the implementation when it does not fit
  (\<open>spill\<close>: the smallest \<open>int64\<close> on amd64, 0 or a saturated value elsewhere).
\<close>

definition toInt64 :: "(f64 \<Rightarrow> int) \<Rightarrow> f64 \<Rightarrow> int" where
  "toInt64 spill x =
     (case x of
        Fin a \<Rightarrow> (let t = (if 0 \<le> a then \<lfloor>a\<rfloor> else \<lceil>a\<rceil>)
                  in if - (2 ^ 63) \<le> t \<and> t < 2 ^ 63 then t else spill x)
      | _ \<Rightarrow> spill x)"

subsection \<open>Formatting\<close>

text \<open>\<open>strconv.FormatFloat(x, 'f', 6, 64)\<close>: the exact value to six decimals, ties to even.\<close>

definition fixed6 :: "nat \<Rightarrow> string" where
  "fixed6 n = digits10 (n div 1000000) @ ''.'' @ pad6 (n mod 1000000)"

definition formatFixed6 :: "f64 \<Rightarrow> string" where
  "formatFixed6 x =
     (case x of
        Fin a \<Rightarrow> (if a < 0 then ''-'' else []) @ fixed6 (nat (roundHalfEven (\<bar>a\<bar> * 1000000)))
      | PosInf \<Rightarrow> ''+Inf'' | NegInf \<Rightarrow> ''-Inf'' | NaN \<Rightarrow> ''NaN'')"

text \<open>
  \<open>strconv.FormatFloat(x, 'f', -1, 64)\<close> of a value that is not negative: the fewest significant digits
  that read back as \<open>x\<close>, the closest such digits, without an exponent.  \<open>decExp\<close> is the position of the
  leading digit; with \<open>p\<close> digits there are two candidates, below and above, and 17 digits always do.
\<close>

definition decExp :: "rat \<Rightarrow> int" where
  "decExp x = (if 1 \<le> x then int (length (digits10 (nat \<lfloor>x\<rfloor>))) - 1 else - int (length (digits10 (nat (\<lceil>1 / x\<rceil> - 1)))))"

definition roundDigits :: "rat \<Rightarrow> nat \<Rightarrow> int option" where
  "roundDigits x p =
     (let u = 10 powi (decExp x - int p + 1); m = \<lfloor>x / u\<rfloor>;
          below = (toF64 (of_int m * u) = Fin x); above = (toF64 (of_int (m + 1) * u) = Fin x);
          d = x / u - of_int m
      in if below \<and> above then Some (if d < 1 / 2 \<or> d = 1 / 2 \<and> even m then m else m + 1)
         else if below then Some m else if above then Some (m + 1) else None)"

definition shortestDigits :: "rat \<Rightarrow> int \<times> int" where
  "shortestDigits x =
     (let p = (case find (\<lambda>p. roundDigits x p \<noteq> None) [1..<18] of Some p \<Rightarrow> p | None \<Rightarrow> 17);
          q = decExp x - int p + 1;
          m = (case roundDigits x p of Some m \<Rightarrow> m | None \<Rightarrow> \<lfloor>x / 10 powi q\<rfloor>)
      in if m = 10 ^ p then (10 ^ (p - 1), q + 1) else (m, q))"

definition plainDecimal :: "nat \<Rightarrow> int \<Rightarrow> string" where
  "plainDecimal m q =
     (if q \<ge> 0 then digits10 (m * 10 ^ nat q)
      else let k = nat (- q); frac = digits10 (m mod 10 ^ k)
           in digits10 (m div 10 ^ k) @ CHR ''.'' # replicate (k - length frac) (CHR ''0'') @ frac)"

definition formatShortest :: "rat \<Rightarrow> string" where
  "formatShortest x = (if x = 0 then ''0'' else case shortestDigits x of (m, q) \<Rightarrow> plainDecimal (nat m) q)"

subsection \<open>Parsing\<close>

definition lowerAscii :: "char \<Rightarrow> char" where
  "lowerAscii c = (if 65 \<le> ord c \<and> ord c \<le> 90 then char_of (ord c + 32) else c)"

definition hexDigit :: "char \<Rightarrow> nat option" where
  "hexDigit c = (case digitVal c of Some d \<Rightarrow> Some d | None \<Rightarrow>
     (let o' = ord (lowerAscii c) in if 97 \<le> o' \<and> o' \<le> 102 then Some (o' - 87) else None))"

text \<open>
  The digit loop of \<open>readFloat\<close>: \<open>(m, k, dot, digits, rest)\<close>, the value of the digits read, how
  many of them followed the point, whether a point and a digit were seen, what is left.
\<close>

fun mantLoop :: "bool \<Rightarrow> string \<Rightarrow> nat \<Rightarrow> nat \<Rightarrow> bool \<Rightarrow> bool \<Rightarrow> nat \<times> nat \<times> bool \<times> string" where
  "mantLoop hex [] m k dot digits = (m, k, digits, [])"
| "mantLoop hex (c # cs) m k dot digits =
     (if c = CHR ''_'' then mantLoop hex cs m k dot digits
      else if c = CHR ''.'' then
        (if dot then (m, k, digits, c # cs) else mantLoop hex cs m k True digits)
      else case (if hex then hexDigit c else digitVal c) of
             None \<Rightarrow> (m, k, digits, c # cs)
           | Some d \<Rightarrow> mantLoop hex cs ((if hex then 16 else 10) * m + d)
                         (if dot then Suc k else k) dot True)"

text \<open>The digits of the exponent, underscores skipped; it stops growing from 10000 on.\<close>

fun expLoop :: "string \<Rightarrow> nat \<Rightarrow> nat \<times> string" where
  "expLoop [] e = (e, [])"
| "expLoop (c # cs) e =
     (if c = CHR ''_'' then expLoop cs e
      else case digitVal c of None \<Rightarrow> (e, c # cs)
           | Some d \<Rightarrow> expLoop cs (if e < 10000 then 10 * e + d else e))"

definition readExp :: "char \<Rightarrow> string \<Rightarrow> (int \<times> string) option option" where
  "readExp mark s =
     (case s of [] \<Rightarrow> Some None
      | c # cs \<Rightarrow>
          if lowerAscii c \<noteq> mark then Some None
          else let neg = (cs \<noteq> [] \<and> hd cs = CHR ''-'');
                   ds = (if cs \<noteq> [] \<and> (hd cs = CHR ''+'' \<or> hd cs = CHR ''-'') then tl cs else cs)
               in if ds = [] \<or> digitVal (hd ds) = None then None
                  else case expLoop ds 0 of (e, rest) \<Rightarrow>
                    Some (Some (if neg then - int e else int e, rest)))"

text \<open>\<open>underscoreOK\<close>: an underscore separates digits, or the base prefix from the digits.\<close>

fun underLoop :: "bool \<Rightarrow> char \<Rightarrow> string \<Rightarrow> bool" where
  "underLoop hex prev [] = (prev \<noteq> CHR ''_'')"
| "underLoop hex prev (c # cs) =
     (if (if hex then hexDigit c else digitVal c) \<noteq> None then underLoop hex (CHR ''0'') cs
      else if c = CHR ''_'' then (if prev \<noteq> CHR ''0'' then False else underLoop hex (CHR ''_'') cs)
      else if prev = CHR ''_'' then False
      else underLoop hex (CHR ''!'') cs)"

definition dropSign :: "string \<Rightarrow> string" where
  "dropSign s = (case s of [] \<Rightarrow> [] | c # cs \<Rightarrow> if c = CHR ''+'' \<or> c = CHR ''-'' then cs else s)"

definition underscoreOK :: "string \<Rightarrow> bool" where
  "underscoreOK s =
     (case dropSign s of
        a # b # t \<Rightarrow>
          if a = CHR ''0'' \<and> lowerAscii b \<in> {CHR ''b'', CHR ''o'', CHR ''x''}
          then underLoop (lowerAscii b = CHR ''x'') (CHR ''0'') t
          else underLoop False (CHR ''^'') (a # b # t)
      | t \<Rightarrow> underLoop False (CHR ''^'') t)"

definition negative :: "string \<Rightarrow> bool" where
  "negative s \<longleftrightarrow> (case s of [] \<Rightarrow> False | c # _ \<Rightarrow> c = CHR ''-'')"

text \<open>The exact value of a literal that spans the whole string; \<open>None\<close> is \<open>ErrSyntax\<close>.\<close>

definition hexLiteral :: "string \<Rightarrow> bool" where
  "hexLiteral t \<longleftrightarrow> 2 < length t \<and> hasPrefix t ''0'' \<and> lowerAscii (t ! 1) = CHR ''x''"

definition literalValue :: "bool \<Rightarrow> bool \<Rightarrow> string \<Rightarrow> rat option" where
  "literalValue hex underscored t =
     (case mantLoop hex t 0 0 False False of (m, k, digits, rest) \<Rightarrow>
        if \<not> digits then None
        else case readExp (if hex then CHR ''p'' else CHR ''e'') rest of
          None \<Rightarrow> None
        | Some ex \<Rightarrow>
            if hex \<and> ex = None then None
            else case (case ex of None \<Rightarrow> (0, rest) | Some er \<Rightarrow> er) of (e, end) \<Rightarrow>
              if end \<noteq> [] \<or> underscored then None
              else Some (of_nat m * (if hex then 2 powi (e - 4 * int k) else 10 powi (e - int k))))"

definition readNumber :: "string \<Rightarrow> rat option" where
  "readNumber s =
     (let t = dropSign s; hex = hexLiteral t
      in map_option (\<lambda>v. if negative s then - v else v)
           (literalValue hex (CHR ''_'' \<in> set s \<and> \<not> underscoreOK s) (if hex then drop 2 t else t)))"

text \<open>\<open>strconv.ParseFloat(s, 64)\<close>; \<open>None\<close> is an error, of syntax or of range.\<close>

definition parseFloat :: "string \<Rightarrow> f64 option" where
  "parseFloat s =
     (let t = map lowerAscii (dropSign s)
      in if t = ''inf'' \<or> t = ''infinity'' then Some (if negative s then NegInf else PosInf)
         else if map lowerAscii s = ''nan'' then Some NaN
         else case readNumber s of None \<Rightarrow> None
           | Some v \<Rightarrow> (case toF64 v of Fin r \<Rightarrow> Some (Fin r) | _ \<Rightarrow> None))"

subsection \<open>The rounding error\<close>

lemma roundHalfEven_error: "\<bar>of_int (roundHalfEven x) - x\<bar> \<le> 1 / 2"
proof -
  have "of_int \<lfloor>x\<rfloor> \<le> x" "x < of_int \<lfloor>x\<rfloor> + 1" by linarith+
  then show ?thesis by (auto simp: roundHalfEven_def Let_def)
qed

lemma binExp_le:
  assumes "x \<noteq> 0"
  shows "2 powi binExp x \<le> \<bar>x\<bar>"
proof (cases "1 \<le> \<bar>x\<bar>")
  case True
  let ?n = "\<lfloor>\<bar>x\<bar>\<rfloor>"
  from True have n: "1 \<le> ?n" by linarith
  then have "2 ^ nat (bitlen ?n - 1) \<le> ?n" using bitlen_bounds [of ?n] by linarith
  then have "(of_int (2 ^ nat (bitlen ?n - 1)) :: rat) \<le> of_int ?n" by (simp only: of_int_le_iff)
  also have "of_int ?n \<le> \<bar>x\<bar>" by linarith
  finally have "2 ^ nat (bitlen ?n - 1) \<le> \<bar>x\<bar>" by simp
  moreover have "0 < bitlen ?n" using n bitlen_nonneg [of ?n] bitlen_eq_zero_iff [of ?n] by linarith
  ultimately show ?thesis
    using True by (simp add: binExp_def power_int_def)
next
  case False
  let ?n = "\<lceil>1 / \<bar>x\<bar>\<rceil>"
  have "?n - 1 < 2 ^ nat (bitlen (?n - 1))"
    using bitlen_bounds [of "?n - 1"] zero_less_power [of "2 :: int" "nat (bitlen (?n - 1))"]
    by (cases "0 < ?n - 1") linarith+
  then have "?n \<le> 2 ^ nat (bitlen (?n - 1))" by linarith
  then have "(of_int ?n :: rat) \<le> of_int (2 ^ nat (bitlen (?n - 1)))" by (simp only: of_int_le_iff)
  from order_trans [OF le_of_int_ceiling this]
  have "1 / \<bar>x\<bar> \<le> 2 ^ nat (bitlen (?n - 1))" by simp
  with assms have "1 / 2 ^ nat (bitlen (?n - 1)) \<le> \<bar>x\<bar>"
    by (simp add: field_simps)
  then show ?thesis
    using False bitlen_nonneg [of "?n - 1"]
    by (cases "bitlen (?n - 1) = 0") (auto simp: binExp_def power_int_def field_simps)
qed

lemma f64Value_error: "\<bar>f64Value x - x\<bar> \<le> \<bar>x\<bar> / 2 ^ 53 + 1 / 2 ^ 60"
proof (cases "x = 0")
  case False
  let ?q = "max (binExp x - 52) (- 1074)"
  have pos: "(0 :: rat) < 2 powi ?q" by simp
  have "\<bar>of_int (roundHalfEven (x / 2 powi ?q)) - x / 2 powi ?q\<bar> * 2 powi ?q \<le> 1 / 2 * 2 powi ?q"
    using roundHalfEven_error pos by (intro mult_right_mono) auto
  also have "\<bar>of_int (roundHalfEven (x / 2 powi ?q)) - x / 2 powi ?q\<bar> * 2 powi ?q
      = \<bar>(of_int (roundHalfEven (x / 2 powi ?q)) - x / 2 powi ?q) * 2 powi ?q\<bar>"
    using pos by (simp add: abs_mult)
  also have "\<dots> = \<bar>f64Value x - x\<bar>"
    using False by (simp add: f64Value_def Let_def left_diff_distrib)
  finally have e: "\<bar>f64Value x - x\<bar> \<le> 2 powi ?q / 2" by simp
  have "2 powi ?q \<le> \<bar>x\<bar> / 2 ^ 52 + 1 / 2 ^ 60"
  proof (cases "binExp x - 52 \<le> - 1074")
    case True
    then have "?q = - 1074" by simp
    then have "2 powi ?q \<le> (2 :: rat) powi (- 60)" by (intro power_int_increasing) auto
    also have "\<dots> = 1 / 2 ^ 60" by (simp add: power_int_minus field_simps)
    finally show ?thesis by (simp add: add_increasing)
  next
    case f: False
    then have "2 powi ?q = (2 :: rat) powi binExp x / 2 ^ 52"
      by (simp add: power_int_diff max_def)
    also have "\<dots> \<le> \<bar>x\<bar> / 2 ^ 52"
      using binExp_le [OF False] by (intro divide_right_mono) auto
    also have "\<dots> \<le> \<bar>x\<bar> / 2 ^ 52 + 1 / 2 ^ 60" by simp
    finally show ?thesis .
  qed
  with e show ?thesis by simp
qed (simp add: f64Value_def)

lemma toF64_Fin:
  assumes "\<bar>x\<bar> \<le> 2 ^ 70"
  shows "toF64 x = Fin (f64Value x)"
proof -
  have "(2 :: rat) ^ 72 \<le> 2 ^ 1024" by (rule power_increasing) auto
  moreover have "\<bar>f64Value x\<bar> < 2 ^ 72" using f64Value_error [of x] assms by simp
  ultimately have "\<bar>f64Value x\<bar> < 2 ^ 1024" by linarith
  then show ?thesis by (auto simp: toF64_def Let_def abs_less_iff)
qed

text \<open>A value read back from its six decimals is the rounded one.\<close>

lemma mantLoop_decimals:
  assumes "list_all (\<lambda>c. digitVal c \<noteq> None) ds"
  shows "mantLoop False (ds @ rest) m k dot g =
    mantLoop False rest (the (decimalValue ds m)) (if dot then k + length ds else k) dot (g \<or> ds \<noteq> [])"
  using assms
proof (induction ds arbitrary: m k g)
  case (Cons c ds)
  then obtain d where d: "digitVal c = Some d" by auto
  then have "c \<noteq> CHR ''_''" "c \<noteq> CHR ''.''" by (auto simp: digitVal_def split: if_splits)
  with Cons d show ?case by (auto simp: mult.commute)
qed simp

lemma digits10_digitVal: "list_all (\<lambda>c. digitVal c \<noteq> None) (digits10 n)"
  using digits10_digit by (auto simp: list_all_iff digitVal_def split: if_splits)

lemma pad6_digitVal: "\<forall>c \<in> set (pad6 n). digitVal c \<noteq> None"
proof -
  have "digitVal (CHR ''0'') \<noteq> None" by (simp add: digitVal_def)
  then show ?thesis using digits10_digitVal [of n] by (auto simp: pad6_def list_all_iff)
qed

lemma length_digits10: "n < 10 ^ Suc k \<Longrightarrow> length (digits10 n) \<le> Suc k"
proof (induction k arbitrary: n)
  case 0
  then show ?case by (simp add: digits10.simps)
next
  case (Suc k)
  then have "length (digits10 (n div 10)) \<le> Suc k" by (intro Suc.IH) (simp add: less_mult_imp_div_less)
  then show ?case by (subst digits10.simps) simp
qed

lemma decimalValue_from: "decimalValue s 0 = Some v \<Longrightarrow> decimalValue s a = Some (a * 10 ^ length s + v)"
proof (induction s arbitrary: a v rule: rev_induct)
  case (snoc c s)
  then obtain u d where "decimalValue s 0 = Some u" "digitVal c = Some d" "v = 10 * u + d"
    by (auto simp: decimalValue_append split: option.splits)
  with snoc.IH [of u a] show ?case by (simp add: decimalValue_append)
qed simp

lemma fixed6_digits:
  "list_all (\<lambda>c. digitVal c \<noteq> None \<or> c = CHR ''.'') (fixed6 n)" "fixed6 n \<noteq> []"
  "fixed6 n = c # t \<Longrightarrow> 48 \<le> ord c \<and> ord c \<le> 57"
proof -
  show "list_all (\<lambda>c. digitVal c \<noteq> None \<or> c = CHR ''.'') (fixed6 n)"
    using digits10_digitVal by (auto simp: fixed6_def list_all_iff dest: pad6_digitVal [THEN bspec])
  show "fixed6 n \<noteq> []" by (simp add: fixed6_def)
  show "fixed6 n = c # t \<Longrightarrow> 48 \<le> ord c \<and> ord c \<le> 57"
    using digits10_digit [of c "n div 1000000"] by (cases "digits10 (n div 1000000)") (auto simp: fixed6_def)
qed

lemma mantLoop_fixed6: "mantLoop False (fixed6 n) 0 0 False False = (n, 6, True, [])"
proof -
  have p: "list_all (\<lambda>c. digitVal c \<noteq> None) (pad6 r)" for r
    using pad6_digitVal [of r] by (simp add: list_all_iff)
  have "length (digits10 (n mod 1000000)) \<le> Suc 5" by (rule length_digits10) simp
  then have len: "length (pad6 (n mod 1000000)) = 6" by (simp add: pad6_def)
  have "decimalValue (pad6 (n mod 1000000)) 0 = Some (n mod 1000000)"
    by (simp add: pad6_def decimalValue_zeros decimalValue_digits10)
  from decimalValue_from [OF this, of "n div 1000000"] len
  have val: "decimalValue (pad6 (n mod 1000000)) (n div 1000000) = Some n" by simp
  have "pad6 (n mod 1000000) \<noteq> []" by (simp add: pad6_def)
  with len val show ?thesis
    using mantLoop_decimals [OF p [of "n mod 1000000"], of "[]" "n div 1000000" 0 True]
    by (simp add: fixed6_def mantLoop_decimals [OF digits10_digitVal] decimalValue_digits10)
qed

lemma parse_fixed6: "parseFloat (fixed6 n) = (case toF64 (of_nat n / 10 ^ 6) of Fin r \<Rightarrow> Some (Fin r) | _ \<Rightarrow> None)"
proof -
  obtain c t where ct: "fixed6 n = c # t" using fixed6_digits(2) by (cases "fixed6 n") auto
  then have dig: "48 \<le> ord c" "ord c \<le> 57" using fixed6_digits(3) by blast+
  then have c: "c \<noteq> CHR ''+''" "c \<noteq> CHR ''-''" by auto
  have s0: "dropSign (fixed6 n) = fixed6 n" "\<not> negative (fixed6 n)"
    using c by (simp_all add: dropSign_def negative_def ct)
  have lo: "lowerAscii c = c" using dig by (simp add: lowerAscii_def)
  have ni: "map lowerAscii (fixed6 n) \<noteq> ''inf''" "map lowerAscii (fixed6 n) \<noteq> ''infinity''"
    "map lowerAscii (fixed6 n) \<noteq> ''nan''"
    using dig by (auto simp: ct lo)
  have dv: "lowerAscii d \<noteq> CHR ''x'' \<and> d \<noteq> CHR ''_''" if "d \<in> set (fixed6 n)" for d
    using that fixed6_digits(1) [of n] by (auto simp: list_all_iff digitVal_def lowerAscii_def split: if_splits)
  have nx: "\<not> hexLiteral (fixed6 n)"
    unfolding hexLiteral_def using dv [of "fixed6 n ! 1"] by (metis nth_mem one_less_numeral_iff order.strict_trans semiring_norm(76))
  have "CHR ''_'' \<notin> set (fixed6 n)" using dv by blast
  with s0 nx have "readNumber (fixed6 n) = Some (of_nat n / 10 ^ 6)"
    by (simp add: readNumber_def literalValue_def Let_def mantLoop_fixed6 readExp_def power_int_minus field_simps)
  with s0 ni show ?thesis by (simp add: parseFloat_def)
qed

end
