(* ===== verification/JsonText.thy ===== *)
theory JsonText
  imports JsonDoc JsonEnc GoFloat
begin

text \<open>
  That what the encoder writes is read back.  \<open>renders d b v\<close> says that the bytes \<open>b\<close> are the text of
  the value \<open>v\<close>, nested at most \<open>d\<close> deep: wherever they stand in a document, a reader that allows that
  nesting reads exactly \<open>v\<close> and stops at their end.  One rule per constructor of the encoder, collected
  in \<open>json_text\<close>, makes the proof for a document a matter of its fields.
\<close>

named_theorems json_text "texts of JSON values"

definition valueEnd :: "bytes \<Rightarrow> bool" where
  "valueEnd t \<longleftrightarrow> (case t of [] \<Rightarrow> True | c # _ \<Rightarrow> c = CHR '','' \<or> c = CHR ''}'' \<or> c = CHR '']'')"

definition renders :: "nat \<Rightarrow> bytes \<Rightarrow> jval \<Rightarrow> bool" where
  "renders d b v \<longleftrightarrow> b \<noteq> [] \<and> ord (hd b) \<notin> {9, 10, 13, 32, 93, 125} \<and>
     (\<forall>d' n t. d \<le> d' \<longrightarrow> 2 * length b < n \<longrightarrow> valueEnd t \<longrightarrow> jVal d' n (b @ t) = Some (v, t))"

lemma rendersI:
  assumes "b = c # r" "ord c \<notin> {9, 10, 13, 32, 93, 125}"
    and "\<And>d' n t. d \<le> d' \<Longrightarrow> 2 * length b < Suc n \<Longrightarrow> valueEnd t \<Longrightarrow> jVal d' (Suc n) (b @ t) = Some (v, t)"
  shows "renders d b v"
proof -
  have "jVal d' n (b @ t) = Some (v, t)" if "d \<le> d'" "2 * length b < n" "valueEnd t" for d' n t
    using assms(3) [of d' "n - 1" t] that by simp
  then show ?thesis using assms(1,2) by (simp add: renders_def del: jVal.simps)
qed

lemma valueEnd_simps [simp]:
  "valueEnd []" "valueEnd (CHR '','' # t)" "valueEnd (CHR ''}'' # t)" "valueEnd (CHR '']'' # t)"
  by (simp_all add: valueEnd_def)

lemma renders_read:
  "renders d b v \<Longrightarrow> d \<le> d' \<Longrightarrow> 2 * length b < n \<Longrightarrow> valueEnd t \<Longrightarrow> jVal d' n (b @ t) = Some (v, t)"
  unfolding renders_def by blast

lemma renders_mono: "renders d b v \<Longrightarrow> d \<le> d' \<Longrightarrow> renders d' b v"
  by (simp add: renders_def del: jVal.simps)

lemma renders_parse: "renders d b v \<Longrightarrow> d \<le> maxNesting \<Longrightarrow> jParse b = Some v"
  using renders_read [of d b v maxNesting "Suc (2 * length b)" "[]"] by (simp add: jParse_def del: jVal.simps)

subsection \<open>Strings and numbers\<close>

lemma renders_string [json_text]: "renders d (jsonString s) (JStr (toValidUTF8 s))"
  by (rule rendersI [of _ quoteCh "jsonEsc s @ [quoteCh]"]) (simp_all add: jsonString_def unquote_jsonEsc_any)

lemma digits10_isDigit: "c \<in> set (digits10 n) \<Longrightarrow> isDigit c"
  using digits10_digit by (auto simp: isDigit_def)

lemma digits10_hd: "hd (digits10 n) = CHR ''0'' \<Longrightarrow> n = 0"
proof (induction n rule: digits10.induct)
  case (1 n)
  show ?case
  proof (cases "n < 10")
    case True
    then show ?thesis using 1(2) by (simp add: digits10.simps [of n] charOf_eq)
  next
    case False
    then have "hd (digits10 n) = hd (digits10 (n div 10))" by (simp add: digits10.simps [of n])
    with 1 False show ?thesis by simp
  qed
qed

lemma valueEnd_digit: "valueEnd t \<Longrightarrow> takeWhile isDigit t = [] \<and> dropWhile isDigit t = t"
  by (cases t) (auto simp: valueEnd_def isDigit_def)

lemma takeWhile_digits:
  assumes "\<forall>c \<in> set ds. isDigit c" "takeWhile isDigit t = []" "dropWhile isDigit t = t"
  shows "takeWhile isDigit (ds @ t) = ds" "dropWhile isDigit (ds @ t) = t"
  using assms by (simp_all add: takeWhile_append2 dropWhile_append2)

lemma jInt_digits10:
  assumes "takeWhile isDigit t = []" "dropWhile isDigit t = t"
  shows "jInt (digits10 n @ t) = Some (digits10 n, t)"
proof (cases "n = 0")
  case True
  have "digits10 0 = ''0''" by (simp add: digits10.simps [of 0] charOf_eq)
  then show ?thesis by (simp add: True jInt_def)
next
  case False
  obtain c r where cr: "digits10 n = c # r" by (cases "digits10 n") auto
  have c: "c \<noteq> CHR ''0''" using digits10_hd [of n] False by (auto simp: cr)
  have d: "\<forall>x \<in> set (c # r). isDigit x" using digits10_isDigit [of _ n] by (simp add: cr)
  then show ?thesis using c takeWhile_digits [of r t] assms by (simp add: cr jInt_def)
qed

lemma valueEnd_frac: "valueEnd t \<Longrightarrow> jFrac (w, t) = Some (w, t) \<and> jExp (w, t) = Some (w, t)"
  by (cases t) (auto simp: jFrac_def jExp_def valueEnd_def)

lemma jNumber_digits10: "valueEnd t \<Longrightarrow> jNumber (digits10 n @ t) = Some (digits10 n, t)"
proof -
  assume t: "valueEnd t"
  obtain c r where cr: "digits10 n = c # r" by (cases "digits10 n") auto
  have "isDigit c" using digits10_isDigit [of c n] by (simp add: cr)
  then have c: "c \<noteq> CHR ''-''" by (auto simp: isDigit_def)
  have "jInt (digits10 n @ t) = Some (digits10 n, t)" using valueEnd_digit [OF t] by (intro jInt_digits10) auto
  then show ?thesis using c valueEnd_frac [OF t] by (simp add: jNumber_def cr)
qed

lemma jVal_number:
  assumes "isDigit c \<or> c = CHR ''-''" "jNumber (c # s) = Some (num, t)"
  shows "jVal d (Suc n) (c # s) = Some (JNum num, t)"
proof -
  have "c \<noteq> quoteCh" "c \<noteq> CHR ''{''" "c \<noteq> CHR ''[''" "c \<noteq> CHR ''t''" "c \<noteq> CHR ''f''" "c \<noteq> CHR ''n''" "ord c \<notin> {32, 9, 10, 13}"
    using assms(1) by (auto simp: isDigit_def)
  then show ?thesis using assms(2) by simp
qed

lemma renders_digits10 [json_text]: "renders d (digits10 n) (JNum (digits10 n))"
proof -
  obtain c r where cr: "digits10 n = c # r" by (cases "digits10 n") auto
  have c: "isDigit c" using digits10_isDigit [of c n] by (simp add: cr)
  then show ?thesis
    using jNumber_digits10 [of _ n]
    by (intro rendersI [OF cr]) (auto simp: isDigit_def cr simp del: jVal.simps intro!: jVal_number)
qed

lemma renders_number:
  assumes "s = c # r" "isDigit c" "\<And>t. valueEnd t \<Longrightarrow> jNumber (s @ t) = Some (s, t)"
  shows "renders d s (JNum s)"
  using assms
  by (intro rendersI [OF assms(1)]) (auto simp: isDigit_def simp del: jVal.simps intro!: jVal_number)

lemma jNumber_fraction:
  assumes "ds \<noteq> []" "\<forall>c \<in> set ds. isDigit c" "valueEnd t"
  shows "jNumber ((digits10 n @ CHR ''.'' # ds) @ t) = Some (digits10 n @ CHR ''.'' # ds, t)"
proof -
  obtain c r where cr: "digits10 n = c # r" by (cases "digits10 n") auto
  have "isDigit c" using digits10_isDigit [of c n] by (simp add: cr)
  then have c: "c \<noteq> CHR ''-''" by (auto simp: isDigit_def)
  obtain e u where ds: "ds = e # u" using assms(1) by (cases ds) auto
  have "\<not> isDigit (CHR ''.'')" by (simp add: isDigit_def)
  then have i: "jInt (digits10 n @ CHR ''.'' # ds @ t) = Some (digits10 n, CHR ''.'' # ds @ t)"
    by (intro jInt_digits10) simp_all
  have "jDigits (ds @ t) = Some (ds, t)"
    using takeWhile_digits [of ds t] valueEnd_digit [OF assms(3)] assms(2) by (simp add: jDigits_def ds)
  then have f: "jFrac (digits10 n, CHR ''.'' # ds @ t) = Some (digits10 n @ CHR ''.'' # ds, t)"
    by (simp add: jFrac_def)
  with i c valueEnd_frac [OF assms(3)] show ?thesis by (simp add: jNumber_def cr)
qed

lemma renders_plainDecimal [json_text]: "renders d (plainDecimal m q) (JNum (plainDecimal m q))"
proof (cases "q \<ge> 0")
  case True
  then show ?thesis by (simp add: plainDecimal_def renders_digits10)
next
  case False
  define k where "k = nat (- q)"
  define ds where "ds = replicate (k - length (digits10 (m mod 10 ^ k))) (CHR ''0'') @ digits10 (m mod 10 ^ k)"
  have p: "plainDecimal m q = digits10 (m div 10 ^ k) @ CHR ''.'' # ds"
    using False by (simp add: plainDecimal_def ds_def k_def Let_def)
  have ds: "ds \<noteq> []" "\<forall>c \<in> set ds. isDigit c"
    using digits10_isDigit by (auto simp: ds_def isDigit_def)
  obtain c r where cr: "digits10 (m div 10 ^ k) = c # r" by (cases "digits10 (m div 10 ^ k)") auto
  have "isDigit c" using digits10_isDigit [of c "m div 10 ^ k"] by (simp add: cr)
  then show ?thesis
    unfolding p using jNumber_fraction [OF ds, of _ "m div 10 ^ k"] by (intro renders_number [of _ c "r @ CHR ''.'' # ds"]) (simp_all add: cr)
qed

lemma renders_shortest [json_text]: "renders d (formatShortest x) (JNum (formatShortest x))"
proof (cases "x = 0")
  case True
  have "digits10 0 = ''0''" by (simp add: digits10.simps [of 0] charOf_eq)
  then show ?thesis using renders_digits10 [of d 0] True by (simp add: formatShortest_def)
qed (simp add: formatShortest_def case_prod_unfold renders_plainDecimal)

text \<open>A negative integer, as \<open>itoa\<close> writes it.\<close>

lemma renders_itoa [json_text]: "renders d (itoa i) (JNum (itoa i))"
proof (cases "i < 0")
  case True
  have "jNumber ((CHR ''-'' # digits10 m) @ t) = Some (CHR ''-'' # digits10 m, t)" if "valueEnd t" for m t
    using jInt_digits10 [of t m] valueEnd_digit [OF that] valueEnd_frac [OF that]
    by (simp add: jNumber_def withPrefix_def)
  then show ?thesis
    using True
    by (intro rendersI [of _ "CHR ''-''" "digits10 (nat (- i))"])
      (auto simp: itoa_def simp del: jVal.simps intro!: jVal_number)
qed (simp add: itoa_def renders_digits10)

subsection \<open>Arrays and objects\<close>

lemma skipWs_renders: "renders d b v \<Longrightarrow> skipWs (b @ t) = b @ t"
  by (cases b) (auto simp: renders_def)

lemma jElems_renders:
  assumes "list_all2 (renders d) bs vs" "bs \<noteq> []" "2 * length (joinStr '','' bs) + 2 \<le> n"
  shows "jElems d n (joinStr '','' bs @ CHR '']'' # t) = Some (vs, t)"
  using assms
proof (induction bs arbitrary: vs n)
  case (Cons b bs)
  obtain v vs' where vs: "vs = v # vs'" "renders d b v" "list_all2 (renders d) bs vs'"
    using Cons.prems(1) by (auto simp: list_all2_Cons1)
  obtain k where n: "n = Suc k" using Cons.prems(3) by (cases n) auto
  have read: "jVal d k (b @ u) = Some (v, u)" if "valueEnd u" for u
  proof -
    have "2 * length b < k" using Cons.prems(3) n by (cases bs) auto
    then show ?thesis using renders_read [OF vs(2)] that by simp
  qed
  show ?case
  proof (cases bs)
    case Nil
    then show ?thesis using read [of "CHR '']'' # t"] vs by (simp add: n del: jVal.simps)
  next
    case (Cons b' bs')
    then have "jElems d k (joinStr '','' bs @ CHR '']'' # t) = Some (vs', t)"
      using Cons.IH [OF vs(3), of k] Cons.prems(3) n by simp
    then show ?thesis
      using read [of "CHR '','' # joinStr '','' bs @ CHR '']'' # t"] vs(1) Cons
      by (simp add: n del: jVal.simps jElems.simps(1))
  qed
qed simp

lemma renders_array [json_text]:
  assumes "list_all2 (renders d) bs vs"
  shows "renders (Suc d) (jsonArray bs) (JArr vs)"
proof (rule rendersI [of _ "CHR ''[''" "joinStr '','' bs @ '']''"])
  fix d' n t
  assume d: "Suc d \<le> d'" and n: "2 * length (jsonArray bs) < Suc n" and t: "valueEnd t"
  show "jVal d' (Suc n) (jsonArray bs @ t) = Some (JArr vs, t)"
  proof (cases bs)
    case Nil
    then show ?thesis using assms d by (simp add: jsonArray_def)
  next
    case (Cons b bs')
    have r: "list_all2 (renders (d' - 1)) bs vs"
      by (rule list_all2_mono [OF assms]) (use d in \<open>auto intro: renders_mono\<close>)
    then have "renders (d' - 1) b (hd vs)" using Cons by (auto simp: list_all2_Cons1)
    then obtain c u where b: "b = c # u" "ord c \<notin> {9, 10, 13, 32, 93, 125}" by (cases b) (auto simp: renders_def)
    then have c: "joinStr '','' bs @ CHR '']'' # t = c # (drop 1 (joinStr '','' bs) @ CHR '']'' # t)"
      using Cons by (cases bs') auto
    have e: "jElems (d' - 1) n (joinStr '','' bs @ CHR '']'' # t) = Some (vs, t)"
      using n Cons by (intro jElems_renders [OF r]) (auto simp: jsonArray_def)
    have "c \<noteq> CHR '']''" using b(2) by auto
    moreover have "skipWs (c # w) = c # w" for w using b(2) by simp
    ultimately show ?thesis
      using d e unfolding c by (simp add: jsonArray_def c)
  qed
qed (simp_all add: jsonArray_def)

text \<open>A member reads as its key, repaired to UTF-8, and its value.\<close>

definition rendersMember :: "nat \<Rightarrow> string \<times> bytes \<Rightarrow> string \<times> jval \<Rightarrow> bool" where
  "rendersMember d kb kv \<longleftrightarrow> fst kv = toValidUTF8 (fst kb) \<and> renders d (snd kb) (snd kv)"

lemma jMembers_renders:
  assumes "list_all2 (rendersMember d) kbs ms" "kbs \<noteq> []" "2 * length (joinStr '','' (map jsonMember kbs)) + 2 \<le> n"
  shows "jMembers d n (joinStr '','' (map jsonMember kbs) @ CHR ''}'' # t) = Some (ms, t)"
  using assms
proof (induction kbs arbitrary: ms n)
  case (Cons kb kbs)
  obtain k b where kb: "kb = (k, b)" by force
  obtain v ms' where ms: "ms = (toValidUTF8 k, v) # ms'" "renders d b v" "list_all2 (rendersMember d) kbs ms'"
  proof -
    obtain m ms' where m: "ms = m # ms'" "rendersMember d kb m" "list_all2 (rendersMember d) kbs ms'"
      using Cons.prems(1) by (auto simp: list_all2_Cons1)
    then show thesis by (intro that [of "snd m" ms']) (cases m, auto simp: rendersMember_def kb)
  qed
  obtain j where n: "n = Suc j" using Cons.prems(3) by (cases n) auto
  have read: "jVal d j (b @ u) = Some (v, u)" if "valueEnd u" for u
  proof -
    have "2 * length b < j" using Cons.prems(3) n by (cases kbs) (auto simp: jsonMember_def kb)
    then show ?thesis using renders_read [OF ms(2)] that by simp
  qed
  have key: "jsonMember kb @ u = quoteCh # jsonEsc k @ quoteCh # CHR '':'' # b @ u" for u
    by (simp add: jsonMember_def jsonString_def kb)
  show ?case
  proof (cases kbs)
    case Nil
    then have "joinStr '','' (map jsonMember (kb # kbs)) @ CHR ''}'' # t = jsonMember kb @ CHR ''}'' # t" by simp
    then show ?thesis
      unfolding key using read [of "CHR ''}'' # t"] ms Nil by (simp add: n unquote_jsonEsc_any del: jVal.simps)
  next
    case (Cons kb' kbs')
    then have rest: "jMembers d j (joinStr '','' (map jsonMember kbs) @ CHR ''}'' # t) = Some (ms', t)"
      using Cons.IH [OF ms(3), of j] Cons.prems(3) n by simp
    have "joinStr '','' (map jsonMember (kb # kbs)) @ CHR ''}'' # t
        = jsonMember kb @ CHR '','' # joinStr '','' (map jsonMember kbs) @ CHR ''}'' # t"
      using Cons by simp
    then show ?thesis
      unfolding key using read [of "CHR '','' # joinStr '','' (map jsonMember kbs) @ CHR ''}'' # t"] ms(1) rest
      by (simp add: n unquote_jsonEsc_any del: jVal.simps jMembers.simps(1))
  qed
qed simp

lemma renders_object [json_text]:
  assumes "list_all2 (rendersMember d) kbs ms"
  shows "renders (Suc d) (jsonObject kbs) (JObj ms)"
proof (rule rendersI [of _ "CHR ''{''" "joinStr '','' (map jsonMember kbs) @ ''}''"])
  fix d' n t
  assume d: "Suc d \<le> d'" and n: "2 * length (jsonObject kbs) < Suc n" and t: "valueEnd t"
  show "jVal d' (Suc n) (jsonObject kbs @ t) = Some (JObj ms, t)"
  proof (cases kbs)
    case Nil
    then show ?thesis using assms d by (simp add: jsonObject_def)
  next
    case (Cons kb kbs')
    have r: "list_all2 (rendersMember (d' - 1)) kbs ms"
      by (rule list_all2_mono [OF assms]) (use d in \<open>auto simp: rendersMember_def intro: renders_mono\<close>)
    have e: "jMembers (d' - 1) n (joinStr '','' (map jsonMember kbs) @ CHR ''}'' # t) = Some (ms, t)"
      using n Cons by (intro jMembers_renders [OF r]) (auto simp: jsonObject_def)
    have c: "joinStr '','' (map jsonMember kbs) @ CHR ''}'' # t
        = quoteCh # (drop 1 (joinStr '','' (map jsonMember kbs)) @ CHR ''}'' # t)"
      using Cons by (cases kbs') (auto simp: jsonMember_def jsonString_def)
    have "skipWs (quoteCh # w) = quoteCh # w" for w by simp
    then show ?thesis
      using d e unfolding c by (simp add: jsonObject_def c)
  qed
qed (simp_all add: jsonObject_def)

text \<open>A string map reads as its members in key order.\<close>

definition mapTree :: "attrs \<Rightarrow> jval" where
  "mapTree m = JObj (map (\<lambda>(k, v). (toValidUTF8 k, JStr (toValidUTF8 v))) (sort_key fst m))"

lemma renders_map [json_text]: "renders (Suc d) (jsonMap m) (mapTree m)"
  unfolding jsonMap_def mapTree_def
  by (rule renders_object) (simp add: list_all2_map1 list_all2_map2 rendersMember_def case_prod_unfold renders_string list.rel_refl)

end
