(* ===== verification/Metrics.thy ===== *)
theory Metrics
  imports Tracing JsonText
begin

text \<open>
  \<open>metrics.go\<close>: the runtime metrics point of a window, from the readings of the runtime and the request
  counters to its JSON text.
\<close>

text \<open>What is read of \<open>runtime.MemStats\<close>, and the facts of the process a point names.\<close>

record memStats =
  msHeapAlloc :: u64
  msHeapSys :: u64
  msHeapInuse :: u64
  msStackInuse :: u64
  msNumGC :: u32
  msPauseTotalNs :: u64

text \<open>\<open>runtime.NumGoroutine\<close> is read twice, for the resource and for the series.\<close>

record procFacts =
  rtPid :: int
  rtVersion :: string
  rtCompiler :: string
  rtThreads :: int
  rtGoroutines :: int

text \<open>\<open>gcDelta\<close>: collections, nanoseconds of pause, and the counters to subtract from next time.\<close>

definition gcDelta :: "memStats \<Rightarrow> u32 \<Rightarrow> u64 \<Rightarrow> (u32 \<times> u64) \<times> u32 \<times> u64" where
  "gcDelta ms previousNum previousPause =
     ((if msNumGC ms \<ge> previousNum then msNumGC ms - previousNum else 0,
       if msPauseTotalNs ms \<ge> previousPause then msPauseTotalNs ms - previousPause else 0),
      msNumGC ms, msPauseTotalNs ms)"

text \<open>
  A reading before its conversion: \<open>Count n\<close> is \<open>float64(n)\<close>, \<open>Millis n\<close> is \<open>float64(n) / 1e6\<close>.  A resource
  value is an integer or a string.
\<close>

datatype metricValue = Count int | Millis int

datatype resourceValue = RInt int | RStr string

record metricsPoint =
  mpSchema :: string
  mpTime :: string
  mpOrganisation :: string
  mpProject :: string
  mpApplication :: string
  mpVersion :: string
  mpResource :: "(string \<times> resourceValue) list"
  mpAttributes :: attrs
  mpMetrics :: "(string \<times> metricValue) list"

definition runtimePoint :: "config \<Rightarrow> int \<Rightarrow> memStats \<Rightarrow> procFacts \<Rightarrow> u64 \<Rightarrow> u64 \<Rightarrow> u64 \<Rightarrow> u32 \<times> u64 \<Rightarrow> metricsPoint" where
  "runtimePoint c now ms rt reqs errs durNs gc =
     \<lparr>mpSchema = ''chronos.runtime.metrics.v1'', mpTime = formatRFC3339Nano now,
      mpOrganisation = cfgOrganisation c, mpProject = cfgProject c, mpApplication = cfgApplication c,
      mpVersion = cfgServiceVersion c,
      mpResource =
        [(''process.pid'', RInt (rtPid rt)), (''process.runtime.name'', RStr ''go''),
         (''process.runtime.version'', RStr (rtVersion rt)), (''process.runtime.compiler'', RStr (rtCompiler rt)),
         (''process.thread.count'', RInt (rtThreads rt))],
      mpAttributes = [(''service.name'', cfgServiceName c)],
      mpMetrics =
        [(''process.runtime.memory.heap_alloc_bytes'', Count (uint (msHeapAlloc ms))),
         (''process.runtime.memory.heap_sys_bytes'', Count (uint (msHeapSys ms))),
         (''process.runtime.memory.heap_inuse_bytes'', Count (uint (msHeapInuse ms))),
         (''process.runtime.memory.stack_inuse_bytes'', Count (uint (msStackInuse ms))),
         (''process.runtime.gc.collections'', Count (uint (fst gc))),
         (''process.runtime.gc.pause_ms'', Millis (uint (snd gc))),
         (''process.runtime.threads'', Count (rtGoroutines rt)),
         (''process.runtime.request.count'', Count (uint (if reqs = 0 then 1 else reqs))),
         (''process.runtime.request.duration_ms'', Millis (uint durNs)),
         (''process.runtime.request.errors'', Count (uint errs))]\<rparr>"

text \<open>
  The text.  \<open>json.Marshal\<close> writes a \<open>float64\<close> with the fewest digits that read back, without an exponent
  between \<open>1e-6\<close> and \<open>1e21\<close>; zero and every nonzero reading of a point, at least a nanosecond in
  milliseconds and below \<open>2 ^ 65\<close>, are written so.
\<close>

definition metricFloat :: "metricValue \<Rightarrow> f64" where
  "metricFloat v = (case v of Count n \<Rightarrow> toF64 (of_int n) | Millis n \<Rightarrow> fdivBy (toF64 (of_int n)) 1000000)"

definition jsonFloat :: "f64 \<Rightarrow> bytes" where
  "jsonFloat x = (case x of Fin r \<Rightarrow> (if r < 0 then ''-'' else []) @ formatShortest \<bar>r\<bar> | _ \<Rightarrow> [])"

definition jsonResource :: "resourceValue \<Rightarrow> bytes" where
  "jsonResource v = (case v of RInt i \<Rightarrow> itoa i | RStr s \<Rightarrow> jsonString s)"

definition marshalMetricsService :: "metricsPoint \<Rightarrow> bytes" where
  "marshalMetricsService p = jsonObject
     ([(''organisation'', jsonString (mpOrganisation p)), (''project'', jsonString (mpProject p)),
       (''application'', jsonString (mpApplication p))] @ omitEmpty ''version'' (mpVersion p))"

definition marshalMetricsPoint :: "metricsPoint \<Rightarrow> bytes" where
  "marshalMetricsPoint p = jsonObject
     [(''schema'', jsonString (mpSchema p)), (''time'', jsonString (mpTime p)),
      (''service'', marshalMetricsService p),
      (''resource'', jsonObject (map (\<lambda>(k, v). (k, jsonResource v)) (sort_key fst (mpResource p)))),
      (''attributes'', jsonMap (mpAttributes p)),
      (''metrics'', jsonObject (map (\<lambda>(k, v). (k, jsonFloat (metricFloat v))) (sort_key fst (mpMetrics p))))]"

end
