(* ===== verification/Client.thy ===== *)
theory Client
  imports SpanFlow ProfileIO Pprof Http Metrics
begin

text \<open>
  \<open>client.go\<close> and \<open>default.go\<close>: starting a client, the process-wide default, the background
  loops, flushing and shutdown, and the emission of runtime metrics.  What the loops wait for is a
  list of events; the spool sinks, the clock and the symbolizer are the environment of a client.
\<close>

datatype loop = ProfileLoop | WallLoop | MetricsLoop | SpanLoop

record sdk =
  sdCfg :: config
  sdSpans :: "spanRecord spanBuffer option"
  sdWall :: "wallSampler option"
  sdIO :: "ioRecorder option"
  sdLoops :: "loop list"
  sdHttp :: httpCounters
  sdGcNum :: u32
  sdGcPause :: u64

definition noHttp :: httpCounters where
  "noHttp = \<lparr>hcRequests = 0, hcErrors = 0, hcDuration = 0\<rparr>"

definition bareClient :: "config \<Rightarrow> sdk" where
  "bareClient c = \<lparr>sdCfg = c, sdSpans = None, sdWall = None, sdIO = None, sdLoops = [], sdHttp = noHttp,
     sdGcNum = 0, sdGcPause = 0\<rparr>"

subsection \<open>Start\<close>

definition startSignals :: "config \<Rightarrow> sdk" where
  "startSignals c =
     (let d = (bareClient c)\<lparr>sdSpans := (if cfgAPMEnabled c then Some (newSpanBuffer (cfgSpanBatchSize c) (cfgSpanMaxBuffered c)) else None)\<rparr>
      in if cfgProfilerEnabled c
         then (let c' = applyProfileDefaults c in
               d\<lparr>sdCfg := c',
                 sdIO := (if cfgIOProfileEnabled c' then Some (newIORecorder (cfgIOMaxSamples c') (cfgProfileMaxStackDepth c')) else None),
                 sdWall := (if cfgWallProfileEnabled c' then Some (newWallSampler (cfgWallMaxStacks c')) else None)\<rparr>)
         else d)"

definition startLoops :: "sdk \<Rightarrow> sdk" where
  "startLoops d =
     (if \<not> cfgBackground (sdCfg d) then d
      else d\<lparr>sdLoops := (if cfgProfilerEnabled (sdCfg d) then [ProfileLoop, WallLoop] else [])
             @ (if cfgMetricsEnabled (sdCfg d) then [MetricsLoop] else [])
             @ (if sdSpans d \<noteq> None then [SpanLoop] else [])\<rparr>)"

text \<open>\<open>setDefault\<close> and \<open>Default\<close>: the process-wide client.\<close>

definition setDefault :: "sdk option \<Rightarrow> sdk option \<Rightarrow> sdk option" where
  "setDefault c def = (case c of None \<Rightarrow> def | Some d \<Rightarrow> if cfgEnabled (sdCfg d) then Some d else def)"

definition defaultClient :: "sdk option \<Rightarrow> sdk" where
  "defaultClient def = (case def of Some d \<Rightarrow> d | None \<Rightarrow> bareClient zeroConfig)"

text \<open>The accessors, on a client that may be nil.\<close>

definition clientConfig :: "sdk option \<Rightarrow> config" where
  "clientConfig co = (case co of None \<Rightarrow> zeroConfig | Some d \<Rightarrow> sdCfg d)"

definition clientEnabled :: "sdk option \<Rightarrow> bool" where
  "clientEnabled co = (case co of None \<Rightarrow> False | Some d \<Rightarrow> cfgEnabled (sdCfg d))"

definition droppedSpans :: "sdk option \<Rightarrow> u64" where
  "droppedSpans co = (case co of None \<Rightarrow> 0 | Some d \<Rightarrow> (case sdSpans d of None \<Rightarrow> 0 | Some b \<Rightarrow> sbDropped b))"

text \<open>
  \<open>StartWithConfig\<close>; \<open>mkdirOk\<close> tells whether the spool directory could be made.  The stored default is
  the client itself, so the loops it starts afterwards are those of the default too.
\<close>

definition startWithConfig :: "bool \<Rightarrow> config \<Rightarrow> sdk option \<Rightarrow> sdk \<times> sdk option" where
  "startWithConfig mkdirOk c def =
     (if \<not> cfgEnabled c then (bareClient c, def)
      else if \<not> mkdirOk then (bareClient (c\<lparr>cfgEnabled := False\<rparr>), def)
      else (let d = startLoops (startSignals c) in (d, setDefault (Some d) def)))"

definition startClient :: "bool \<Rightarrow> unicodeTables \<Rightarrow> (nat \<Rightarrow> nat \<Rightarrow> nat \<Rightarrow> nat) \<Rightarrow> environ \<Rightarrow> sdk option \<Rightarrow> sdk \<times> sdk option" where
  "startClient mkdirOk U fracOf env def = startWithConfig mkdirOk ((loadConfig U fracOf env)\<lparr>cfgBackground := True\<rparr>) def"

subsection \<open>Flush\<close>

record 'w sdkEnv =
  seTrace :: "spanBatch \<Rightarrow> 'w \<Rightarrow> bool \<times> 'w"
  seProfile :: "profileBatch \<Rightarrow> 'w \<Rightarrow> bool \<times> 'w"
  seClock :: "'w \<Rightarrow> int"
  seGoVersion :: string
  seSymbolize :: "u64 list \<Rightarrow> profileFrame list"
  seBucketTimes :: "nat \<Rightarrow> int"

definition sdkFlushSpans :: "'w sdkEnv \<Rightarrow> bool \<Rightarrow> sdk \<Rightarrow> 'w \<Rightarrow> bool \<times> sdk \<times> 'w" where
  "sdkFlushSpans E all d w = (case sdSpans d of None \<Rightarrow> (True, d, w)
     | Some b \<Rightarrow> (case flushSpanBatch (writeBatch (seTrace E) (seClock E) (sdCfg d)) all b w of
         (ok, b', w') \<Rightarrow> (ok, d\<lparr>sdSpans := Some b'\<rparr>, w')))"

definition sdkFlushWall :: "'w sdkEnv \<Rightarrow> sdk \<Rightarrow> 'w \<Rightarrow> bool \<times> sdk \<times> 'w" where
  "sdkFlushWall E d w =
     (case flushWallProfiles (seProfile E) (seClock E) (sdCfg d) (seGoVersion E) (seSymbolize E) (seBucketTimes E) (sdWall d) w of
        (ok, s, w') \<Rightarrow> (ok, d\<lparr>sdWall := s\<rparr>, w'))"

definition sdkFlushIO :: "'w sdkEnv \<Rightarrow> sdk \<Rightarrow> 'w \<Rightarrow> bool \<times> sdk \<times> 'w" where
  "sdkFlushIO E d w =
     (case flushIOProfiles (seProfile E) (seClock E) (sdCfg d) (seGoVersion E) (seSymbolize E) (sdIO d) w of
        (ok, r, w') \<Rightarrow> (ok, d\<lparr>sdIO := r\<rparr>, w'))"

definition sdkFlushProfiles :: "'w sdkEnv \<Rightarrow> sdk \<Rightarrow> 'w \<Rightarrow> bool \<times> sdk \<times> 'w" where
  "sdkFlushProfiles E d w =
     (case sdkFlushWall E d w of (ok, d1, w1) \<Rightarrow> if ok then sdkFlushIO E d1 w1 else (False, d1, w1))"

definition sdkFlush :: "'w sdkEnv \<Rightarrow> sdk \<Rightarrow> 'w \<Rightarrow> bool \<times> sdk \<times> 'w" where
  "sdkFlush E d w =
     (case sdkFlushSpans E True d w of (ok, d1, w1) \<Rightarrow> if ok then sdkFlushProfiles E d1 w1 else (False, d1, w1))"

subsection \<open>Runtime metrics\<close>

text \<open>\<open>EmitRuntimeMetrics\<close>: the request counters are drained even when the write fails.\<close>

definition emitRuntimeMetrics ::
  "(metricsPoint \<Rightarrow> 'w \<Rightarrow> bool \<times> 'w) \<Rightarrow> ('w \<Rightarrow> int) \<Rightarrow> memStats \<times> procFacts \<Rightarrow> sdk \<Rightarrow> 'w \<Rightarrow> bool \<times> sdk \<times> 'w" where
  "emitRuntimeMetrics wj clock proc d w =
     (if \<not> cfgEnabled (sdCfg d) \<or> \<not> cfgMetricsEnabled (sdCfg d) then (True, d, w)
      else (case gcDelta (fst proc) (sdGcNum d) (sdGcPause d) of (gc, num, pause) \<Rightarrow>
        (case wj (runtimePoint (sdCfg d) (clock w) (fst proc) (snd proc) (hcRequests (sdHttp d)) (hcErrors (sdHttp d))
                    (hcDuration (sdHttp d)) gc) w of
           (ok, w') \<Rightarrow> (ok, d\<lparr>sdHttp := noHttp, sdGcNum := num, sdGcPause := pause\<rparr>, w'))))"

subsection \<open>The background loops\<close>

text \<open>
  A loop selects between cancellation, here \<open>None\<close>, and its tickers, here \<open>Some\<close> of what a tick
  reads.  The list is the order in which the select takes them; a list without \<open>None\<close> leaves the loop
  waiting.  Failures of a tick are logged only.
\<close>

definition loopEvery :: "int \<Rightarrow> int \<Rightarrow> int" where
  "loopEvery configured fallback = (if configured \<le> 0 then fallback else configured)"

definition profileEvery :: "config \<Rightarrow> int" where
  "profileEvery c = loopEvery (cfgProfileInterval c) (90 * second)"

definition wallEvery :: "config \<Rightarrow> int" where
  "wallEvery c = loopEvery (cfgWallSampleInterval c) (100 * millisecond)"

definition metricsEvery :: "config \<Rightarrow> int" where
  "metricsEvery c = loopEvery (cfgMetricsInterval c) (15 * second)"

definition spanEvery :: "config \<Rightarrow> int" where
  "spanEvery c = loopEvery (cfgSpanFlushInterval c) defaultSpanFlushInterval"

fun tickLoop :: "('e \<Rightarrow> 's \<Rightarrow> 's) \<Rightarrow> 'e option list \<Rightarrow> 's \<Rightarrow> bool \<times> 's" where
  "tickLoop f [] s = (False, s)"
| "tickLoop f (None # es) s = (True, s)"
| "tickLoop f (Some e # es) s = tickLoop f es (f e s)"

definition profileTick ::
  "'w sdkEnv \<Rightarrow> symEnv \<Rightarrow> config \<Rightarrow> pprofProfile option \<times> pprofProfile option \<times> pprofProfile option option \<times> pprofProfile option option
    \<Rightarrow> 'w \<Rightarrow> 'w" where
  "profileTick E S c profs w = (case profs of (cpu, heap, mutex, block) \<Rightarrow>
     snd (collectLockProfile (seProfile E) (seClock E) S (seGoVersion E) c mutex block
       (snd (collectHeapProfile (seProfile E) (seClock E) S (seGoVersion E) c heap
         (snd (collectCPUProfile (seProfile E) (seClock E) S (seGoVersion E) c cpu w))))))"

definition profileLoop where
  "profileLoop E S c = tickLoop (profileTick E S c)"

definition spanLoop :: "'w sdkEnv \<Rightarrow> unit option list \<Rightarrow> sdk \<times> 'w \<Rightarrow> bool \<times> sdk \<times> 'w" where
  "spanLoop E = tickLoop (\<lambda>_ (d, w). snd (sdkFlushSpans E True d w))"

text \<open>Without a sampler the channel of \<open>sampleC\<close> is nil and never ready.\<close>

datatype wallEvent = SampleTick "u64 list list option" | FlushTick

definition wallFlush :: "'w sdkEnv \<Rightarrow> sdk \<times> 'w \<Rightarrow> sdk \<times> 'w" where
  "wallFlush E s = (case s of (d, w) \<Rightarrow> case snd (sdkFlushWall E d w) of (d1, w1) \<Rightarrow> snd (sdkFlushIO E d1 w1))"

fun wallTick :: "(u64 list \<Rightarrow> u64) \<Rightarrow> 'w sdkEnv \<Rightarrow> wallEvent \<Rightarrow> sdk \<times> 'w \<Rightarrow> sdk \<times> 'w" where
  "wallTick h E (SampleTick snap) (d, w) = (d\<lparr>sdWall := map_option (wsSample h snap) (sdWall d)\<rparr>, w)"
| "wallTick h E FlushTick s = wallFlush E s"

definition wallLoop :: "(u64 list \<Rightarrow> u64) \<Rightarrow> 'w sdkEnv \<Rightarrow> wallEvent option list \<Rightarrow> sdk \<times> 'w \<Rightarrow> bool \<times> sdk \<times> 'w" where
  "wallLoop h E es s = (case tickLoop (wallTick h E) es s of (ended, s') \<Rightarrow> (ended, if ended then wallFlush E s' else s'))"

text \<open>
  A tick of \<open>metricsLoop\<close> comes with the requests recorded since the last one, as status and duration.
\<close>

definition recordAll :: "(int \<times> int) list \<Rightarrow> sdk \<Rightarrow> sdk" where
  "recordAll reqs d = d\<lparr>sdHttp := fold (\<lambda>(status, duration). recordHTTP status duration) reqs (sdHttp d)\<rparr>"

definition metricsTick ::
  "(metricsPoint \<Rightarrow> 'w \<Rightarrow> bool \<times> 'w) \<Rightarrow> ('w \<Rightarrow> int) \<Rightarrow> (int \<times> int) list \<times> memStats \<times> procFacts \<Rightarrow> sdk \<times> 'w \<Rightarrow> sdk \<times> 'w" where
  "metricsTick wj clock e s = (case s of (d, w) \<Rightarrow> snd (emitRuntimeMetrics wj clock (snd e) (recordAll (fst e) d) w))"

definition metricsLoop ::
  "(metricsPoint \<Rightarrow> 'w \<Rightarrow> bool \<times> 'w) \<Rightarrow> ('w \<Rightarrow> int) \<Rightarrow> (int \<times> int) list \<times> memStats \<times> procFacts
    \<Rightarrow> ((int \<times> int) list \<times> memStats \<times> procFacts) option list \<Rightarrow> sdk \<times> 'w \<Rightarrow> bool \<times> sdk \<times> 'w" where
  "metricsLoop wj clock first es s = tickLoop (metricsTick wj clock) es (metricsTick wj clock first s)"

text \<open>
  \<open>Shutdown\<close>: the loops are cancelled; the wall loop's deferred flush runs before \<open>Wait\<close> returns, so
  it comes first, unless the deadline expires before the loop gets to it (\<open>waited\<close> is then False).
\<close>

definition sdkShutdown :: "'w sdkEnv \<Rightarrow> bool \<Rightarrow> sdk \<Rightarrow> 'w \<Rightarrow> sdk \<times> 'w" where
  "sdkShutdown E waited d w =
     (case (if WallLoop \<in> set (sdLoops d) \<and> waited then wallFlush E (d, w) else (d, w)) of (d1, w1) \<Rightarrow>
        snd (sdkFlush E d1 w1))"

subsection \<open>Results\<close>

definition clientWf :: "sdk \<Rightarrow> bool" where
  "clientWf d \<longleftrightarrow>
     (if \<not> cfgEnabled (sdCfg d) then sdSpans d = None \<and> sdWall d = None \<and> sdIO d = None \<and> sdLoops d = []
      else (case sdSpans d of None \<Rightarrow> \<not> cfgAPMEnabled (sdCfg d) | Some b \<Rightarrow> cfgAPMEnabled (sdCfg d) \<and> sbInv b)
        \<and> (case sdWall d of None \<Rightarrow> \<not> (cfgProfilerEnabled (sdCfg d) \<and> cfgWallProfileEnabled (sdCfg d))
            | Some s \<Rightarrow> cfgProfilerEnabled (sdCfg d) \<and> wsInv s \<and> 0 < wsMaxStacks s)
        \<and> (case sdIO d of None \<Rightarrow> \<not> (cfgProfilerEnabled (sdCfg d) \<and> cfgIOProfileEnabled (sdCfg d))
            | Some r \<Rightarrow> cfgProfilerEnabled (sdCfg d) \<and> 0 < irMax r \<and> int (length (irWaits r)) \<le> irMax r)
        \<and> (if cfgProfilerEnabled (sdCfg d) then 0 < cfgProfileMaxStackDepth (sdCfg d) \<and> 0 < cfgWallSampleInterval (sdCfg d) else True)
        \<and> distinct (sdLoops d)
        \<and> (SpanLoop \<in> set (sdLoops d)) = (cfgBackground (sdCfg d) \<and> sdSpans d \<noteq> None)
        \<and> (WallLoop \<in> set (sdLoops d)) = (cfgBackground (sdCfg d) \<and> cfgProfilerEnabled (sdCfg d)))"

lemma sbInv_flush: "sbInv b \<Longrightarrow> sbInv (fst (snd (flushSpanBatch wr all b w)))"
proof (induction "length (sbSpans b)" arbitrary: b w rule: less_induct)
  case less
  have "length (sbSpans (snd (sbTake True b))) < length (sbSpans b)" if "fst (sbTake True b) \<noteq> []"
    using that sbTake_all [of b] by simp
  with less show ?case
    by (subst flush_step) (auto simp: sbInv_take sbInv_requeue case_prod_unfold)
qed

lemma sbInv_enqueue: "sbInv b \<Longrightarrow> sbInv (fst (enqueueSpan wr r b w))"
  by (simp add: enqueueSpan_def sbInv_add sbInv_flush case_prod_unfold Let_def)

lemma clientWf_spans:
  "clientWf d \<Longrightarrow> sdSpans d = Some b \<Longrightarrow> sbInv b"
  "clientWf d \<Longrightarrow> sdSpans d = Some b \<Longrightarrow> sbInv b' \<Longrightarrow> clientWf (d\<lparr>sdSpans := Some b'\<rparr>)"
  by (auto simp: clientWf_def split: if_splits option.splits)

lemma clientWf_wall:
  "clientWf d \<Longrightarrow> sdWall d = Some s \<Longrightarrow> wsInv s"
  "clientWf d \<Longrightarrow> sdWall d = Some s \<Longrightarrow> wsInv s' \<Longrightarrow> wsMaxStacks s' = wsMaxStacks s \<Longrightarrow> clientWf (d\<lparr>sdWall := Some s'\<rparr>)"
  by (auto simp: clientWf_def split: if_splits option.splits)

lemma clientWf_io:
  "clientWf d \<Longrightarrow> sdIO d = Some r \<Longrightarrow> int (length (irWaits r)) \<le> irMax r"
  "clientWf d \<Longrightarrow> sdIO d = Some r \<Longrightarrow> irMax r' = irMax r \<Longrightarrow> int (length (irWaits r')) \<le> irMax r'
    \<Longrightarrow> clientWf (d\<lparr>sdIO := Some r'\<rparr>)"
  by (auto simp: clientWf_def split: if_splits option.splits)

lemma clientWf_counters:
  "clientWf d \<Longrightarrow> clientWf (d\<lparr>sdHttp := x\<rparr>)" "clientWf d \<Longrightarrow> clientWf (d\<lparr>sdGcNum := n\<rparr>)"
  "clientWf d \<Longrightarrow> clientWf (d\<lparr>sdGcPause := q\<rparr>)"
  by (auto simp: clientWf_def split: if_splits option.splits)

lemma clientWf_flushSpans:
  assumes "clientWf d"
  shows "clientWf (fst (snd (sdkFlushSpans E all d w)))"
proof (cases "sdSpans d")
  case None
  then show ?thesis using assms by (simp add: sdkFlushSpans_def)
next
  case (Some b)
  let ?b = "fst (snd (flushSpanBatch (writeBatch (seTrace E) (seClock E) (sdCfg d)) all b w))"
  have "clientWf (d\<lparr>sdSpans := Some ?b\<rparr>)"
    by (rule clientWf_spans(2) [OF assms Some sbInv_flush [OF clientWf_spans(1) [OF assms Some]]])
  then show ?thesis by (simp add: sdkFlushSpans_def Some case_prod_unfold)
qed

lemma flushWall_cases:
  "fst (snd (flushWallProfiles wj clock c g symf now s w)) = map_option (\<lambda>s. snd (wsDrain s)) s"
  by (auto simp: flushWallProfiles_def split: option.splits prod.splits bool.splits)

lemma wsInv_drain: "wsInv s \<Longrightarrow> 0 \<le> wsMaxStacks s \<Longrightarrow> wsInv (snd (wsDrain s)) \<and> wsMaxStacks (snd (wsDrain s)) = wsMaxStacks s"
  by (simp add: wsDrain_def wsInv_def wf_map_def)

lemma flushIO_cases:
  "fst (snd (flushIOProfiles wj clock c g symf r w)) = map_option (\<lambda>r. r\<lparr>irWaits := []\<rparr>) r"
  by (auto simp: flushIOProfiles_def ioDrain_def split: option.splits prod.splits)

lemma sdkFlushWall_state: "fst (snd (sdkFlushWall E d w)) = d\<lparr>sdWall := map_option (\<lambda>s. snd (wsDrain s)) (sdWall d)\<rparr>"
  by (simp add: sdkFlushWall_def case_prod_unfold flushWall_cases)

lemma sdkFlushIO_state: "fst (snd (sdkFlushIO E d w)) = d\<lparr>sdIO := map_option (\<lambda>r. r\<lparr>irWaits := []\<rparr>) (sdIO d)\<rparr>"
  by (simp add: sdkFlushIO_def case_prod_unfold flushIO_cases)

lemma clientWf_drainWall:
  "clientWf d \<Longrightarrow> clientWf (d\<lparr>sdWall := map_option (\<lambda>s. snd (wsDrain s)) (sdWall d)\<rparr>)"
  by (auto simp: clientWf_def wsInv_drain split: if_splits option.splits)

lemma clientWf_drainIO:
  "clientWf d \<Longrightarrow> clientWf (d\<lparr>sdIO := map_option (\<lambda>r. r\<lparr>irWaits := []\<rparr>) (sdIO d)\<rparr>)"
  by (auto simp: clientWf_def split: if_splits option.splits)

lemma clientWf_flushWall: "clientWf d \<Longrightarrow> clientWf (fst (snd (sdkFlushWall E d w)))"
  unfolding sdkFlushWall_state by (rule clientWf_drainWall)

lemma clientWf_flushIO: "clientWf d \<Longrightarrow> clientWf (fst (snd (sdkFlushIO E d w)))"
  unfolding sdkFlushIO_state by (rule clientWf_drainIO)

lemma clientWf_flush: "clientWf d \<Longrightarrow> clientWf (fst (snd (sdkFlush E d w)))"
  by (simp add: sdkFlush_def sdkFlushProfiles_def case_prod_unfold clientWf_flushSpans clientWf_flushWall clientWf_flushIO)

lemma clientWf_emit: "clientWf d \<Longrightarrow> clientWf (fst (snd (emitRuntimeMetrics wj clock proc d w)))"
  by (simp add: emitRuntimeMetrics_def clientWf_counters case_prod_unfold)

subsection \<open>Runs of a client\<close>

text \<open>
  What a program does with a started client, in any order: it ends spans, finishes requests, measures
  waits, and flushes; the sampler ticks, the metrics are emitted.
\<close>

definition sdkEnqueue :: "'w sdkEnv \<Rightarrow> spanRecord \<Rightarrow> sdk \<Rightarrow> 'w \<Rightarrow> sdk \<times> 'w" where
  "sdkEnqueue E r d w = (case sdSpans d of None \<Rightarrow> (d, w)
     | Some b \<Rightarrow> (case enqueueSpan (writeBatch (seTrace E) (seClock E) (sdCfg d)) r b w of (b', w') \<Rightarrow>
         (d\<lparr>sdSpans := Some b'\<rparr>, w')))"

inductive clientRun :: "'w sdkEnv \<Rightarrow> (u64 list \<Rightarrow> u64) \<Rightarrow> sdk \<times> 'w \<Rightarrow> bool" for E h where
  start: "clientRun E h (fst (startWithConfig mkdirOk c def), w)"
| endSpan: "clientRun E h (d, w) \<Longrightarrow> clientRun E h (sdkEnqueue E r d w)"
| request: "clientRun E h (d, w) \<Longrightarrow> clientRun E h (recordAll reqs d, w)"
| ioWait: "clientRun E h (d, w) \<Longrightarrow>
    clientRun E h (d\<lparr>sdIO := recordIOWait (sdCfg d) stack now cx op system wait (sdIO d)\<rparr>, w)"
| wallEvent: "clientRun E h s \<Longrightarrow> clientRun E h (wallTick h E ev s)"
| metrics: "clientRun E h (d, w) \<Longrightarrow> clientRun E h (snd (emitRuntimeMetrics wj clock proc d w))"
| flushing: "clientRun E h (d, w) \<Longrightarrow> clientRun E h (snd (sdkFlush E d w))"
| shuttingDown: "clientRun E h (d, w) \<Longrightarrow> clientRun E h (sdkShutdown E waited d w)"

lemma clientWf_enqueue:
  assumes "clientWf d"
  shows "clientWf (fst (sdkEnqueue E r d w))"
proof (cases "sdSpans d")
  case None
  then show ?thesis using assms by (simp add: sdkEnqueue_def)
next
  case (Some b)
  let ?b = "fst (enqueueSpan (writeBatch (seTrace E) (seClock E) (sdCfg d)) r b w)"
  have "clientWf (d\<lparr>sdSpans := Some ?b\<rparr>)"
    by (rule clientWf_spans(2) [OF assms Some sbInv_enqueue [OF clientWf_spans(1) [OF assms Some]]])
  then show ?thesis by (simp add: sdkEnqueue_def Some case_prod_unfold)
qed

lemma recordIOWait_cases:
  "recordIOWait c stack now cx op system d rec = rec
   \<or> (\<exists>r w. rec = Some r \<and> recordIOWait c stack now cx op system d rec = Some (ioAdd w r))"
  by (auto simp: recordIOWait_def Let_def split: option.splits)

lemma clientWf_wait:
  assumes "clientWf d"
  shows "clientWf (d\<lparr>sdIO := recordIOWait (sdCfg d) stack now cx op system wait (sdIO d)\<rparr>)"
  using recordIOWait_cases [of "sdCfg d" stack now cx op system wait "sdIO d"]
proof (elim disjE exE conjE)
  fix r w
  assume r: "sdIO d = Some r" and new: "recordIOWait (sdCfg d) stack now cx op system wait (sdIO d) = Some (ioAdd w r)"
  have m: "irMax (ioAdd w r) = irMax r" and l: "int (length (irWaits (ioAdd w r))) \<le> irMax (ioAdd w r)"
    using clientWf_io(1) [OF assms r] by (auto simp: ioAdd_def)
  show ?thesis unfolding new by (rule clientWf_io(2) [OF assms r m l])
qed (simp add: assms)

lemma wsSample_inv: "wsInv s \<Longrightarrow> wsInv (wsSample h snap s) \<and> wsMaxStacks (wsSample h snap s) = wsMaxStacks s"
  using wsSample_window [of s h "[snap]"] by simp

lemma clientWf_sample:
  assumes "clientWf d"
  shows "clientWf (d\<lparr>sdWall := map_option (wsSample h snap) (sdWall d)\<rparr>)"
proof (cases "sdWall d")
  case None
  then have "d\<lparr>sdWall := None\<rparr> = d" by (cases d) simp
  then show ?thesis using assms by (simp only: None option.map(1))
next
  case (Some s)
  with clientWf_wall(2) [OF assms Some] wsSample_inv [OF clientWf_wall(1) [OF assms Some]] show ?thesis by simp
qed

lemma clientWf_wallFlush: "clientWf (fst s) \<Longrightarrow> clientWf (fst (wallFlush E s))"
  by (simp add: wallFlush_def case_prod_unfold clientWf_flushWall clientWf_flushIO)

lemma clientWf_wallTick: "clientWf (fst s) \<Longrightarrow> clientWf (fst (wallTick h E ev s))"
  by (cases ev; cases s) (simp_all add: clientWf_sample clientWf_wallFlush)

lemma clientWf_shutdown: "clientWf d \<Longrightarrow> clientWf (fst (sdkShutdown E waited d w))"
  using clientWf_wallFlush [of "(d, w)" E] by (simp add: sdkShutdown_def case_prod_unfold clientWf_flush)

lemma clientWf_start: "clientWf (fst (startWithConfig mkdirOk c def))"
  by (auto simp: startWithConfig_def startSignals_def startLoops_def bareClient_def clientWf_def Let_def
      applyProfileDefaults_def newWallSampler_def newIORecorder_def wsInv_def sbInv_new)

end
