(* ===== verification/ClientRuns.thy ===== *)
theory ClientRuns
  imports Client
begin

text \<open>
  What a client promises over its life: who becomes the default, what a flush leaves behind, and what
  the metrics of a run add up to.
\<close>

definition okEnv :: "int sdkEnv" where
  "okEnv = \<lparr>seTrace = (\<lambda>_ w. (True, w + 1)), seProfile = (\<lambda>_ w. (True, w + 1)), seClock = (\<lambda>w. w),
     seGoVersion = ''go1'', seSymbolize = (\<lambda>_. []), seBucketTimes = (\<lambda>_. 0)\<rparr>"

text \<open>
  The default client is the last enabled one.  After a start, \<open>Default()\<close> is the new client exactly
  when it is enabled (its configuration is, and its spool directory could be made), whatever
  \<open>Background\<close> says; otherwise the default is the one before, and without any it is a disabled client.
\<close>

theorem default_is_last_enabled:
  "(case startWithConfig mkdirOk c def of (d, def') \<Rightarrow>
      defaultClient def' = (if cfgEnabled (sdCfg d) then d else defaultClient def)
      \<and> cfgEnabled (sdCfg d) = (cfgEnabled c \<and> mkdirOk)
      \<and> \<not> cfgEnabled (sdCfg (defaultClient None)))"
proof -
  have "cfgEnabled (sdCfg (startLoops (startSignals c))) = cfgEnabled c"
    by (simp add: startLoops_def startSignals_def bareClient_def applyProfileDefaults_def Let_def)
  then show ?thesis
    by (auto simp: startWithConfig_def setDefault_def defaultClient_def bareClient_def Let_def zeroConfig_def)
qed

text \<open>A flush that succeeds leaves nothing behind.\<close>

definition nothingBuffered :: "sdk \<Rightarrow> bool" where
  "nothingBuffered d \<longleftrightarrow>
     (case sdSpans d of None \<Rightarrow> True | Some b \<Rightarrow> sbSpans b = [])
     \<and> (case sdWall d of None \<Rightarrow> True | Some s \<Rightarrow> wsBuckets s = [] \<and> wsTicks s = 0)
     \<and> (case sdIO d of None \<Rightarrow> True | Some r \<Rightarrow> irWaits r = [])"

lemma flush_ok_empty: "fst (flushSpanBatch wr True b w) \<Longrightarrow> sbSpans (fst (snd (flushSpanBatch wr True b w))) = []"
proof (induction "length (sbSpans b)" arbitrary: b w rule: less_induct)
  case less
  have "length (sbSpans (snd (sbTake True b))) < length (sbSpans b)" if "fst (sbTake True b) \<noteq> []"
    using that sbTake_all [of b] by simp
  with less show ?case
    using sbTake_all [of b]
    by (subst flush_step, subst (asm) flush_step) (auto simp: case_prod_unfold split: if_splits)
qed

lemma flush_accepting: "(\<And>rs w. fst (wr rs w)) \<Longrightarrow> fst (flushSpanBatch wr True b w)"
proof (induction "length (sbSpans b)" arbitrary: b w rule: less_induct)
  case less
  have "length (sbSpans (snd (sbTake True b))) < length (sbSpans b)" if "fst (sbTake True b) \<noteq> []"
    using that sbTake_all [of b] by simp
  with less show ?case by (subst flush_step) (auto simp: case_prod_unfold)
qed

lemma writeChunks_accepting:
  "(\<And>b w. fst (wj b w)) \<Longrightarrow> fst (writeChunks wj clock c series limit samples start w)"
proof (induction "length samples - start" arbitrary: start w rule: less_induct)
  case less
  from less.hyps [of "start + limit"] less.prems show ?case
    by (subst writeChunks.simps) (auto split: prod.splits bool.splits, metis fst_conv)
qed

lemma writeProfileSamples_accepting: "(\<And>b w. fst (wj b w)) \<Longrightarrow> fst (writeProfileSamples wj clock c series samples w)"
  by (simp add: writeProfileSamples_def writeChunks_accepting)

lemma sdkFlush_ok:
  assumes "fst (sdkFlush E d w)"
  shows "nothingBuffered (fst (snd (sdkFlush E d w)))"
proof -
  obtain ok d1 w1 where s: "sdkFlushSpans E True d w = (ok, d1, w1)" by (metis prod_cases3)
  with assms have ok: "ok" by (auto simp: sdkFlush_def split: if_splits)
  have d1: "case sdSpans d1 of None \<Rightarrow> True | Some b \<Rightarrow> sbSpans b = []"
  proof (cases "sdSpans d")
    case None
    with s show ?thesis by (auto simp: sdkFlushSpans_def)
  next
    case (Some b)
    with s ok show ?thesis
      using flush_ok_empty [of "writeBatch (seTrace E) (seClock E) (sdCfg d)" b w]
      by (auto simp: sdkFlushSpans_def case_prod_unfold)
  qed
  have f: "sdkFlush E d w = sdkFlushProfiles E d1 w1" by (simp add: sdkFlush_def s ok)
  then have "fst (sdkFlushWall E d1 w1)" using assms by (auto simp: sdkFlushProfiles_def case_prod_unfold split: if_splits)
  then have "fst (snd (sdkFlush E d w)) = d1\<lparr>sdWall := map_option (\<lambda>s. snd (wsDrain s)) (sdWall d1),
      sdIO := map_option (\<lambda>r. r\<lparr>irWaits := []\<rparr>) (sdIO d1)\<rparr>"
    by (simp add: f sdkFlushProfiles_def case_prod_unfold sdkFlushIO_state sdkFlushWall_state)
  with d1 show ?thesis by (simp add: nothingBuffered_def wsDrain_def split: option.splits)
qed

lemma sdkFlush_accepting:
  assumes "\<And>b w. fst (seTrace E b w)" "\<And>b w. fst (seProfile E b w)"
  shows "fst (sdkFlush E d w)"
proof -
  have "fst (sdkFlushSpans E True d w)" for d w
    using assms(1) by (auto simp: sdkFlushSpans_def case_prod_unfold writeBatch_def flush_accepting split: option.splits)
  moreover have "fst (sdkFlushWall E d w)" for d w
    using writeProfileSamples_accepting [OF assms(2)]
    by (auto simp: sdkFlushWall_def flushWallProfiles_def case_prod_unfold split: option.splits bool.splits prod.splits)
  moreover have "fst (sdkFlushIO E d w)" for d w
    using writeProfileSamples_accepting [OF assms(2)]
    by (auto simp: sdkFlushIO_def flushIOProfiles_def case_prod_unfold split: option.splits)
  ultimately show ?thesis by (simp add: sdkFlush_def sdkFlushProfiles_def case_prod_unfold)
qed

text \<open>
  Shutdown leaves nothing in memory.  Whether or not the loops stopped in time, and whatever the
  client had buffered, once its spool accepts what it is given a shutdown writes every span, every banked
  stack and every measured wait: the span buffer, the wall sampler and the I/O recorder are all empty.
\<close>

theorem shutdown_leaves_nothing:
  assumes "\<forall>b w. fst (seTrace E b w)" "\<forall>b w. fst (seProfile E b w)"
  shows "nothingBuffered (fst (sdkShutdown E waited d w))"
proof -
  have "fst (sdkFlush E d w)" for d w using sdkFlush_accepting [of E] assms by blast
  then have "nothingBuffered (fst (snd (sdkFlush E d w)))" for d w by (rule sdkFlush_ok)
  then show ?thesis unfolding sdkShutdown_def case_prod_unfold by blast
qed

definition busyClient :: "sdk \<times> int" where
  "busyClient = sdkEnqueue okEnv (sampleRecord ''x'') (fst (startWithConfig True liveConfig None)) 7"

theorem shutdown_leaves_nothing_witness:
  "nothingBuffered (fst (sdkShutdown okEnv True (fst busyClient) 7))"
  by (rule shutdown_leaves_nothing) (simp_all add: okEnv_def)

text \<open>
  Refused spans hold back the profiles.  \<open>Flush\<close> stops at the first error, so while the spool refuses
  the buffered spans a shutdown writes no wall, off-CPU or I/O sample of a client without a running wall
  loop, even if the spool would take them; the client keeps everything it had.
\<close>

theorem refused_spans_hold_back_profiles:
  assumes "sdSpans d = Some b" "sbInv b" "sbSpans b \<noteq> []" "\<forall>b w. \<not> fst (seTrace E b w)" "WallLoop \<notin> set (sdLoops d)"
  shows "fst (sdkShutdown E waited d w) = d"
proof -
  let ?wr = "writeBatch (seTrace E) (seClock E) (sdCfg d)"
  have f: "\<not> fst (?wr (fst (sbTake True b)) w)" using assms(4) by (simp add: writeBatch_def)
  have "d\<lparr>sdSpans := Some b\<rparr> = d" using assms(1) by (cases d) simp
  then have "sdkFlush E d w = (False, d, snd (?wr (fst (sbTake True b)) w))"
    using flush_failed [where wr = ?wr and all = True and b = b and w = w, OF assms(2,3) f]
    by (simp add: sdkFlush_def sdkFlushSpans_def assms(1))
  then show ?thesis using assms(5) by (simp add: sdkShutdown_def)
qed

definition refusing :: "int sdkEnv" where
  "refusing = okEnv\<lparr>seTrace := \<lambda>_ w. (False, w)\<rparr>"

definition idleClient :: sdk where
  "idleClient = (bareClient liveConfig)\<lparr>sdSpans := Some (sampleBuffer ''x''),
     sdIO := Some (ioAdd \<lparr>iwPcs = [1], iwOp = ''SQL'', iwSystem = [], iwNanos = 5, iwAt = 0, iwTraceID = [], iwSpanID = []\<rparr>
       (newIORecorder 8 8))\<rparr>"

theorem refused_spans_hold_back_profiles_witness:
  "fst (sdkShutdown refusing True idleClient 7) = idleClient"
  by (rule refused_spans_hold_back_profiles [where b = "sampleBuffer ''x''"])
    (simp_all add: idleClient_def sampleBuffer_def sbInv_def refusing_def okEnv_def bareClient_def)


text \<open>
  Refused profiles are lost.  A flush drains the sampler and the recorder before it writes, and puts nothing
  back when the spool refuses a batch: unlike the spans, the samples of the window are gone.
\<close>

theorem refused_profiles_are_lost:
  "(case sdkFlush (okEnv\<lparr>seProfile := \<lambda>_ w. (False, w)\<rparr>) (idleClient\<lparr>sdSpans := None\<rparr>) 7 of (ok, d, w) \<Rightarrow>
      \<not> ok \<and> map_option irWaits (sdIO d) = Some [] \<and> w = 7)"
  by (simp add: sdkFlush_def sdkFlushSpans_def sdkFlushProfiles_def sdkFlushWall_def sdkFlushIO_def flushWallProfiles_def
      flushIOProfiles_def idleClient_def bareClient_def ioAdd_def newIORecorder_def ioDrain_def writeProfileSamples_def
      okEnv_def ioSamplesFrom_def case_prod_unfold writeChunks.simps)



subsection \<open>The metrics of a run\<close>

type_synonym metricsWindow = "(int \<times> int) list \<times> memStats \<times> procFacts"

text \<open>The windows of a run of \<open>metricsLoop\<close>: the one before its first point, and one per tick until cancelled.\<close>

definition runWindows :: "metricsWindow \<Rightarrow> metricsWindow option list \<Rightarrow> metricsWindow list" where
  "runWindows first es = first # map the (takeWhile (\<lambda>e. e \<noteq> None) es)"

definition pointSink :: "metricsPoint \<Rightarrow> metricsPoint list \<Rightarrow> bool \<times> metricsPoint list" where
  "pointSink p ps = (True, ps @ [p])"

definition pointCount :: "string \<Rightarrow> metricsPoint \<Rightarrow> int" where
  "pointCount key p = (case map_of (mpMetrics p) key of Some (Count n) \<Rightarrow> n | _ \<Rightarrow> - 1)"

definition windowRequests :: "metricsWindow \<Rightarrow> int" where
  "windowRequests e = (let n = int (length (fst e)) mod 18446744073709551616 in if n = 0 then 1 else n)"

definition windowErrors :: "metricsWindow \<Rightarrow> int" where
  "windowErrors e = int (length (filter (\<lambda>(status, _). status \<ge> 500) (fst e))) mod 18446744073709551616"

definition windowGc :: "metricsWindow \<Rightarrow> int" where
  "windowGc e = uint (msNumGC (fst (snd e)))"

text \<open>By how much the readings of a cumulative counter went backwards.\<close>

fun rewinds :: "int \<Rightarrow> int list \<Rightarrow> int" where
  "rewinds p [] = 0"
| "rewinds p (r # rs) = max 0 (p - r) + rewinds r rs"

lemma tickLoop_fold: "tickLoop f es s = (None \<in> set es, fold f (map the (takeWhile (\<lambda>e. e \<noteq> None) es)) s)"
proof (induction es arbitrary: s)
  case (Cons e es)
  then show ?case by (cases e) simp_all
qed simp

lemma metricsLoop_fold:
  "snd (metricsLoop wj clock first es s) = fold (metricsTick wj clock) (runWindows first es) s"
  by (simp add: metricsLoop_def tickLoop_fold runWindows_def)

lemma fold_recordHTTP:
  "hcRequests (fold (\<lambda>p. recordHTTP (fst p) (snd p)) reqs h) = hcRequests h + of_nat (length reqs)"
  "hcErrors (fold (\<lambda>p. recordHTTP (fst p) (snd p)) reqs h) = hcErrors h + of_nat (length (filter (\<lambda>p. 500 \<le> fst p) reqs))"
  by (induction reqs arbitrary: h) (auto simp: recordHTTP_def)

lemma uint_counter: "uint (of_nat n :: u64) = int n mod 18446744073709551616"
  by (simp add: unsigned_of_nat take_bit_eq_mod of_nat_mod)

lemma counter_zero: "(of_nat n :: u64) = 0 \<longleftrightarrow> int n mod 18446744073709551616 = 0"
  unfolding uint_counter [symmetric] by (rule uint_0_iff [symmetric])

lemma gc_count: "uint (if msNumGC ms \<ge> p then msNumGC ms - p else 0) = uint (msNumGC ms) - uint p + max 0 (uint p - uint (msNumGC ms))"
  by (auto simp: word_le_def uint_sub_if' max_def)

lemma metricsTick_point:
  assumes "cfgEnabled (sdCfg d)" "cfgMetricsEnabled (sdCfg d)" "sdHttp d = noHttp"
  shows "\<exists>p d'. metricsTick pointSink clock e (d, ps) = (d', ps @ [p]) \<and> sdCfg d' = sdCfg d \<and> sdHttp d' = noHttp
    \<and> pointCount ''process.runtime.request.count'' p = windowRequests e
    \<and> pointCount ''process.runtime.request.errors'' p = windowErrors e
    \<and> uint (sdGcNum d') = windowGc e
    \<and> pointCount ''process.runtime.gc.collections'' p = windowGc e - uint (sdGcNum d) + max 0 (uint (sdGcNum d) - windowGc e)"
  using assms
  by (auto simp: metricsTick_def emitRuntimeMetrics_def recordAll_def gcDelta_def pointSink_def runtimePoint_def
      pointCount_def windowRequests_def windowErrors_def windowGc_def fold_recordHTTP noHttp_def gc_count uint_counter counter_zero
      Let_def case_prod_unfold)

lemma metricsRun_points:
  assumes "cfgEnabled (sdCfg d)" "cfgMetricsEnabled (sdCfg d)" "sdHttp d = noHttp"
  shows "\<exists>new. snd (fold (metricsTick pointSink clock) ws (d, ps)) = ps @ new
    \<and> map (pointCount ''process.runtime.request.count'') new = map windowRequests ws
    \<and> map (pointCount ''process.runtime.request.errors'') new = map windowErrors ws
    \<and> sum_list (map (pointCount ''process.runtime.gc.collections'') new)
        = last (uint (sdGcNum d) # map windowGc ws) - uint (sdGcNum d) + rewinds (uint (sdGcNum d)) (map windowGc ws)"
  using assms
proof (induction ws arbitrary: d ps)
  case (Cons e ws)
  obtain p d' where step: "metricsTick pointSink clock e (d, ps) = (d', ps @ [p])" "sdCfg d' = sdCfg d" "sdHttp d' = noHttp"
    "pointCount ''process.runtime.request.count'' p = windowRequests e"
    "pointCount ''process.runtime.request.errors'' p = windowErrors e" "uint (sdGcNum d') = windowGc e"
    "pointCount ''process.runtime.gc.collections'' p = windowGc e - uint (sdGcNum d) + max 0 (uint (sdGcNum d) - windowGc e)"
    using metricsTick_point [OF Cons.prems] by metis
  obtain new where "snd (fold (metricsTick pointSink clock) ws (d', ps @ [p])) = (ps @ [p]) @ new"
    "map (pointCount ''process.runtime.request.count'') new = map windowRequests ws"
    "map (pointCount ''process.runtime.request.errors'') new = map windowErrors ws"
    "sum_list (map (pointCount ''process.runtime.gc.collections'') new)
        = last (windowGc e # map windowGc ws) - windowGc e + rewinds (windowGc e) (map windowGc ws)"
    using Cons.IH [of d' "ps @ [p]"] Cons.prems step(2,3,6) by auto
  then show ?case using step by (intro exI [of _ "p # new"]) simp
qed simp

lemma metricsRun_off:
  "\<not> (cfgEnabled (sdCfg d) \<and> cfgMetricsEnabled (sdCfg d)) \<Longrightarrow> snd (fold (metricsTick wj clock) ws (d, w)) = w"
proof (induction ws arbitrary: d)
  case (Cons e ws)
  then have "metricsTick wj clock e (d, w) = (recordAll (fst e) d, w)"
    by (auto simp: metricsTick_def emitRuntimeMetrics_def recordAll_def)
  with Cons.IH [of "recordAll (fst e) d"] Cons.prems show ?case by (simp add: recordAll_def)
qed simp

text \<open>
  C25: the metrics of a run add up.  A metrics loop of an enabled client writes one point at its start and
  one per tick; each reports the requests and server errors recorded since the point before (a window
  without requests reports one), and the GC collections of all points sum up to the last reading of the
  runtime's counter, plus everything the readings went backwards in between.
\<close>

theorem metrics_add_up:
  "(case snd (snd (metricsLoop pointSink clock first es (fst (startWithConfig True c def), []))) of points \<Rightarrow>
      if cfgEnabled c \<and> cfgMetricsEnabled c
      then map (pointCount ''process.runtime.request.count'') points = map windowRequests (runWindows first es)
         \<and> map (pointCount ''process.runtime.request.errors'') points = map windowErrors (runWindows first es)
         \<and> sum_list (map (pointCount ''process.runtime.gc.collections'') points)
             = windowGc (last (runWindows first es)) + rewinds 0 (map windowGc (runWindows first es))
      else points = [])"
proof -
  let ?d = "fst (startWithConfig True c def)"
  let ?ws = "runWindows first es"
  show ?thesis
  proof (cases "cfgEnabled c \<and> cfgMetricsEnabled c")
    case True
    then have d: "cfgEnabled (sdCfg ?d)" "cfgMetricsEnabled (sdCfg ?d)" "sdHttp ?d = noHttp" "sdGcNum ?d = 0"
      by (simp_all add: startWithConfig_def startLoops_def startSignals_def bareClient_def applyProfileDefaults_def Let_def)
    have "last (0 # map windowGc ?ws) = windowGc (last ?ws)" by (simp add: runWindows_def last_map)
    then show ?thesis
      using True metricsRun_points [OF d(1-3), of clock ?ws "[]"] d(4) by (auto simp: metricsLoop_fold)
  next
    case False
    then have "\<not> (cfgEnabled (sdCfg ?d) \<and> cfgMetricsEnabled (sdCfg ?d))"
      by (simp add: startWithConfig_def startLoops_def startSignals_def bareClient_def applyProfileDefaults_def Let_def)
    then have "snd (fold (metricsTick pointSink clock) ?ws (?d, [])) = []" by (rule metricsRun_off)
    then show ?thesis using False by (auto simp: metricsLoop_fold)
  qed
qed

end
