(* ===== verification/Logging.thy ===== *)
theory Logging
  imports Tracing
begin

text \<open>
  \<open>logging.go\<close> and \<open>logrus.go\<close>: log records correlated with the ambient span, the \<open>slog\<close> handler and the
  \<open>logrus\<close> hook.  The handler behind the bridge is of any type \<open>'h\<close>, with the operations of \<open>slog\<close>.
\<close>

record logRecord =
  lrOrganisation :: string
  lrApplication :: applicationRef
  lrTraceID :: string
  lrSpanID :: string
  lrObservedAt :: string
  lrSeverity :: string
  lrSeverityNumber :: int
  lrBody :: string
  lrAttributes :: attrs

record logBatch =
  lbSchema :: string
  lbProcessing :: processingIdentity
  lbLogs :: "logRecord list"
  lbLogCount :: string

definition marshalLog :: "logRecord \<Rightarrow> bytes" where
  "marshalLog r = jsonObject
     ([(''organisation'', marshalOrganisation (lrOrganisation r)), (''application'', marshalApplication (lrApplication r))]
      @ omitEmpty ''traceId'' (lrTraceID r) @ omitEmpty ''spanId'' (lrSpanID r)
      @ [(''observedAt'', jsonString (lrObservedAt r)), (''severity'', jsonString (lrSeverity r)),
         (''severityNumber'', itoa (lrSeverityNumber r)), (''body'', jsonString (lrBody r)),
         (''attributes'', jsonMap (lrAttributes r))])"

definition marshalLogBatch :: "logBatch \<Rightarrow> bytes" where
  "marshalLogBatch b = jsonObject
     [(''schema'', jsonString (lbSchema b)), (''processing'', marshalProcessing (lbProcessing b)),
      (''logs'', jsonArray (map marshalLog (lbLogs b))), (''logCount'', jsonString (lbLogCount b))]"

definition severityNumber :: "string \<Rightarrow> int" where
  "severityNumber name =
     (if name = ''trace'' then 1 else if name = ''debug'' then 5
      else if name \<in> {''info'', ''notice''} then 9
      else if name \<in> {''warn'', ''warning''} then 13
      else if name = ''error'' then 17
      else if name \<in> {''fatal'', ''critical''} then 21 else 0)"

definition slogLevelName :: "int \<Rightarrow> string" where
  "slogLevelName level =
     (if level < 0 then ''debug'' else if level < 4 then ''info'' else if level < 8 then ''warn'' else ''error'')"

text \<open>\<open>Log\<close>.  Which 64 attributes a longer map keeps is up to its iteration order, here that of the list.\<close>

definition mkLogRecord :: "config \<Rightarrow> int \<Rightarrow> ctx \<Rightarrow> string \<Rightarrow> string \<Rightarrow> attrs \<Rightarrow> logRecord" where
  "mkLogRecord c now cx severity body m =
     \<lparr>lrOrganisation = organisationRef c, lrApplication = appRef c,
      lrTraceID = (case cx of None \<Rightarrow> [] | Some s \<Rightarrow> spTraceID s),
      lrSpanID = (case cx of None \<Rightarrow> [] | Some s \<Rightarrow> spSpanID s),
      lrObservedAt = formatRFC3339Nano now, lrSeverity = severity, lrSeverityNumber = severityNumber severity,
      lrBody = body, lrAttributes = (if length m > 64 then take 64 m else m)\<rparr>"

definition mkLogBatch :: "config \<Rightarrow> int \<Rightarrow> ctx \<Rightarrow> string \<Rightarrow> string \<Rightarrow> attrs \<Rightarrow> logBatch" where
  "mkLogBatch c now cx severity body m =
     \<lparr>lbSchema = ''chronos.tracing.log-batch.v1'', lbProcessing = processing c (seedNow now),
      lbLogs = [mkLogRecord c now cx severity body m], lbLogCount = ''1''\<rparr>"

definition logsOn :: "client option \<Rightarrow> bool" where
  "logsOn co = (case co of None \<Rightarrow> False | Some cl \<Rightarrow> cfgEnabled (clCfg cl) \<and> cfgLogsEnabled (clCfg cl))"

definition logOut ::
  "(logBatch \<Rightarrow> 'w \<Rightarrow> bool \<times> 'w) \<Rightarrow> ('w \<Rightarrow> int) \<Rightarrow> client option \<Rightarrow> ctx \<Rightarrow> string \<Rightarrow> string \<Rightarrow> attrs \<Rightarrow> 'w \<Rightarrow> 'w" where
  "logOut wj clock co cx severity body m w = (case co of None \<Rightarrow> w
     | Some cl \<Rightarrow> if logsOn (Some cl) then snd (wj (mkLogBatch (clCfg cl) (clock w) cx severity body m) w) else w)"

subsection \<open>slog\<close>

record slogRecord =
  srLevel :: int
  srMessage :: string
  srAttrs :: attrs

record ('h, 'p) slogOps =
  soEnabled :: "'h \<Rightarrow> int \<Rightarrow> bool"
  soHandle :: "'h \<Rightarrow> ctx \<Rightarrow> slogRecord \<Rightarrow> 'p \<Rightarrow> string option \<times> 'p"
  soWithAttrs :: "'h \<Rightarrow> attrs \<Rightarrow> 'h"
  soWithGroup :: "'h \<Rightarrow> string \<Rightarrow> 'h"

record 'h slogBridge =
  brClient :: "client option"
  brNext :: "'h option"

definition slogHandler :: "client option \<Rightarrow> 'h option \<Rightarrow> 'h slogBridge" where
  "slogHandler co nxt = \<lparr>brClient = co, brNext = nxt\<rparr>"

definition bridgeEnabled :: "('h, 'p) slogOps \<Rightarrow> 'h slogBridge \<Rightarrow> int \<Rightarrow> bool" where
  "bridgeEnabled ops h level = (case brNext h of Some n \<Rightarrow> soEnabled ops n level | None \<Rightarrow> logsOn (brClient h))"

definition keepAttr :: "string \<times> string \<Rightarrow> attrs \<Rightarrow> attrs" where
  "keepAttr kv m = (if length m < 64 then AList.update (fst kv) (snd kv) m else m)"

definition bridgeHandle ::
  "('h, 'p) slogOps \<Rightarrow> (logBatch \<Rightarrow> 'w \<Rightarrow> bool \<times> 'w) \<Rightarrow> ('w \<Rightarrow> int) \<Rightarrow> 'h slogBridge \<Rightarrow> ctx \<Rightarrow> slogRecord \<Rightarrow> 'w \<times> 'p
    \<Rightarrow> string option \<times> 'w \<times> 'p" where
  "bridgeHandle ops wj clock h cx r s = (case s of (w, p) \<Rightarrow>
     (let w' = (if logsOn (brClient h)
                then logOut wj clock (brClient h) cx (slogLevelName (srLevel r)) (srMessage r) (fold keepAttr (srAttrs r) [])
                       w
                else w)
      in (case brNext h of None \<Rightarrow> (None, w', p)
          | Some n \<Rightarrow> (case soHandle ops n cx r p of (err, p') \<Rightarrow> (err, w', p')))))"

definition bridgeWithAttrs :: "('h, 'p) slogOps \<Rightarrow> attrs \<Rightarrow> 'h slogBridge \<Rightarrow> 'h slogBridge" where
  "bridgeWithAttrs ops as h = \<lparr>brClient = brClient h, brNext = map_option (\<lambda>n. soWithAttrs ops n as) (brNext h)\<rparr>"

definition bridgeWithGroup :: "('h, 'p) slogOps \<Rightarrow> string \<Rightarrow> 'h slogBridge \<Rightarrow> 'h slogBridge" where
  "bridgeWithGroup ops name h = \<lparr>brClient = brClient h, brNext = map_option (\<lambda>n. soWithGroup ops n name) (brNext h)\<rparr>"

subsection \<open>logrus\<close>

text \<open>
  The levels of \<open>logrus\<close> and their names; the fields of an entry come with their values already turned
  into text by \<open>stringifyField\<close>, in the map's iteration order.
\<close>

datatype logrusLevel = PanicLevel | FatalLevel | ErrorLevel | WarnLevel | InfoLevel | DebugLevel | TraceLevel

fun logrusName :: "logrusLevel \<Rightarrow> string" where
  "logrusName PanicLevel = ''panic''" | "logrusName FatalLevel = ''fatal''" | "logrusName ErrorLevel = ''error''"
| "logrusName WarnLevel = ''warning''" | "logrusName InfoLevel = ''info''" | "logrusName DebugLevel = ''debug''"
| "logrusName TraceLevel = ''trace''"

record logrusEntry =
  leLevel :: logrusLevel
  leMessage :: string
  leData :: attrs
  leContext :: ctx

definition logrusFire ::
  "(logBatch \<Rightarrow> 'w \<Rightarrow> bool \<times> 'w) \<Rightarrow> ('w \<Rightarrow> int) \<Rightarrow> client option \<Rightarrow> logrusEntry \<Rightarrow> 'w \<Rightarrow> 'w" where
  "logrusFire wj clock co e w =
     (if \<not> logsOn co then w
      else logOut wj clock co (leContext e) (logrusName (leLevel e)) (leMessage e) (take 64 (leData e)) w)"

subsection \<open>Results\<close>

definition logLog :: "logBatch \<Rightarrow> logRecord list \<Rightarrow> bool \<times> logRecord list" where
  "logLog b rs = (True, rs @ lbLogs b)"

text \<open>
  \<open>slog\<close> records keep their order of severity.  A record at a higher \<open>slog\<close> level, the custom levels
  between and beyond the named ones included, never gets a lower severity number, and every level gets one.
\<close>

theorem slog_severity_monotone:
  "(if level \<le> level' then severityNumber (slogLevelName level) \<le> severityNumber (slogLevelName level') else True)
   \<and> severityNumber (slogLevelName level) \<in> {5, 9, 13, 17}"
  by (simp add: slogLevelName_def severityNumber_def)

text \<open>The bridge keeps the first 64 keys.\<close>

lemma keepAttr_inv: "wf_map m \<and> length m \<le> 64 \<Longrightarrow> wf_map (fold keepAttr kvs m) \<and> length (fold keepAttr kvs m) \<le> 64"
  by (induction kvs arbitrary: m) (auto simp: keepAttr_def length_update)

text \<open>
  The bridge is transparent and bounded.  Behind it the next handler gets the same record and its
  error and state come back unchanged; with logs on exactly one record is spooled, with the message, the
  trace of the context and at most 64 attributes, each key once; with logs off none is.
\<close>

theorem slog_bridge_transparent:
  "(case bridgeHandle ops logLog clock h cx r ([], p) of (err, rs, p') \<Rightarrow>
      (err, p') = (case brNext h of None \<Rightarrow> (None, p) | Some n \<Rightarrow> soHandle ops n cx r p)
      \<and> (if logsOn (brClient h)
         then (case rs of [x] \<Rightarrow> lrBody x = srMessage r \<and> lrSeverity x = slogLevelName (srLevel r)
                 \<and> lrTraceID x = (case cx of None \<Rightarrow> [] | Some s \<Rightarrow> spTraceID s)
                 \<and> length (lrAttributes x) \<le> 64 \<and> wf_map (lrAttributes x)
               | _ \<Rightarrow> False)
         else rs = []))"
proof -
  have "wf_map (fold keepAttr (srAttrs r) [])" "length (fold keepAttr (srAttrs r) []) \<le> 64"
    using keepAttr_inv [of "[]" "srAttrs r"] by simp_all
  then show ?thesis
    by (simp add: bridgeHandle_def logOut_def logLog_def mkLogBatch_def mkLogRecord_def logsOn_def
        split: option.splits prod.splits)
qed

text \<open>
  Attributes bound to a logger are lost on the way to the spool.  What a logger derived by
  \<open>WithAttrs\<close> or \<open>WithGroup\<close> spools for a record is what the logger it was derived from spools: the bound
  attributes reach the next handler only.
\<close>

theorem bound_attributes_lost:
  "fst (snd (bridgeHandle ops wj clock (bridgeWithAttrs ops as h) cx r (w, p))) = fst (snd (bridgeHandle ops wj clock h cx r (w, p)))
   \<and> fst (snd (bridgeHandle ops wj clock (bridgeWithGroup ops name h) cx r (w, p))) = fst (snd (bridgeHandle ops wj clock h cx r (w, p)))"
  by (simp add: bridgeHandle_def bridgeWithAttrs_def bridgeWithGroup_def Let_def split: option.splits prod.splits)

text \<open>
  A logrus panic is the least severe record.  The severity numbers of the \<open>logrus\<close> levels follow
  their order, except that of \<open>panic\<close>: it has none and is recorded as 0, below \<open>trace\<close>.
\<close>

theorem logrus_panic_unranked:
  "map (severityNumber \<circ> logrusName) [TraceLevel, DebugLevel, InfoLevel, WarnLevel, ErrorLevel, FatalLevel, PanicLevel]
   = [1, 5, 9, 13, 17, 21, 0]"
  by (simp add: severityNumber_def)

end
