(* ===== verification/Documents.thy ===== *)
theory Documents
  imports JsonText Tracing Logging ProfileSample Metrics
begin

text \<open>
  The JSON documents the SDK spools, and what a reader finds in them.  Each record type has its tree,
  the value a JSON parser should read; that the bytes of the encoder render it is the contract of the
  locale \<open>document\<close>, which every record of the wire is an instance of.  So a document is always well
  formed, whatever strings it carries, and no string can be mistaken for structure: only its invalid
  UTF-8 is replaced.
\<close>

locale document =
  fixes marshal :: "'a \<Rightarrow> bytes" and tree :: "'a \<Rightarrow> jval" and depth :: nat and valid :: "'a \<Rightarrow> bool"
  assumes rendered: "valid x \<Longrightarrow> renders depth (marshal x) (tree x)" and shallow: "depth < maxNesting"
begin

lemma reads_back: "valid x \<Longrightarrow> jParse (marshal x) = Some (tree x)"
  using renders_parse [OF rendered] shallow by simp

lemma same_text: "valid x \<Longrightarrow> valid y \<Longrightarrow> marshal x = marshal y \<Longrightarrow> tree x = tree y"
  using reads_back by (metis option.inject)

lemma array: "list_all valid xs \<Longrightarrow> renders (Suc depth) (jsonArray (map marshal xs)) (JArr (map tree xs))"
  by (rule renders_array) (simp add: list_all2_conv_all_nth list_all_length rendered)

lemma array_at: "depth < d \<Longrightarrow> list_all valid xs \<Longrightarrow> renders d (jsonArray (map marshal xs)) (JArr (map tree xs))"
  using renders_mono [OF array] by simp

end

subsection \<open>Members\<close>

definition textVal :: "string \<Rightarrow> jval" where
  "textVal s = JStr (toValidUTF8 s)"

definition unlessEmpty :: "string \<Rightarrow> string \<Rightarrow> (bytes \<times> jval) list" where
  "unlessEmpty k v = (if v = [] then [] else [(k, textVal v)])"

lemma toValidUTF8_ascii: "list_all (\<lambda>c. ord c < 128) s \<Longrightarrow> toValidUTF8 s = s"
  by (rule toValidUTF8_id) (simp add: utf8Valid_ascii isAscii_def)

definition members :: "nat \<Rightarrow> (string \<times> bytes) list \<Rightarrow> (bytes \<times> jval) list \<Rightarrow> bool" where
  "members d kbs ms \<longleftrightarrow> list_all2 (rendersMember d) kbs ms"

named_theorems member "members of JSON objects"

lemma members_Nil [member]: "members d [] []"
  by (simp add: members_def)

lemma members_Cons [member]:
  "list_all (\<lambda>c. ord c < 128) k \<Longrightarrow> renders d b v \<Longrightarrow> members d kbs ms \<Longrightarrow> members d ((k, b) # kbs) ((k, v) # ms)"
  by (simp add: members_def rendersMember_def toValidUTF8_ascii)

lemma members_append [member]: "members d kbs ms \<Longrightarrow> members d kbs' ms' \<Longrightarrow> members d (kbs @ kbs') (ms @ ms')"
  by (simp add: members_def list_all2_appendI)

lemma members_omit [member]: "list_all (\<lambda>c. ord c < 128) k \<Longrightarrow> members d (omitEmpty k v) (unlessEmpty k v)"
  by (simp add: members_def omitEmpty_def unlessEmpty_def rendersMember_def toValidUTF8_ascii textVal_def renders_string)

lemma members_if [member]:
  "(b \<Longrightarrow> members d kbs ms) \<Longrightarrow> (\<not> b \<Longrightarrow> members d kbs' ms') \<Longrightarrow> members d (if b then kbs else kbs') (if b then ms else ms')"
  by simp

lemma renders_members: "members d kbs ms \<Longrightarrow> renders (Suc d) (jsonObject kbs) (JObj ms)"
  unfolding members_def by (rule renders_object)

lemma renders_textVal [json_text]: "renders d (jsonString s) (textVal s)"
  by (simp add: textVal_def renders_string)

lemma depths: "(1 :: nat) = Suc 0" "(2 :: nat) = Suc (Suc 0)" "(4 :: nat) = Suc (Suc (Suc (Suc 0)))"
  "(6 :: nat) = Suc (Suc (Suc (Suc (Suc (Suc 0)))))"
  by simp_all

subsection \<open>Spans\<close>

definition organisationTree :: "string \<Rightarrow> jval" where
  "organisationTree org = JObj [(''organisationId'', textVal org)]"

definition applicationTree :: "applicationRef \<Rightarrow> jval" where
  "applicationTree a = JObj ((''applicationId'', textVal (arApplicationID a)) #
     (case arProject a of None \<Rightarrow> []
      | Some p \<Rightarrow> [(''project'', JObj [(''organisation'', organisationTree (prOrganisation p)), (''projectId'', textVal (prProjectID p))])]))"

definition processingTree :: "processingIdentity \<Rightarrow> jval" where
  "processingTree p = JObj ([(''messageId'', textVal (piMessageID p)), (''batchId'', textVal (piBatchID p))]
     @ unlessEmpty ''organisationId'' (piOrganisationID p) @ unlessEmpty ''projectId'' (piProjectID p)
     @ unlessEmpty ''applicationId'' (piApplicationID p))"

definition spanTree :: "spanRecord \<Rightarrow> jval" where
  "spanTree r = JObj ([(''organisation'', organisationTree (srOrganisation r)), (''application'', applicationTree (srApplication r)),
      (''traceId'', textVal (srTraceID r)), (''spanId'', textVal (srSpanID r)), (''parentSpanId'', textVal (srParentSpanID r)),
      (''name'', textVal (srName r)), (''startedAt'', textVal (srStartedAt r)), (''endedAt'', textVal (srEndedAt r)),
      (''status'', textVal (srStatus r)), (''attributes'', mapTree (srAttributes r))]
     @ unlessEmpty ''serviceName'' (srServiceName r) @ unlessEmpty ''httpMethod'' (srHTTPMethod r)
     @ unlessEmpty ''httpRoute'' (srHTTPRoute r)
     @ (if srHTTPStatusCode r = 0 then [] else [(''httpStatusCode'', JNum (digits10 (unat (srHTTPStatusCode r))))]))"

definition spanBatchTree :: "spanBatch \<Rightarrow> jval" where
  "spanBatchTree b = JObj [(''schema'', textVal (sbatSchema b)), (''processing'', processingTree (sbatProcessing b)),
     (''spans'', JArr (map spanTree (sbatSpans b))), (''spanCount'', textVal (sbatSpanCount b))]"

lemma renders_organisation [json_text]: "renders (Suc d) (marshalOrganisation org) (organisationTree org)"
  unfolding marshalOrganisation_def organisationTree_def
  by (intro renders_members member json_text) simp_all

lemma renders_application [json_text]: "renders (Suc (Suc (Suc d))) (marshalApplication a) (applicationTree a)"
  unfolding marshalApplication_def applicationTree_def
  by (cases "arProject a"; simp only: option.case; intro renders_members member json_text; simp)

lemma renders_processing [json_text]: "renders (Suc d) (marshalProcessing p) (processingTree p)"
  unfolding marshalProcessing_def processingTree_def
  by (intro renders_members member json_text) simp_all

interpretation spanDoc: document marshalSpan spanTree 4 "\<lambda>_. True"
proof
  show "renders 4 (marshalSpan r) (spanTree r)" for r
    unfolding marshalSpan_def spanTree_def depths
    by (intro renders_members member json_text) simp_all
qed (simp add: maxNesting_def)

lemmas spanArray = spanDoc.array_at [unfolded list.pred_True, simplified]

interpretation spanBatchDoc: document marshalSpanBatch spanBatchTree 6 "\<lambda>_. True"
proof
  show "renders 6 (marshalSpanBatch b) (spanBatchTree b)" for b
    unfolding marshalSpanBatch_def spanBatchTree_def depths
    by (intro renders_members member json_text spanArray) simp_all
qed (simp add: maxNesting_def)

subsection \<open>Logs\<close>

definition logTree :: "logRecord \<Rightarrow> jval" where
  "logTree r = JObj ([(''organisation'', organisationTree (lrOrganisation r)), (''application'', applicationTree (lrApplication r))]
     @ unlessEmpty ''traceId'' (lrTraceID r) @ unlessEmpty ''spanId'' (lrSpanID r)
     @ [(''observedAt'', textVal (lrObservedAt r)), (''severity'', textVal (lrSeverity r)),
        (''severityNumber'', JNum (itoa (lrSeverityNumber r))), (''body'', textVal (lrBody r)),
        (''attributes'', mapTree (lrAttributes r))])"

definition logBatchTree :: "logBatch \<Rightarrow> jval" where
  "logBatchTree b = JObj [(''schema'', textVal (lbSchema b)), (''processing'', processingTree (lbProcessing b)),
     (''logs'', JArr (map logTree (lbLogs b))), (''logCount'', textVal (lbLogCount b))]"

interpretation logDoc: document marshalLog logTree 4 "\<lambda>_. True"
proof
  show "renders 4 (marshalLog r) (logTree r)" for r
    unfolding marshalLog_def logTree_def depths
    by (intro renders_members member json_text) simp_all
qed (simp add: maxNesting_def)

lemmas logArray = logDoc.array_at [unfolded list.pred_True, simplified]

interpretation logBatchDoc: document marshalLogBatch logBatchTree 6 "\<lambda>_. True"
proof
  show "renders 6 (marshalLogBatch b) (logBatchTree b)" for b
    unfolding marshalLogBatch_def logBatchTree_def depths
    by (intro renders_members member json_text logArray) simp_all
qed (simp add: maxNesting_def)

subsection \<open>Profiles\<close>

definition frameTree :: "profileFrame \<Rightarrow> jval" where
  "frameTree f = JObj (unlessEmpty ''module'' (pfModule f) @ unlessEmpty ''function'' (pfFunction f) @ unlessEmpty ''file'' (pfFile f)
     @ (if pfLine f = 0 then [] else [(''line'', JNum (digits10 (unat (pfLine f))))]))"

definition correlationTree :: "profileCorrelation \<Rightarrow> jval" where
  "correlationTree c = JObj (unlessEmpty ''traceId'' (pcTraceID c) @ unlessEmpty ''spanId'' (pcSpanID c)
     @ unlessEmpty ''sessionId'' (pcSessionID c))"

definition sampleTree :: "profileSample \<Rightarrow> jval" where
  "sampleTree s = JObj ([(''organisation'', organisationTree (psOrganisation s)), (''application'', applicationTree (psApplication s)),
       (''profileSeriesId'', textVal (psSeriesID s)), (''sequence'', textVal (psSequence s)),
       (''sampledAt'', textVal (psSampledAt s)), (''sampleType'', textVal (psSampleType s)),
       (''periodNanoseconds'', textVal (psPeriod s)), (''value'', textVal (psValue s)),
       (''unit'', textVal (psUnit s)), (''stack'', JArr (map frameTree (psStack s)))]
     @ (case psCorrelation s of None \<Rightarrow> [] | Some c \<Rightarrow> [(''correlation'', correlationTree c)])
     @ (if psLabels s = [] then [] else [(''labels'', mapTree (psLabels s))]))"

definition profileBatchTree :: "profileBatch \<Rightarrow> jval" where
  "profileBatchTree b = JObj [(''schema'', textVal (pbSchema b)), (''processing'', processingTree (pbProcessing b)),
     (''samples'', JArr (map sampleTree (pbSamples b))), (''sampleCount'', textVal (pbSampleCount b))]"

lemma renders_correlation [json_text]: "renders (Suc d) (marshalCorrelation c) (correlationTree c)"
  unfolding marshalCorrelation_def correlationTree_def
  by (intro renders_members member json_text) simp_all

interpretation frameDoc: document marshalFrame frameTree 1 "\<lambda>_. True"
proof
  show "renders 1 (marshalFrame f) (frameTree f)" for f
    unfolding marshalFrame_def frameTree_def depths
    by (intro renders_members member json_text) simp_all
qed (simp add: maxNesting_def)

lemmas frameArray = frameDoc.array_at [unfolded list.pred_True, simplified]

interpretation sampleDoc: document marshalSample sampleTree 4 "\<lambda>_. True"
proof
  show "renders 4 (marshalSample s) (sampleTree s)" for s
    unfolding marshalSample_def sampleTree_def depths
    by (cases "psCorrelation s"; simp only: option.case;
        intro renders_members member json_text frameArray; simp)
qed (simp add: maxNesting_def)

lemmas sampleArray = sampleDoc.array_at [unfolded list.pred_True, simplified]

interpretation profileBatchDoc: document marshalProfileBatch profileBatchTree 6 "\<lambda>_. True"
proof
  show "renders 6 (marshalProfileBatch b) (profileBatchTree b)" for b
    unfolding marshalProfileBatch_def profileBatchTree_def depths
    by (intro renders_members member json_text sampleArray) simp_all
qed (simp add: maxNesting_def)

subsection \<open>Metrics\<close>

definition resourceTree :: "resourceValue \<Rightarrow> jval" where
  "resourceTree v = (case v of RInt i \<Rightarrow> JNum (itoa i) | RStr s \<Rightarrow> textVal s)"

definition serviceTree :: "metricsPoint \<Rightarrow> jval" where
  "serviceTree p = JObj ([(''organisation'', textVal (mpOrganisation p)), (''project'', textVal (mpProject p)),
     (''application'', textVal (mpApplication p))] @ unlessEmpty ''version'' (mpVersion p))"

definition runtimePointTree :: "metricsPoint \<Rightarrow> jval" where
  "runtimePointTree p = JObj
     [(''schema'', textVal (mpSchema p)), (''time'', textVal (mpTime p)), (''service'', serviceTree p),
      (''resource'', JObj (map (\<lambda>(k, v). (toValidUTF8 k, resourceTree v)) (sort_key fst (mpResource p)))),
      (''attributes'', mapTree (mpAttributes p)),
      (''metrics'', JObj (map (\<lambda>(k, v). (toValidUTF8 k, JNum (jsonFloat (metricFloat v)))) (sort_key fst (mpMetrics p))))]"

text \<open>The finite values of a point: a counter of the runtime, or a duration, is never an infinity.\<close>

definition readable :: "metricValue \<Rightarrow> bool" where
  "readable v \<longleftrightarrow> (case v of Count n \<Rightarrow> 0 \<le> n \<and> n < 2 ^ 64 | Millis n \<Rightarrow> 0 \<le> n \<and> n < 2 ^ 64)"

definition okPoint :: "metricsPoint \<Rightarrow> bool" where
  "okPoint p \<longleftrightarrow> list_all (\<lambda>kv. readable (snd kv)) (mpMetrics p)"

lemma f64Value_nonneg: "0 \<le> x \<Longrightarrow> 0 \<le> f64Value x"
proof -
  assume x: "0 \<le> x"
  have "0 \<le> roundHalfEven (x / 2 powi q)" for q
    using x by (simp add: roundHalfEven_def Let_def add_nonneg_nonneg)
  then show ?thesis by (simp add: f64Value_def Let_def)
qed

lemma toF64_bounded:
  assumes "0 \<le> x" "x \<le> 2 ^ 65"
  obtains r where "toF64 x = Fin r" "0 \<le> r" "r \<le> 2 ^ 66"
proof -
  have "\<bar>x\<bar> \<le> 2 ^ 70" using assms by simp
  then have "toF64 x = Fin (f64Value x)" by (rule toF64_Fin)
  moreover have "f64Value x \<le> 2 ^ 66" using f64Value_error [of x] assms by simp
  ultimately show thesis using that f64Value_nonneg [OF assms(1)] by blast
qed

lemma metricFloat_Fin:
  assumes "readable v"
  obtains r where "metricFloat v = Fin r" "0 \<le> r"
proof -
  have counter: "\<exists>r. toF64 (of_int n) = Fin r \<and> 0 \<le> r \<and> r \<le> 2 ^ 66" if "0 \<le> n" "n < 2 ^ 64" for n :: int
  proof -
    have "n \<le> 2 ^ 65" using that(2) by simp
    then have "(of_int n :: rat) \<le> of_int (2 ^ 65)" by (simp only: of_int_le_iff)
    then have "(of_int n :: rat) \<le> 2 ^ 65" by simp
    moreover have "(0 :: rat) \<le> of_int n" using that(1) by simp
    ultimately show ?thesis using toF64_bounded by blast
  qed
  show thesis
  proof (cases v)
    case (Count n)
    then show ?thesis using assms counter [of n] that by (auto simp: readable_def metricFloat_def)
  next
    case (Millis n)
    then obtain r where r: "toF64 (of_int n) = Fin r" "0 \<le> r" "r \<le> 2 ^ 66"
      using assms counter [of n] by (auto simp: readable_def)
    then have "0 \<le> r / 1000000" "r / 1000000 \<le> 2 ^ 65" by simp_all
    then obtain u where "toF64 (r / 1000000) = Fin u" "0 \<le> u" by (rule toF64_bounded)
    then show ?thesis using r(1) Millis that by (simp add: metricFloat_def fdivBy_def)
  qed
qed

lemma renders_jsonFloat:
  assumes "readable v"
  shows "renders d (jsonFloat (metricFloat v)) (JNum (jsonFloat (metricFloat v)))"
proof -
  obtain r where "metricFloat v = Fin r" "0 \<le> r" using metricFloat_Fin [OF assms] .
  then show ?thesis by (simp add: jsonFloat_def renders_shortest)
qed

lemma renders_resource: "renders d (jsonResource v) (resourceTree v)"
  by (cases v) (simp_all add: jsonResource_def resourceTree_def renders_itoa renders_textVal)

lemma renders_service [json_text]: "renders (Suc d) (marshalMetricsService p) (serviceTree p)"
  unfolding marshalMetricsService_def serviceTree_def
  by (intro renders_members member json_text) simp_all

lemma renders_valueMap:
  assumes "\<And>k v. (k, v) \<in> set kvs \<Longrightarrow> renders d (f v) (g v)"
  shows "renders (Suc d) (jsonObject (map (\<lambda>(k, v). (k, f v)) kvs)) (JObj (map (\<lambda>(k, v). (toValidUTF8 k, g v)) kvs))"
proof (rule renders_object)
  have "rendersMember d (k, f v) (toValidUTF8 k, g v)" if "(k, v) \<in> set kvs" for k v
    using assms that by (simp add: rendersMember_def)
  then show "list_all2 (rendersMember d) (map (\<lambda>(k, v). (k, f v)) kvs) (map (\<lambda>(k, v). (toValidUTF8 k, g v)) kvs)"
    by (auto simp: list_all2_conv_all_nth case_prod_unfold)
qed

interpretation metricsDoc: document marshalMetricsPoint runtimePointTree 2 okPoint
proof
  show "renders 2 (marshalMetricsPoint p) (runtimePointTree p)" if "okPoint p" for p
  proof -
    have "renders d (jsonFloat (metricFloat v)) (JNum (jsonFloat (metricFloat v)))"
      if "(k, v) \<in> set (sort_key fst (mpMetrics p))" for d k v
      using that \<open>okPoint p\<close> renders_jsonFloat by (fastforce simp: okPoint_def list_all_iff)
    then show ?thesis
      unfolding marshalMetricsPoint_def runtimePointTree_def depths
      by (intro renders_members member json_text renders_valueMap renders_resource) simp_all
  qed
qed (simp add: maxNesting_def)

lemma okPoint_runtime:
  assumes "0 \<le> rtGoroutines rt" "rtGoroutines rt < 2 ^ 64"
  shows "okPoint (runtimePoint c now ms rt reqs errs durNs gc)"
proof -
  have "uint w < 2 ^ 64" for w :: u64 using uint_bounded [of w] by simp
  moreover have "uint w < 2 ^ 64" for w :: u32 using uint_bounded [of w] by simp
  ultimately show ?thesis using assms by (simp add: okPoint_def runtimePoint_def readable_def)
qed

text \<open>
  C5: a spooled document is always the JSON of its data.  Whatever strings a span, log or profile
  batch carries, names, attribute keys and values with quotes, control characters or invalid UTF-8
  included, and whatever the metrics point of a process with any number of goroutines holds, a JSON parser accepts the bytes
  and reads exactly the members of the record, in order, with their values, the empty optional ones
  left out; only invalid UTF-8 is replaced.
\<close>

theorem spooled_documents_parse:
  fixes goroutines :: u64
  shows "jParse (marshalSpanBatch sb) = Some (spanBatchTree sb)
    \<and> jParse (marshalLogBatch lb) = Some (logBatchTree lb)
    \<and> jParse (marshalProfileBatch pb) = Some (profileBatchTree pb)
    \<and> (let p = runtimePoint c now ms (rt\<lparr>rtGoroutines := uint goroutines\<rparr>) reqs errs durNs gc
       in jParse (marshalMetricsPoint p) = Some (runtimePointTree p))"
proof -
  have "uint goroutines < 2 ^ 64" using uint_bounded [of goroutines] by simp
  then show ?thesis
    by (simp add: spanBatchDoc.reads_back logBatchDoc.reads_back profileBatchDoc.reads_back metricsDoc.reads_back okPoint_runtime)
qed

end
