(* ===== verification/SpoolFlow.thy ===== *)
theory SpoolFlow
  imports SpanFlow Documents
begin

text \<open>
  From the buffers to the disk.  What the span buffer and the profile writers rely on is the contract
  of the locale \<open>batch_sink\<close>: while there is room, a document that fits is accepted and becomes the last
  entry kept, and what the sink loses is lost from the front.  The spool directory is such a sink, and
  so everything a client ends is on disk, once, in order and readable, except for the oldest segments.
\<close>

text \<open>
  What a run of a buffer over a sink has come to: the spans offered since \<open>s\<close>, after those that were
  buffered, are written in batches, each at its time, and the rest is buffered; the sink has kept the
  end of what it had and of the batches; nothing was dropped, and the buffer is below its threshold.
\<close>

definition belowBatch :: "'r spanBuffer \<Rightarrow> bool" where
  "belowBatch b \<longleftrightarrow> sbInv b \<and> int (length (sbSpans b)) < sbBatchSize b"

definition reached :: "('w \<Rightarrow> frame list) \<Rightarrow> (int \<Rightarrow> 'r list \<Rightarrow> frame) \<Rightarrow> 'r spanBuffer \<times> 'w \<Rightarrow> 'r list \<Rightarrow> 'r spanBuffer \<times> 'w \<Rightarrow> bool" where
  "reached kept frameOf s xs s' \<longleftrightarrow>
     (\<exists>ws lost. kept (snd s) @ map (\<lambda>(t, rs). frameOf t rs) ws = lost @ kept (snd s')
        \<and> concat (map snd ws) @ sbSpans (fst s') = sbSpans (fst s) @ xs)
     \<and> belowBatch (fst s') \<and> sbBatchSize (fst s') = sbBatchSize (fst s) \<and> sbDropped (fst s') = sbDropped (fst s)"

lemma reachedI:
  assumes "kept w @ map (\<lambda>(t, rs). frameOf t rs) ws = lost @ kept w'" "concat (map snd ws) @ sbSpans b' = sbSpans b @ xs"
    and "belowBatch b'" "sbBatchSize b' = sbBatchSize b" "sbDropped b' = sbDropped b"
  shows "reached kept frameOf (b, w) xs (b', w')"
  using assms unfolding reached_def by auto

lemma reached_trans:
  assumes "reached kept frameOf s xs s1" "reached kept frameOf s1 ys s2"
  shows "reached kept frameOf s (xs @ ys) s2"
proof -
  let ?f = "\<lambda>(t, rs). frameOf t rs"
  obtain ws1 lost1 where 1: "kept (snd s) @ map ?f ws1 = lost1 @ kept (snd s1)"
    "concat (map snd ws1) @ sbSpans (fst s1) = sbSpans (fst s) @ xs"
    using assms(1) unfolding reached_def by blast
  obtain ws2 lost2 where 2: "kept (snd s1) @ map ?f ws2 = lost2 @ kept (snd s2)"
    "concat (map snd ws2) @ sbSpans (fst s2) = sbSpans (fst s1) @ ys"
    using assms(2) unfolding reached_def by blast
  have "kept (snd s) @ map ?f (ws1 @ ws2) = (lost1 @ lost2) @ kept (snd s2)"
    using 1(1) 2(1) by (metis append.assoc map_append)
  moreover have "concat (map snd (ws1 @ ws2)) @ sbSpans (fst s2) = sbSpans (fst s) @ xs @ ys"
    using 1(2) 2(2) by (metis append.assoc concat_append map_append)
  ultimately have "\<exists>ws lost. kept (snd s) @ map ?f ws = lost @ kept (snd s2)
      \<and> concat (map snd ws) @ sbSpans (fst s2) = sbSpans (fst s) @ xs @ ys" by blast
  moreover have "belowBatch (fst s2)" "sbBatchSize (fst s2) = sbBatchSize (fst s)" "sbDropped (fst s2) = sbDropped (fst s)"
    using assms unfolding reached_def by simp_all
  ultimately show ?thesis unfolding reached_def by blast
qed

lemma reached_buffer:
  fixes s s' :: "'r spanBuffer \<times> 'w"
  assumes "reached kept frameOf s xs s'"
  shows "set (sbSpans (fst s')) \<subseteq> set (sbSpans (fst s) @ xs)" "belowBatch (fst s')"
    "sbBatchSize (fst s') = sbBatchSize (fst s)" "sbDropped (fst s') = sbDropped (fst s)"
proof -
  obtain ws :: "(int \<times> 'r list) list" where "concat (map snd ws) @ sbSpans (fst s') = sbSpans (fst s) @ xs"
    using assms unfolding reached_def by blast
  then show "set (sbSpans (fst s')) \<subseteq> set (sbSpans (fst s) @ xs)" by (metis set_append Un_upper2)
qed (use assms in \<open>simp_all add: reached_def\<close>)

text \<open>
  An event at the buffer: time passes (\<open>tick\<close>), and a record is enqueued when the event makes one.
\<close>

definition bufferStep :: "('r list \<Rightarrow> 'w \<Rightarrow> bool \<times> 'w) \<Rightarrow> ('e \<Rightarrow> 'r option) \<Rightarrow> ('e \<Rightarrow> 'w \<Rightarrow> 'w) \<Rightarrow> 'e
    \<Rightarrow> 'r spanBuffer \<times> 'w \<Rightarrow> 'r spanBuffer \<times> 'w" where
  "bufferStep wr rec tick e s = (case rec e of None \<Rightarrow> (fst s, tick e (snd s)) | Some r \<Rightarrow> enqueueSpan wr r (fst s) (tick e (snd s)))"

locale batch_sink =
  fixes put :: "'d \<Rightarrow> 'w \<Rightarrow> bool \<times> 'w" and kept :: "'w \<Rightarrow> frame list" and room :: "nat \<Rightarrow> 'w \<Rightarrow> bool"
    and entry :: "'d \<Rightarrow> frame" and fits :: "'d \<Rightarrow> bool"
  assumes accepts: "room (Suc n) w \<Longrightarrow> fits d \<Longrightarrow> fst (put d w) \<and> room n (snd (put d w))
      \<and> (\<exists>lost. kept w @ [entry d] = lost @ kept (snd (put d w)))"
    and room_less: "room (Suc n) w \<Longrightarrow> room n w"
begin

lemma room_mono: "room n w \<Longrightarrow> m \<le> n \<Longrightarrow> room m w"
  by (induction n) (auto simp: le_Suc_eq intro: room_less)

text \<open>One record enqueued: it is buffered, or it fills the batch, which is written.\<close>

lemma enqueue_kept:
  assumes "belowBatch b" "room (Suc n) w"
    and fit: "\<And>t rs. rs \<noteq> [] \<Longrightarrow> set rs \<subseteq> set (sbSpans b @ [r]) \<Longrightarrow> int (length rs) \<le> sbBatchSize b \<Longrightarrow> fits (doc t rs)"
  shows "reached kept (\<lambda>t rs. entry (doc t rs)) (b, w) [r] (enqueueSpan (\<lambda>rs w. put (doc (clock w) rs) w) r b w)
    \<and> room n (snd (enqueueSpan (\<lambda>rs w. put (doc (clock w) rs) w) r b w))"
proof -
  let ?wr = "\<lambda>rs w. put (doc (clock w) rs) w"
  let ?b = "b\<lparr>sbSpans := sbSpans b @ [r]\<rparr>"
  have "int (length (sbSpans b)) < sbMaxBuffered b" using assms(1) by (simp add: belowBatch_def sbInv_def)
  then have add: "sbAdd r b = (int (length (sbSpans b @ [r])) \<ge> sbBatchSize b, ?b)" by (simp add: sbAdd_def)
  have inv: "sbInv ?b" using sbInv_add [of b r] add assms(1) by (simp add: belowBatch_def)
  show ?thesis
  proof (cases "int (length (sbSpans b @ [r])) \<ge> sbBatchSize b")
    case False
    then have e: "enqueueSpan ?wr r b w = (?b, w)" by (simp add: enqueueSpan_def add)
    show ?thesis unfolding e using inv False room_less [OF assms(2)]
      by (auto intro!: reachedI [where ws = "[]" and lost = "[]"] simp: belowBatch_def)
  next
    case True
    let ?d = "doc (clock w) (sbSpans b @ [r])"
    have size: "sbBatchSize b = int (length (sbSpans b @ [r]))" using assms(1) True by (simp add: belowBatch_def)
    then have t: "sbTake False ?b = (sbSpans b @ [r], b\<lparr>sbSpans := []\<rparr>)" by (simp add: sbTake_def)
    have "fits ?d" using size by (intro fit) simp_all
    from accepts [OF assms(2) this] obtain lost where p: "fst (put ?d w)" "room n (snd (put ?d w))"
      "kept w @ [entry ?d] = lost @ kept (snd (put ?d w))" by blast
    have "flushSpanBatch ?wr False ?b w = (True, b\<lparr>sbSpans := []\<rparr>, snd (put ?d w))"
      using flush_batch_ok [of ?b ?wr w] inv p(1) t by simp
    then have e: "enqueueSpan ?wr r b w = (b\<lparr>sbSpans := []\<rparr>, snd (put ?d w))"
      using True by (simp add: enqueueSpan_def add)
    have "belowBatch (b\<lparr>sbSpans := []\<rparr>)" using assms(1) by (simp add: belowBatch_def sbInv_def)
    then show ?thesis unfolding e using p
      by (auto intro!: reachedI [where ws = "[(clock w, sbSpans b @ [r])]" and lost = lost])
  qed
qed

lemma steps_kept:
  assumes quiet: "\<And>e w. kept (tick e w) = kept w" "\<And>e n w. room n (tick e w) = room n w"
    and "belowBatch b" "room (length es + n) w"
    and "\<And>t rs. rs \<noteq> [] \<Longrightarrow> set rs \<subseteq> set (sbSpans b @ List.map_filter rec es) \<Longrightarrow> int (length rs) \<le> sbBatchSize b \<Longrightarrow> fits (doc t rs)"
  shows "reached kept (\<lambda>t rs. entry (doc t rs)) (b, w) (List.map_filter rec es)
      (fold (bufferStep (\<lambda>rs w. put (doc (clock w) rs) w) rec tick) es (b, w))
    \<and> room n (snd (fold (bufferStep (\<lambda>rs w. put (doc (clock w) rs) w) rec tick) es (b, w)))"
  using assms(3-)
proof (induction es arbitrary: b w)
  case Nil
  then show ?case by (auto intro!: reachedI [where ws = "[]" and lost = "[]"] simp: map_filter_simps)
next
  case (Cons e es)
  let ?wr = "\<lambda>rs w. put (doc (clock w) rs) w"
  let ?rs = "case rec e of None \<Rightarrow> [] | Some r \<Rightarrow> [r]"
  have split: "List.map_filter rec (e # es) = ?rs @ List.map_filter rec es" by (simp add: map_filter_simps split: option.split)
  obtain b1 w1 where e: "bufferStep ?wr rec tick e (b, w) = (b1, w1)" by force
  have room: "room (Suc (length es + n)) w" using Cons.prems(2) by simp
  have s1: "reached kept (\<lambda>t rs. entry (doc t rs)) (b, w) ?rs (b1, w1) \<and> room (length es + n) w1"
  proof (cases "rec e")
    case None
    then show ?thesis using e quiet Cons.prems(1) room_less [OF room]
      by (auto simp: bufferStep_def intro!: reachedI [where ws = "[]" and lost = "[]"])
  next
    case (Some r)
    have "fits (doc t rs)" if "rs \<noteq> []" "set rs \<subseteq> set (sbSpans b @ [r])" "int (length rs) \<le> sbBatchSize b" for t rs
      using that Some unfolding split by (intro Cons.prems(3)) auto
    note fit = this
    have "reached kept (\<lambda>t rs. entry (doc t rs)) (b, tick e w) [r] (enqueueSpan ?wr r b (tick e w))
        \<and> room (length es + n) (snd (enqueueSpan ?wr r b (tick e w)))"
      using quiet(2) room by (intro enqueue_kept [OF Cons.prems(1)] fit) simp_all
    then show ?thesis using Some e by (simp add: bufferStep_def reached_def quiet)
  qed
  have b1: "belowBatch b1" "sbBatchSize b1 = sbBatchSize b" and "set (sbSpans b1) \<subseteq> set (sbSpans b @ ?rs)"
    using reached_buffer [OF conjunct1 [OF s1]] by simp_all
  then have "rs \<noteq> [] \<Longrightarrow> set rs \<subseteq> set (sbSpans b1 @ List.map_filter rec es) \<Longrightarrow> int (length rs) \<le> sbBatchSize b1 \<Longrightarrow> fits (doc t rs)" for t rs
    using b1(2) by (intro Cons.prems(3)) (cases "rec e"; auto simp: map_filter_simps)+
  then have s2: "reached kept (\<lambda>t rs. entry (doc t rs)) (b1, w1) (List.map_filter rec es) (fold (bufferStep ?wr rec tick) es (b1, w1))"
    "room n (snd (fold (bufferStep ?wr rec tick) es (b1, w1)))"
    using Cons.IH [OF b1(1) conjunct2 [OF s1]] by blast+
  show ?case using reached_trans [OF conjunct1 [OF s1] s2(1)] s2(2) by (simp only: e split fold_simps simp_thms)
qed

text \<open>The flush of what is left.\<close>

lemma flush_kept:
  assumes "belowBatch b" "room (Suc n) w"
    and fit: "\<And>t. sbSpans b \<noteq> [] \<Longrightarrow> fits (doc t (sbSpans b))"
  shows "case flushSpanBatch (\<lambda>rs w. put (doc (clock w) rs) w) True b w of (ok, s) \<Rightarrow>
    ok \<and> sbSpans (fst s) = [] \<and> reached kept (\<lambda>t rs. entry (doc t rs)) (b, w) [] s \<and> room n (snd s)"
proof (cases "sbSpans b = []")
  case True
  then have "flushSpanBatch (\<lambda>rs w. put (doc (clock w) rs) w) True b w = (True, b, w)"
    by (subst flush_step) (simp add: sbTake_def)
  then show ?thesis using True assms(1) room_less [OF assms(2)]
    by (auto intro!: reachedI [where ws = "[]" and lost = "[]"])
next
  case False
  let ?d = "doc (clock w) (sbSpans b)"
  from accepts [OF assms(2) fit [OF False]] obtain lost where p: "fst (put ?d w)" "room n (snd (put ?d w))"
    "kept w @ [entry ?d] = lost @ kept (snd (put ?d w))" by blast
  have inv: "sbInv b" "belowBatch (b\<lparr>sbSpans := []\<rparr>)" using assms(1) by (simp_all add: belowBatch_def sbInv_def)
  show ?thesis
    using p flush_all_ok [OF inv(1) False, of "\<lambda>rs w. put (doc (clock w) rs) w" w] inv(2)
    by (auto intro!: reachedI [where ws = "[(clock w, sbSpans b)]" and lost = lost])
qed

end

text \<open>Profile samples go to a sink of profile batches in chunks.\<close>

locale profile_sink = batch_sink put kept room entry fits
  for put :: "profileBatch \<Rightarrow> 'w \<Rightarrow> bool \<times> 'w" and kept :: "'w \<Rightarrow> frame list" and room :: "nat \<Rightarrow> 'w \<Rightarrow> bool"
    and entry :: "profileBatch \<Rightarrow> frame" and fits :: "profileBatch \<Rightarrow> bool"
begin

lemma chunks_kept:
  assumes "0 < limit" "room (length samples - start + n) w"
    and fit: "\<And>t i chunk. set chunk \<subseteq> set samples \<Longrightarrow> length chunk \<le> limit \<Longrightarrow> fits (mkProfileBatch c t sid i chunk)"
  shows "\<exists>bs lost. fst (writeChunks put clock c sid limit samples start w)
    \<and> kept w @ map entry bs = lost @ kept (snd (writeChunks put clock c sid limit samples start w))
    \<and> concat (map pbSamples bs) = drop start samples \<and> list_all (\<lambda>b. pbSamples b \<noteq> []) bs
    \<and> room n (snd (writeChunks put clock c sid limit samples start w))"
    (is "\<exists>bs lost. ?P start w bs lost")
  using assms(2)
proof (induction "length samples - start" arbitrary: start w rule: less_induct)
  case less
  note unfold = writeChunks.simps [of put clock c sid limit samples start w]
  show ?case
  proof (cases "start \<ge> length samples")
    case True
    then have "?P start w [] []" using less.prems by (simp add: unfold)
    then show ?thesis by blast
  next
    case False
    let ?b = "mkProfileBatch c (clock w) sid start (take limit (drop start samples))"
    have "set (take limit (drop start samples)) \<subseteq> set samples" by (meson order_trans set_drop_subset set_take_subset)
    then have "fits ?b" by (intro fit) simp_all
    moreover have "length samples - start + n = Suc (length samples - Suc start + n)" using False by simp
    then have "room (Suc (length samples - Suc start + n)) w" using less.prems by simp
    ultimately obtain lost where p: "fst (put ?b w)" "room (length samples - Suc start + n) (snd (put ?b w))"
      "kept w @ [entry ?b] = lost @ kept (snd (put ?b w))"
      using accepts by blast
    have "room (length samples - (start + limit) + n) (snd (put ?b w))"
      by (rule room_mono [OF p(2)]) (use assms(1) in simp)
    moreover have "length samples - (start + limit) < length samples - start" using False assms(1) by linarith
    ultimately obtain bs lost2 where IH: "?P (start + limit) (snd (put ?b w)) bs lost2"
      using less.hyps by blast
    have step: "writeChunks put clock c sid limit samples start w
        = writeChunks put clock c sid limit samples (start + limit) (snd (put ?b w))"
      using False assms(1) p(1) by (cases "put ?b w") (simp add: unfold)
    have "kept w @ map entry (?b # bs) = (lost @ lost2) @ kept (snd (writeChunks put clock c sid limit samples start w))"
      using IH p(3) unfolding step by (metis append.assoc append_Cons append_Nil list.simps(9))
    moreover have "concat (map pbSamples (?b # bs)) = drop start samples"
      using IH by (simp add: mkProfileBatch_def) (metis append_take_drop_id drop_drop add.commute)
    moreover have "list_all (\<lambda>b. pbSamples b \<noteq> []) (?b # bs)" using False assms(1) IH by (simp add: mkProfileBatch_def)
    ultimately have "?P start w (?b # bs) (lost @ lost2)" using IH unfolding step by blast
    then show ?thesis by blast
  qed
qed

end

lemma writeProfileSamples_chunks:
  "writeProfileSamples wj clock c seriesID samples w = writeChunks wj clock c seriesID (profileLimit c) samples 0 w"
  by (cases "samples = []") (simp_all add: writeProfileSamples_def writeChunks.simps [where samples = "[]"])

subsection \<open>The spool is such a sink\<close>

definition docFrame :: "string \<Rightarrow> ('d \<Rightarrow> bytes) \<Rightarrow> 'd \<Rightarrow> frame" where
  "docFrame signal marshal d = \<lparr>frSignal = signal, frEncoding = ''json'', frID = contentID (marshal d), frPayload = marshal d\<rparr>"

definition spoolFrames :: "spoolWorld \<Rightarrow> frame list" where
  "spoolFrames w = fst (readLog (\<lambda>_. False) (spDir (swSpool w)))"

text \<open>A well-formed directory without faults whose generations leave room for \<open>n\<close> more.\<close>

definition generationRoom :: "nat \<Rightarrow> segLog \<Rightarrow> bool" where
  "generationRoom n L \<longleftrightarrow> n < 18446744073709551616 \<and> (\<forall>(g, fs) \<in> set L. g + n < 18446744073709551616)"

definition spoolRoom :: "osFaults \<Rightarrow> string \<Rightarrow> nat \<Rightarrow> spoolWorld \<Rightarrow> bool" where
  "spoolRoom os dirName n w \<longleftrightarrow> noFaults os \<and> dirName \<noteq> []
     \<and> (\<exists>L. represents (spDir (swSpool w)) L \<and> generationRoom n L)"

lemma generationRoom_mono: "generationRoom n L \<Longrightarrow> m \<le> n \<Longrightarrow> generationRoom m L"
  unfolding generationRoom_def by fastforce

lemma generationRoom_append:
  assumes "generationRoom (Suc n) L"
  shows "generationRoom n (absAppend f L)"
proof -
  obtain b where b: "b + Suc n = 18446744073709551615"
    using assms le_Suc_ex [of "Suc n" 18446744073709551615] unfolding generationRoom_def by (auto simp: add.commute)
  have "\<forall>(g, fs) \<in> set L. g \<le> b" using assms b unfolding generationRoom_def by fastforce
  then have "\<forall>(g, fs) \<in> set (absAppend f L). g \<le> Suc b" using absAppend_generations [of L b f] by simp
  then show ?thesis using b unfolding generationRoom_def by fastforce
qed

lemma spoolRoom_readable: "spoolRoom os dirName n w \<Longrightarrow> snd (readLog (\<lambda>_. False) (spDir (swSpool w))) = None"
  using readLog_represents by (auto simp: spoolRoom_def)

lemma spoolRoom_less: "spoolRoom os dirName (Suc n) w \<Longrightarrow> spoolRoom os dirName n w"
  unfolding spoolRoom_def using generationRoom_mono by (meson le_SucI order_refl)

lemma spool_accepts:
  assumes "spoolRoom os dirName (Suc n) w" "frameOk (docFrame signal marshal d)"
  shows "fst (spoolWriteDoc os dirName signal marshal d w) \<and> spoolRoom os dirName n (snd (spoolWriteDoc os dirName signal marshal d w))
    \<and> (\<exists>lost. spoolFrames w @ [docFrame signal marshal d] = lost @ spoolFrames (snd (spoolWriteDoc os dirName signal marshal d w)))"
proof -
  let ?f = "docFrame signal marshal d"
  obtain L where L: "noFaults os" "dirName \<noteq> []" "represents (spDir (swSpool w)) L" "generationRoom (Suc n) L"
    using assms(1) by (auto simp: spoolRoom_def)
  then have g: "\<forall>(g, fs) \<in> set L. g + 1 < 18446744073709551616" unfolding generationRoom_def by fastforce
  obtain s' p where s': "writeJSON 1 os (swSpool w) dirName signal (Some (marshal d)) = Some (Inr p, s')"
    "represents (spDir s') (absAppend ?f L)"
    using writeJSON_represents [OF L(3,1,2) docFrame_def assms(2) g] .
  have put: "spoolWriteDoc os dirName signal marshal d w = (True, w\<lparr>swSpool := s'\<rparr>)"
    using s'(1) by (simp add: spoolWriteDoc_def)
  have "spoolFrames w = logFrames L" "spoolFrames (w\<lparr>swSpool := s'\<rparr>) = logFrames (absAppend ?f L)"
    using readLog_represents [OF L(3)] readLog_represents [OF s'(2)] by (simp_all add: spoolFrames_def)
  then show ?thesis
    using put s'(2) L(1,2) generationRoom_append [OF L(4)] absAppend_suffix [of L ?f] by (auto simp: spoolRoom_def)
qed

interpretation spoolSpans: batch_sink "spoolWriteBatch os dirName" spoolFrames "spoolRoom os dirName"
  "docFrame ''trace'' marshalSpanBatch" "\<lambda>d. frameOk (docFrame ''trace'' marshalSpanBatch d)"
  by unfold_locales (simp_all add: spoolWriteBatch_def spool_accepts spoolRoom_less)

interpretation spoolProfiles: profile_sink "spoolWriteDoc os dirName ''profile'' marshalProfileBatch" spoolFrames
  "spoolRoom os dirName" "docFrame ''profile'' marshalProfileBatch" "\<lambda>d. frameOk (docFrame ''profile'' marshalProfileBatch d)"
  by unfold_locales (simp_all add: spool_accepts spoolRoom_less)

subsection \<open>What a client ends is on disk\<close>

lemma batchFrame_doc: "batchFrame cl t rs = docFrame ''trace'' marshalSpanBatch (mkSpanBatch (clCfg cl) t rs)"
  by (simp add: batchFrame_def docFrame_def batchBody_def)

text \<open>
  Spans ended one after the other, each at its time: the folded \<open>End\<close> of the client's spans on the
  client's buffer and spool.
\<close>

definition endAt :: "unicodeTables \<Rightarrow> attrs \<Rightarrow> osFaults \<Rightarrow> client \<Rightarrow> int \<times> span \<Rightarrow> spanRecord spanBuffer \<times> spoolWorld
    \<Rightarrow> spanRecord spanBuffer \<times> spoolWorld" where
  "endAt U resource os cl e s =
     snd (endSpan U resource (spoolWriteBatch os (clDir cl)) swNow (snd e) (fst s) (snd s\<lparr>swNow := fst e\<rparr>))"

definition endedRecords :: "unicodeTables \<Rightarrow> attrs \<Rightarrow> (int \<times> span) list \<Rightarrow> spanRecord list" where
  "endedRecords U resource = List.map_filter (\<lambda>(t, s). fst (finish U resource t s))"

lemma endAt_step:
  assumes "spClient s" "spCfg s = clCfg cl"
  shows "endAt U resource os cl (t, s) = bufferStep (writeBatch (spoolWriteBatch os (clDir cl)) swNow (clCfg cl))
      (\<lambda>(t, s). fst (finish U resource t s)) (\<lambda>e w. w\<lparr>swNow := fst e\<rparr>) (t, s)"
  using assms
  by (auto simp: fun_eq_iff endAt_def endSpan_def bufferStep_def split: prod.splits option.splits)

lemma endAt_fold:
  assumes "list_all (\<lambda>(t, s). spClient s \<and> spCfg s = clCfg cl) es"
  shows "fold (endAt U resource os cl) es = fold (bufferStep (writeBatch (spoolWriteBatch os (clDir cl)) swNow (clCfg cl))
      (\<lambda>(t, s). fst (finish U resource t s)) (\<lambda>e w. w\<lparr>swNow := fst e\<rparr>)) es"
proof (rule ext, rule fold_cong)
  show "endAt U resource os cl e = bufferStep (writeBatch (spoolWriteBatch os (clDir cl)) swNow (clCfg cl))
      (\<lambda>(t, s). fst (finish U resource t s)) (\<lambda>e w. w\<lparr>swNow := fst e\<rparr>) e" if "e \<in> set es" for e
    using assms that by (cases e) (auto simp: list_all_iff intro: endAt_step)
qed simp_all

lemma spoolRoom_now [simp]: "spoolRoom os dirName n (w\<lparr>swNow := t\<rparr>) = spoolRoom os dirName n w"
  by (simp add: spoolRoom_def)

lemma spoolFrames_now [simp]: "spoolFrames (w\<lparr>swNow := t\<rparr>) = spoolFrames w"
  by (simp add: spoolFrames_def)

lemma belowBatch_new: "belowBatch (newSpanBuffer bs mx)"
  using sbInv_new [of bs mx] by (simp add: belowBatch_def) (simp add: sbInv_def newSpanBuffer_def Let_def)

text \<open>
  C4: everything a client ends is on disk.  Let spans of a client end one after the other, at any
  times, into its empty buffer over a spool with room, and let the buffer then be flushed.  The
  flush succeeds and leaves the buffer empty with no span dropped, and a reader of the directory
  finds, after the end of what was there before and short only of what the segment rotation has taken
  from the front, one trace document per batch, in which every span that was
  recorded is found once, in the order in which it ended; each document parses to the batch.
\<close>

theorem ended_spans_on_disk:
  assumes "spoolRoom os (clDir cl) (Suc (length es)) w"
    and "list_all (\<lambda>(t, s). spClient s \<and> spCfg s = clCfg cl) es"
    and fits: "\<And>t rs. rs \<noteq> [] \<Longrightarrow> set rs \<subseteq> set (endedRecords U resource es)
      \<Longrightarrow> int (length rs) \<le> sbBatchSize (newSpanBuffer bs mx :: spanRecord spanBuffer) \<Longrightarrow> length (batchBody cl t rs) \<le> maxFramePayload"
  shows "case fold (endAt U resource os cl) es (newSpanBuffer bs mx, w) of (b1, w1) \<Rightarrow>
    case flushClient os cl True b1 w1 of (ok, b2, w2) \<Rightarrow>
      ok \<and> sbSpans b2 = [] \<and> sbDropped b2 = 0 \<and> readLog (\<lambda>_. False) (spDir (swSpool w2)) = (spoolFrames w2, None)
      \<and> (\<exists>ws lost. spoolFrames w @ map (\<lambda>(t, rs). batchFrame cl t rs) ws = lost @ spoolFrames w2
          \<and> concat (map snd ws) = endedRecords U resource es
          \<and> list_all (\<lambda>(t, rs). jParse (frPayload (batchFrame cl t rs)) = Some (spanBatchTree (mkSpanBatch (clCfg cl) t rs))) ws)"
proof -
  let ?b = "newSpanBuffer bs mx :: spanRecord spanBuffer"
  let ?frame = "\<lambda>t rs. docFrame ''trace'' marshalSpanBatch (mkSpanBatch (clCfg cl) t rs)"
  let ?wr = "\<lambda>rs w. spoolWriteBatch os (clDir cl) (mkSpanBatch (clCfg cl) (swNow w) rs) w"
  let ?rec = "\<lambda>(t, s). fst (finish U resource t s)" and ?tick = "\<lambda>e w. w\<lparr>swNow := fst e\<rparr>"
  have wr: "writeBatch (spoolWriteBatch os (clDir cl)) swNow (clCfg cl) = ?wr" by (simp add: fun_eq_iff writeBatch_def)
  have new: "sbSpans ?b = []" "sbDropped ?b = 0" by (simp_all add: newSpanBuffer_def Let_def)
  have frame: "frameOk (?frame t rs)" if "rs \<noteq> []" "set rs \<subseteq> set (endedRecords U resource es)" "int (length rs) \<le> sbBatchSize ?b" for t rs
    using frameOk_doc [of "''trace''" "batchBody cl t rs"] fits [OF that] by (simp add: docFrame_def batchBody_def)
  obtain b1 w1 where 1: "fold (endAt U resource os cl) es (?b, w) = (b1, w1)" by force
  have run: "reached spoolFrames ?frame (?b, w) (endedRecords U resource es) (b1, w1)" "spoolRoom os (clDir cl) (Suc 0) w1"
  proof -
    have "reached spoolFrames ?frame (?b, w) (List.map_filter ?rec es) (fold (bufferStep ?wr ?rec ?tick) es (?b, w))
        \<and> spoolRoom os (clDir cl) (Suc 0) (snd (fold (bufferStep ?wr ?rec ?tick) es (?b, w)))"
      using assms(1) new by (intro spoolSpans.steps_kept belowBatch_new frame) (simp_all add: endedRecords_def)
    then show "reached spoolFrames ?frame (?b, w) (endedRecords U resource es) (b1, w1)" "spoolRoom os (clDir cl) (Suc 0) w1"
      using 1 endAt_fold [OF assms(2), of U resource os] by (simp_all add: wr endedRecords_def)
  qed
  have b1: "belowBatch b1" "set (sbSpans b1) \<subseteq> set (endedRecords U resource es)" "sbBatchSize b1 = sbBatchSize ?b" "sbDropped b1 = 0"
    using reached_buffer [OF run(1)] new by simp_all
  obtain ok b2 w2 where 2: "flushClient os cl True b1 w1 = (ok, b2, w2)" by (metis prod_cases3)
  have "sbSpans b1 \<noteq> [] \<Longrightarrow> frameOk (?frame t (sbSpans b1))" for t
    using b1(1,3) by (intro frame b1(2)) (simp_all add: belowBatch_def)
  then have flush: "ok" "sbSpans b2 = []" "reached spoolFrames ?frame (b1, w1) [] (b2, w2)" "spoolRoom os (clDir cl) 0 w2"
    using spoolSpans.flush_kept [where os = os and dirName = "clDir cl" and b = b1 and w = w1 and n = 0
        and doc = "mkSpanBatch (clCfg cl)" and clock = swNow] b1(1) run(2) 2
    by (simp_all add: flushClient_def wr)
  obtain ws :: "(int \<times> spanRecord list) list" and lost where ws: "spoolFrames w @ map (\<lambda>(t, rs). ?frame t rs) ws = lost @ spoolFrames w2"
    "concat (map snd ws) @ sbSpans b2 = sbSpans ?b @ endedRecords U resource es"
    using reached_trans [OF run(1) flush(3)] unfolding reached_def by auto
  have "list_all (\<lambda>(t, rs). jParse (frPayload (batchFrame cl t rs)) = Some (spanBatchTree (mkSpanBatch (clCfg cl) t rs))) ws"
    by (simp add: list_all_iff batchFrame_def batchBody_def spanBatchDoc.reads_back)
  moreover have "readLog (\<lambda>_. False) (spDir (swSpool w2)) = (spoolFrames w2, None)"
    using spoolRoom_readable [OF flush(4)] by (simp add: spoolFrames_def prod_eq_iff)
  moreover have "sbDropped b2 = 0" using reached_buffer [OF flush(3)] b1(4) by simp
  ultimately show ?thesis using 1 2 flush(1,2) ws new by (auto simp: batchFrame_doc)
qed

definition twoSpans :: "(int \<times> span) list" where
  "twoSpans = (let now = 1700000000123456789;
       s = sampleSpan\<lparr>spCfg := liveConfig, spClient := True, spStartedAt := now, spAttributes := []\<rparr>
     in [(now, s\<lparr>spName := ''first''\<rparr>), (now, s)])"

lemma processing_length [simp]: "length (marshalProcessing (processing (liveConfig\<lparr>cfgProfileBatchSize := n\<rparr>) seed)) = 157"
  "length (marshalProcessing (processing liveConfig seed)) = 157"
  by (simp_all add: marshalProcessing_def processing_def Let_def jsonObject_def jsonMember_def omitEmpty_def
      liveConfig_def zeroConfig_def jsonString_plain deterministicID_plain plainJson_def)

lemma oneSpan_length: "length (batchBody liveClient t [r]) = length (marshalSpan r) + 240"
  by (simp add: batchBody_def marshalSpanBatch_def mkSpanBatch_def liveClient_def jsonObject_def jsonMember_def jsonArray_def
      jsonString_plain plainJson_def itoa_def digits10_one)

lemma twoSpans_records: "list_all (\<lambda>r. length (marshalSpan r) \<le> 1000) (endedRecords asciiTables [] twoSpans)"
  by (simp add: endedRecords_def twoSpans_def Let_def map_filter_simps finish_def sampleSpan_def liveConfig_def zeroSpan_def
      zeroConfig_def withResourceAttributes_def marshalSpan_def marshalOrganisation_def organisationRef_def
      marshalApplication_def appRef_def format_example jsonObject_def jsonMember_def omitEmpty_def jsonString_plain
      plainJson_def w3cTrace_def w3cSpan_def mergeInto_def jsonMap_def)

theorem ended_spans_on_disk_witness:
  "case fold (endAt asciiTables [] goodOs liveClient) twoSpans (newSpanBuffer 1 4, \<lparr>swSpool = emptySpool, swNow = 7\<rparr>) of (b1, w1) \<Rightarrow>
    case flushClient goodOs liveClient True b1 w1 of (ok, b2, w2) \<Rightarrow>
      ok \<and> sbSpans b2 = [] \<and> sbDropped b2 = 0 \<and> readLog (\<lambda>_. False) (spDir (swSpool w2)) = (spoolFrames w2, None)
      \<and> (\<exists>ws lost. spoolFrames \<lparr>swSpool = emptySpool, swNow = 7\<rparr> @ map (\<lambda>(t, rs). batchFrame liveClient t rs) ws = lost @ spoolFrames w2
          \<and> concat (map snd ws) = endedRecords asciiTables [] twoSpans
          \<and> list_all (\<lambda>(t, rs). jParse (frPayload (batchFrame liveClient t rs)) = Some (spanBatchTree (mkSpanBatch (clCfg liveClient) t rs))) ws)"
proof (rule ended_spans_on_disk)
  show "spoolRoom goodOs (clDir liveClient) (Suc (length twoSpans)) \<lparr>swSpool = emptySpool, swNow = 7\<rparr>"
    using represents_Nil goodOs_noFaults
    by (auto simp: spoolRoom_def generationRoom_def emptySpool_def liveClient_def twoSpans_def Let_def intro!: exI [of _ "[]"])
  show "list_all (\<lambda>(t, s). spClient s \<and> spCfg s = clCfg liveClient) twoSpans"
    by (simp add: twoSpans_def Let_def liveClient_def)
  fix t :: int and rs
  assume rs: "rs \<noteq> []" "set rs \<subseteq> set (endedRecords asciiTables [] twoSpans)"
    "int (length rs) \<le> sbBatchSize (newSpanBuffer 1 4 :: spanRecord spanBuffer)"
  then obtain r where "rs = [r]" by (cases rs) (auto simp: newSpanBuffer_def Let_def)
  then show "length (batchBody liveClient t rs) \<le> maxFramePayload"
    using rs(2) twoSpans_records by (auto simp: oneSpan_length list_all_iff maxFramePayload_def)
qed

text \<open>
  C23: the samples of a profile are on disk.  Over a spool with room, \<open>writeProfileSamples\<close> succeeds,
  and the profile documents a reader finds, none of them empty, hold the samples once and in order, whatever the batch
  limit cut them into, short only of what the segment rotation has taken from the front; each
  document parses to its batch.
\<close>

theorem profile_samples_on_disk:
  assumes "spoolRoom os dirName (length samples) w"
    and fits: "\<And>t i chunk. set chunk \<subseteq> set samples \<Longrightarrow> length chunk \<le> profileLimit c
      \<Longrightarrow> length (marshalProfileBatch (mkProfileBatch c t seriesID i chunk)) \<le> maxFramePayload"
  shows "case writeProfileSamples (spoolWriteDoc os dirName ''profile'' marshalProfileBatch) swNow c seriesID samples w of (ok, w') \<Rightarrow>
    ok \<and> readLog (\<lambda>_. False) (spDir (swSpool w')) = (spoolFrames w', None)
    \<and> (\<exists>bs lost. spoolFrames w @ map (docFrame ''profile'' marshalProfileBatch) bs = lost @ spoolFrames w'
        \<and> concat (map pbSamples bs) = samples \<and> list_all (\<lambda>b. pbSamples b \<noteq> []) bs
        \<and> list_all (\<lambda>b. jParse (frPayload (docFrame ''profile'' marshalProfileBatch b)) = Some (profileBatchTree b)) bs)"
proof -
  have frame: "frameOk (docFrame ''profile'' marshalProfileBatch (mkProfileBatch c t seriesID i chunk))"
    if "set chunk \<subseteq> set samples" "length chunk \<le> profileLimit c" for t i chunk
    using frameOk_doc [of "''profile''" "marshalProfileBatch (mkProfileBatch c t seriesID i chunk)"] fits [OF that]
    by (simp add: docFrame_def)
  have parse: "list_all (\<lambda>b. jParse (frPayload (docFrame ''profile'' marshalProfileBatch b)) = Some (profileBatchTree b)) bs" for bs
    by (simp add: list_all_iff docFrame_def profileBatchDoc.reads_back)
  obtain ok w' where run: "writeChunks (spoolWriteDoc os dirName ''profile'' marshalProfileBatch) swNow c seriesID (profileLimit c) samples 0 w
      = (ok, w')" by force
  have "spoolRoom os dirName (length samples - 0 + 0) w" using assms(1) by simp
  from spoolProfiles.chunks_kept [OF profileLimit_pos [of c] this frame, of swNow] run
  obtain bs lost where "ok" "spoolFrames w @ map (docFrame ''profile'' marshalProfileBatch) bs = lost @ spoolFrames w'"
    "concat (map pbSamples bs) = samples" "list_all (\<lambda>b. pbSamples b \<noteq> []) bs" "spoolRoom os dirName 0 w'" by auto
  moreover from this(5) have "readLog (\<lambda>_. False) (spDir (swSpool w')) = (spoolFrames w', None)"
    using spoolRoom_readable by (simp add: spoolFrames_def prod_eq_iff)
  ultimately show ?thesis using parse unfolding writeProfileSamples_chunks run by auto
qed

definition oneSampleConfig :: config where
  "oneSampleConfig = liveConfig\<lparr>cfgProfileBatchSize := 1\<rparr>"

definition twoSamples :: "profileSample list" where
  "twoSamples = (let s = \<lambda>i. \<lparr>psOrganisation = ''org'', psApplication = \<lparr>arApplicationID = ''app'', arProject = None\<rparr>,
     psSeriesID = ''series'', psSequence = i, psSampledAt = [], psSampleType = ''cpu'', psPeriod = ''10'', psValue = ''20'',
     psUnit = ''nanoseconds'', psStack = [], psCorrelation = None, psLabels = []\<rparr> in [s ''0'', s ''1''])"

lemma oneProfile_length:
  assumes "set chunk \<subseteq> set twoSamples" "length chunk \<le> profileLimit oneSampleConfig"
  shows "length (marshalProfileBatch (mkProfileBatch oneSampleConfig t seriesID i chunk)) \<le> maxFramePayload"
proof -
  have "length chunk \<le> 1" using assms(2) by (simp add: profileLimit_def oneSampleConfig_def)
  then consider "chunk = []" | s where "chunk = [s]" "s \<in> set twoSamples"
    using assms(1) by (cases chunk) auto
  then show ?thesis
    by cases (auto simp: marshalProfileBatch_def mkProfileBatch_def oneSampleConfig_def twoSamples_def Let_def jsonObject_def
        jsonMember_def jsonArray_def marshalSample_def marshalOrganisation_def marshalApplication_def jsonString_plain
        plainJson_def itoa_def digits10_one digits10.simps [of 0] maxFramePayload_def charOf_eq)
qed

theorem profile_samples_on_disk_witness:
  "case writeProfileSamples (spoolWriteDoc goodOs ''spool'' ''profile'' marshalProfileBatch) swNow oneSampleConfig ''series'' twoSamples
      \<lparr>swSpool = emptySpool, swNow = 7\<rparr> of (ok, w') \<Rightarrow>
    ok \<and> readLog (\<lambda>_. False) (spDir (swSpool w')) = (spoolFrames w', None)
    \<and> (\<exists>bs lost. spoolFrames \<lparr>swSpool = emptySpool, swNow = 7\<rparr> @ map (docFrame ''profile'' marshalProfileBatch) bs = lost @ spoolFrames w'
        \<and> concat (map pbSamples bs) = twoSamples \<and> list_all (\<lambda>b. pbSamples b \<noteq> []) bs
        \<and> list_all (\<lambda>b. jParse (frPayload (docFrame ''profile'' marshalProfileBatch b)) = Some (profileBatchTree b)) bs)"
proof (rule profile_samples_on_disk)
  show "spoolRoom goodOs ''spool'' (length twoSamples) \<lparr>swSpool = emptySpool, swNow = 7\<rparr>"
    using represents_Nil goodOs_noFaults
    by (auto simp: spoolRoom_def generationRoom_def emptySpool_def twoSamples_def Let_def intro!: exI [of _ "[]"])
qed (rule oneProfile_length)

end
