(* ===== verification/ShutdownFlow.thy ===== *)
theory ShutdownFlow
  imports ClientRuns SpoolFlow
begin

text \<open>
  Shutdown, down to the disk: \<open>Client.Shutdown\<close> over the spool directory.  The contract of the
  sinks in \<open>SpoolFlow\<close> is lifted to the three flushes of a client, which are then composed in the
  order in which \<open>Shutdown\<close> runs them.
\<close>

subsection \<open>Writes on the spool\<close>

text \<open>Documents appended to what is kept, short of what is lost from the front.\<close>

definition appended :: "frame list \<Rightarrow> spoolWorld \<Rightarrow> spoolWorld \<Rightarrow> bool" where
  "appended fs w w' \<longleftrightarrow> (\<exists>lost. spoolFrames w @ fs = lost @ spoolFrames w')"

lemma appended_Nil [simp]: "appended [] w w"
  by (simp add: appended_def)


abbreviation traceFrame :: "config \<Rightarrow> int \<Rightarrow> spanRecord list \<Rightarrow> frame" where
  "traceFrame c t rs \<equiv> docFrame ''trace'' marshalSpanBatch (mkSpanBatch c t rs)"

abbreviation profileFrameOf :: "profileBatch \<Rightarrow> frame" where
  "profileFrameOf \<equiv> docFrame ''profile'' marshalProfileBatch"

text \<open>The frames of spans flushed together, and of samples, in whatever batches they were written.\<close>

definition holdsSpans :: "config \<Rightarrow> spanRecord list \<Rightarrow> frame list \<Rightarrow> bool" where
  "holdsSpans c rs fs \<longleftrightarrow> (if rs = [] then fs = [] else \<exists>t. fs = [traceFrame c t rs])"

definition holdsSamples :: "profileSample list \<Rightarrow> frame list \<Rightarrow> bool" where
  "holdsSamples ss fs \<longleftrightarrow> (\<exists>bs. fs = map profileFrameOf bs \<and> concat (map pbSamples bs) = ss \<and> list_all (\<lambda>b. pbSamples b \<noteq> []) bs)"

lemma holdsSpans_Nil [simp]: "holdsSpans c [] fs \<longleftrightarrow> fs = []"
  by (simp add: holdsSpans_def)

lemma holdsSamples_Nil [simp]: "holdsSamples [] fs \<longleftrightarrow> fs = []"
  by (auto simp: holdsSamples_def list_all_iff)









subsection \<open>The flushes of a client\<close>

text \<open>The environment of a client whose sinks are the spool directory.\<close>

definition spoolEnv :: "osFaults \<Rightarrow> string \<Rightarrow> string \<Rightarrow> (u64 list \<Rightarrow> profileFrame list) \<Rightarrow> (nat \<Rightarrow> int) \<Rightarrow> spoolWorld sdkEnv" where
  "spoolEnv os dirName goVersion symbolize bucketTimes =
     \<lparr>seTrace = spoolWriteBatch os dirName, seProfile = spoolWriteDoc os dirName ''profile'' marshalProfileBatch, seClock = swNow,
      seGoVersion = goVersion, seSymbolize = symbolize, seBucketTimes = bucketTimes\<rparr>"

lemma spoolEnv_simps [simp]:
  "seTrace (spoolEnv os dirName g symf ts) = spoolWriteBatch os dirName"
  "seProfile (spoolEnv os dirName g symf ts) = spoolWriteDoc os dirName ''profile'' marshalProfileBatch"
  "seClock (spoolEnv os dirName g symf ts) = swNow"
  by (simp_all add: spoolEnv_def)






lemma wsBank_ticks [simp]: "wsTicks (wsBank h pcs s) = wsTicks s"
  by (simp add: wsBank_def Let_def split: option.split)

lemma wsBanks_ticks [simp]: "wsTicks (fold (wsBank h) stacks s) = wsTicks s"
  by (induction stacks arbitrary: s) simp_all






lemma wallSamples_Nil [simp]: "wallSamplesFrom c g symf ts [] interval = ([], [])"
  by (simp add: wallSamplesFrom_def renumber_def)










subsection \<open>Shutdown\<close>













end
