(* ===== verification/SqlDsn.thy ===== *)
theory SqlDsn
  imports Json "HOL-Library.Multiset"
begin

text \<open>
  \<open>sql_dsn.go\<close>: the connection identity read out of a driver's DSN.  \<open>url.Parse\<close> is the
  argument \<open>parseUrl\<close>, of which the code uses the five accessors of \<open>parsedUrl\<close>; the order in which
  Go ranges over the keyword map is the order of the list.
\<close>

record connTarget =
  ctHost :: string
  ctPort :: string
  ctName :: string
  ctUser :: string
  ctDriver :: string

definition noTarget :: connTarget where
  "noTarget = \<lparr>ctHost = [], ctPort = [], ctName = [], ctUser = [], ctDriver = []\<rparr>"

definition targetEmpty :: "connTarget \<Rightarrow> bool" where
  "targetEmpty t \<longleftrightarrow> ctHost t = [] \<and> ctPort t = [] \<and> ctName t = [] \<and> ctUser t = []"

record parsedUrl =
  puHostname :: string
  puPort :: string
  puUser :: "string option"
  puPath :: string
  puQuery :: "string \<Rightarrow> string"

definition isURLDSN :: "string \<Rightarrow> bool" where
  "isURLDSN dsn = (case strIndex dsn ''://'' of
     None \<Rightarrow> False
   | Some i \<Rightarrow> 0 < i \<and> \<not> list_ex (\<lambda>c. c \<in> set '' ;='') (take i dsn))"

definition defaultPortFor :: "string \<Rightarrow> connTarget \<Rightarrow> connTarget" where
  "defaultPortFor port t = (if ctPort t = [] \<and> ctHost t \<noteq> [] then t\<lparr>ctPort := port\<rparr> else t)"

definition parseURLDSN :: "(string \<Rightarrow> parsedUrl option) \<Rightarrow> string \<Rightarrow> string \<Rightarrow> string \<Rightarrow> connTarget" where
  "parseURLDSN parseUrl dsn port databaseParam =
     (case parseUrl dsn of None \<Rightarrow> noTarget
      | Some u \<Rightarrow>
          (let t = defaultPortFor port (noTarget\<lparr>ctHost := puHostname u, ctPort := puPort u\<rparr>);
               t1 = (case puUser u of None \<Rightarrow> t | Some name \<Rightarrow> t\<lparr>ctUser := name\<rparr>);
               t2 = t1\<lparr>ctName := trimPrefix (puPath u) ''/''\<rparr>
           in if databaseParam \<noteq> [] \<and> puQuery u databaseParam \<noteq> []
              then t2\<lparr>ctName := puQuery u databaseParam\<rparr> else t2))"

subsection \<open>Keyword lists\<close>

text \<open>
  \<open>splitUnquoted\<close> ranges over runes, so a byte that is not UTF-8 is written back as U+FFFD.
\<close>

definition nextRune :: "string \<Rightarrow> string \<times> string" where
  "nextRune s = (case runeLen s of None \<Rightarrow> (runeError, tl s) | Some k \<Rightarrow> (take k s, drop k s))"

lemma nextRune_shorter: "s \<noteq> [] \<Longrightarrow> length (snd (nextRune s)) < length s"
  by (auto simp: nextRune_def split: option.splits dest: runeLen_bounds)

function splitUnquoted :: "char \<Rightarrow> string \<Rightarrow> char option \<Rightarrow> string \<Rightarrow> string list" where
  "splitUnquoted sep s quote current =
     (if s = [] then [current]
      else let r = fst (nextRune s); rest = snd (nextRune s) in
        case quote of
          Some q \<Rightarrow> splitUnquoted sep rest (if r = [q] then None else quote) (current @ r)
        | None \<Rightarrow>
            if r = [CHR 0x27] \<or> r = [CHR 0x22] then splitUnquoted sep rest (Some (hd r)) (current @ r)
            else if r = [sep] then current # splitUnquoted sep rest None []
            else splitUnquoted sep rest None (current @ r))"
  by pat_completeness auto
termination
  by (relation "measure (\<lambda>(sep, s, quote, current). length s)") (simp_all add: nextRune_shorter)

declare splitUnquoted.simps [simp del]

definition isQuote :: "char \<Rightarrow> bool" where
  "isQuote c \<longleftrightarrow> c = CHR 0x27 \<or> c = CHR 0x22"

definition trimQuotes :: "string \<Rightarrow> string" where
  "trimQuotes s = rev (dropWhile isQuote (rev (dropWhile isQuote s)))"

definition keywordPair :: "unicodeTables \<Rightarrow> string \<Rightarrow> (string \<times> string) option" where
  "keywordPair U field = (case indexByte field (CHR ''='') of
     None \<Rightarrow> None
   | Some i \<Rightarrow>
       if i = 0 then None
       else (let key = toLower U (trimSpace (take i field));
                 v = trimQuotes (trimSpace (drop (Suc i) field))
             in if key = [] \<or> v = [] then None else Some (key, v)))"

fun collectPairs :: "unicodeTables \<Rightarrow> string list \<Rightarrow> attrs \<Rightarrow> attrs" where
  "collectPairs U [] pairs = pairs"
| "collectPairs U (field # later) pairs =
     (case keywordPair U field of
        None \<Rightarrow> collectPairs U later pairs
      | Some (k, v) \<Rightarrow>
          collectPairs U later (if map_of pairs k = None then AList.update k v pairs else pairs))"

definition keywordPairs :: "unicodeTables \<Rightarrow> string \<Rightarrow> char \<Rightarrow> attrs" where
  "keywordPairs U dsn sep = collectPairs U (splitUnquoted sep dsn None []) []"

definition keywordField :: "string \<times> string \<Rightarrow> connTarget \<Rightarrow> connTarget" where
  "keywordField kv t =
     (if fst kv \<in> {''host'', ''hostaddr''} then (if ctHost t = [] then t\<lparr>ctHost := snd kv\<rparr> else t)
      else if fst kv = ''port'' then t\<lparr>ctPort := snd kv\<rparr>
      else if fst kv = ''user'' then t\<lparr>ctUser := snd kv\<rparr>
      else if fst kv \<in> {''dbname'', ''database''} then t\<lparr>ctName := snd kv\<rparr>
      else t)"

definition keywordTarget :: "attrs \<Rightarrow> string \<Rightarrow> connTarget" where
  "keywordTarget pairs port = defaultPortFor port (fold keywordField pairs noTarget)"

definition parseKeywordDSN :: "unicodeTables \<Rightarrow> string \<Rightarrow> string \<Rightarrow> connTarget" where
  "parseKeywordDSN U dsn port = keywordTarget (keywordPairs U dsn (CHR '' '')) port"

definition splitServerInstance :: "string \<Rightarrow> string \<times> string" where
  "splitServerInstance v = (case lastIndexByte v (CHR '','') of
     Some i \<Rightarrow> (trimSpace (take i v), trimSpace (drop (Suc i) v))
   | None \<Rightarrow> (trimSpace v, []))"

definition semicolonField :: "string \<times> string \<Rightarrow> connTarget \<Rightarrow> connTarget" where
  "semicolonField kv t =
     (if fst kv \<in> {''server'', ''address'', ''data source'', ''host''} then
        (case splitServerInstance (snd kv) of (host, instancePort) \<Rightarrow>
           (let t1 = t\<lparr>ctHost := host\<rparr> in if instancePort \<noteq> [] then t1\<lparr>ctPort := instancePort\<rparr> else t1))
      else if fst kv = ''port'' then t\<lparr>ctPort := snd kv\<rparr>
      else if fst kv \<in> {''user id'', ''uid'', ''user''} then t\<lparr>ctUser := snd kv\<rparr>
      else if fst kv \<in> {''database'', ''initial catalog''} then t\<lparr>ctName := snd kv\<rparr>
      else t)"

definition semicolonTarget :: "attrs \<Rightarrow> string \<Rightarrow> connTarget" where
  "semicolonTarget pairs port = defaultPortFor port (fold semicolonField pairs noTarget)"

definition parseSemicolonDSN :: "unicodeTables \<Rightarrow> string \<Rightarrow> string \<Rightarrow> connTarget" where
  "parseSemicolonDSN U dsn port = semicolonTarget (keywordPairs U dsn (CHR '';'')) port"

subsection \<open>MySQL and SQLite\<close>

definition splitHostPort :: "string \<Rightarrow> string \<times> string" where
  "splitHostPort address =
     (let bracket = (if hasPrefix address ''['' then indexByte address (CHR '']'') else None) in
      case bracket of
        Some end \<Rightarrow> (drop 1 (take end address), trimPrefix (drop (Suc end) address) '':'')
      | None \<Rightarrow>
          (case lastIndexByte address (CHR '':'') of
             Some i \<Rightarrow> if \<not> containsStr (drop (Suc i) address) '':'' then (take i address, drop (Suc i) address)
                       else (address, [])
           | None \<Rightarrow> (address, [])))"

definition mysqlUser :: "string \<Rightarrow> string" where
  "mysqlUser credentials = (case indexByte credentials (CHR '':'') of Some i \<Rightarrow> take i credentials | None \<Rightarrow> credentials)"

definition mysqlName :: "string \<Rightarrow> string" where
  "mysqlName after = (case indexByte after (CHR ''?'') of Some i \<Rightarrow> take i after | None \<Rightarrow> after)"

definition mysqlAddress :: "unicodeTables \<Rightarrow> string \<Rightarrow> connTarget \<Rightarrow> connTarget" where
  "mysqlAddress U before t =
     (let pa = (case indexByte before (CHR ''('') of
                  Some open \<Rightarrow> if hasSuffix before '')'' then (take open before, butlast (drop (Suc open) before))
                               else (before, [])
                | None \<Rightarrow> (before, []));
          protocol = fst pa; address = snd pa
      in if toLower U protocol = ''unix'' then t\<lparr>ctHost := address\<rparr>
         else (let hp = splitHostPort (if address = [] then ''127.0.0.1:3306'' else address)
               in t\<lparr>ctHost := fst hp, ctPort := (if snd hp = [] then ''3306'' else snd hp)\<rparr>))"

definition parseMySQLDSN :: "unicodeTables \<Rightarrow> string \<Rightarrow> connTarget" where
  "parseMySQLDSN U dsn = (case lastIndexByte dsn (CHR ''/'') of
     None \<Rightarrow> noTarget
   | Some slash \<Rightarrow>
       (let before = take slash dsn; t = noTarget\<lparr>ctName := mysqlName (drop (Suc slash) dsn)\<rparr> in
        case lastIndexByte before (CHR ''@'') of
          Some at \<Rightarrow> mysqlAddress U (drop (Suc at) before) (t\<lparr>ctUser := mysqlUser (take at before)\<rparr>)
        | None \<Rightarrow> mysqlAddress U before t))"

text \<open>\<open>path.Base\<close> of a non-empty path.\<close>

definition pathBase :: "string \<Rightarrow> string" where
  "pathBase p =
     (let q = rev (dropWhile (\<lambda>c. c = CHR ''/'') (rev p));
          b = (case lastIndexByte q (CHR ''/'') of Some i \<Rightarrow> drop (Suc i) q | None \<Rightarrow> q)
      in if p = [] then ''.'' else if b = [] then ''/'' else b)"

definition sqliteName :: "string \<Rightarrow> string" where
  "sqliteName dsn =
     (let t0 = trimPrefix dsn ''file:'';
          t = (case indexByte t0 (CHR ''?'') of Some i \<Rightarrow> take i t0 | None \<Rightarrow> t0)
      in if t = [] \<or> t = '':memory:'' then t else pathBase t)"

definition parseDSNTarget :: "unicodeTables \<Rightarrow> (string \<Rightarrow> parsedUrl option) \<Rightarrow> string \<Rightarrow> string \<Rightarrow> connTarget" where
  "parseDSNTarget U parseUrl system dsn0 =
     (let dsn = trimSpace dsn0 in
      if dsn = [] then noTarget
      else if system = ''mysql'' then parseMySQLDSN U dsn
      else if system = ''postgresql'' then
        (if isURLDSN dsn then parseURLDSN parseUrl dsn ''5432'' [] else parseKeywordDSN U dsn ''5432'')
      else if system = ''mssql'' then
        (if isURLDSN dsn then parseURLDSN parseUrl dsn ''1433'' ''database'' else parseSemicolonDSN U dsn ''1433'')
      else if system = ''sqlite'' then noTarget\<lparr>ctName := sqliteName dsn\<rparr>
      else if isURLDSN dsn then parseURLDSN parseUrl dsn [] []
      else noTarget)"

definition parseDSN :: "unicodeTables \<Rightarrow> (string \<Rightarrow> parsedUrl option) \<Rightarrow> string \<Rightarrow> string \<Rightarrow> string \<Rightarrow> connTarget" where
  "parseDSN U parseUrl system driverName dsn =
     (parseDSNTarget U parseUrl system dsn)\<lparr>ctDriver := trimSpace driverName\<rparr>"

subsection \<open>Results\<close>

lemma drop_Suc_append: "drop (Suc (length a)) (a @ c # t) = t"
  by simp

text \<open>
  A MySQL password never reaches a span.  The target read out of
  \<open>user:password@address/name\<close> is the same for every password, whatever characters it holds.
\<close>

theorem mysql_password_dropped:
  assumes "CHR '':'' \<notin> set user" "CHR ''@'' \<notin> set address" "CHR ''/'' \<notin> set name"
  shows "parseMySQLDSN U (user @ '':'' @ password @ ''@'' @ address @ ''/'' @ name)
    = mysqlAddress U address (noTarget\<lparr>ctName := mysqlName name, ctUser := user\<rparr>)"
proof -
  let ?before = "(user @ '':'' @ password) @ CHR ''@'' # address"
  let ?dsn = "?before @ CHR ''/'' # name"
  have slash: "lastIndexByte ?dsn (CHR ''/'') = Some (length ?before)"
    using assms(3) by (rule lastIndexByte_append)
  have at: "lastIndexByte ?before (CHR ''@'') = Some (length (user @ '':'' @ password))"
    using assms(2) by (rule lastIndexByte_append)
  have colon: "indexByte (user @ '':'' @ password) (CHR '':'') = Some (length user)"
    using indexByte_append [OF assms(1), of password] by simp
  have "parseMySQLDSN U ?dsn = mysqlAddress U address (noTarget\<lparr>ctName := mysqlName name, ctUser := mysqlUser (user @ '':'' @ password)\<rparr>)"
    unfolding parseMySQLDSN_def slash option.case Let_def
    by (simp only: take_append_exact [OF refl] drop_Suc_append at option.case)
  moreover have "mysqlUser (user @ '':'' @ password) = user"
    unfolding mysqlUser_def colon option.case by simp
  ultimately show ?thesis by simp
qed

theorem mysql_password_dropped_witness:
  "parseMySQLDSN asciiTables (''root'' @ '':'' @ ''a/b@c'' @ ''@'' @ ''tcp(db-1:3307)'' @ ''/'' @ ''stock?parseTime=true'')
    = \<lparr>ctHost = ''db-1'', ctPort = ''3307'', ctName = ''stock'', ctUser = ''root'', ctDriver = []\<rparr>"
proof -
  have "mysqlAddress asciiTables ''tcp(db-1:3307)'' (noTarget\<lparr>ctName := mysqlName ''stock?parseTime=true'', ctUser := ''root''\<rparr>)
    = \<lparr>ctHost = ''db-1'', ctPort = ''3307'', ctName = ''stock'', ctUser = ''root'', ctDriver = []\<rparr>"
    by code_simp
  then show ?thesis
    using mysql_password_dropped [of "''root''" "''tcp(db-1:3307)''" "''stock?parseTime=true''" asciiTables "''a/b@c''"]
    by simp
qed

text \<open>The field a keyword sets, as a number; 4 is none.\<close>

definition keywordKind :: "string \<Rightarrow> nat" where
  "keywordKind k =
     (if k \<in> {''host'', ''hostaddr''} then 0 else if k = ''port'' then 1 else if k = ''user'' then 2
      else if k \<in> {''dbname'', ''database''} then 3 else 4)"

definition setKind :: "nat \<Rightarrow> string \<Rightarrow> connTarget \<Rightarrow> connTarget" where
  "setKind n v t =
     (if n = 0 then (if ctHost t = [] then t\<lparr>ctHost := v\<rparr> else t)
      else if n = 1 then t\<lparr>ctPort := v\<rparr> else if n = 2 then t\<lparr>ctUser := v\<rparr>
      else if n = 3 then t\<lparr>ctName := v\<rparr> else t)"

lemma keywordField_kind: "keywordField kv = setKind (keywordKind (fst kv)) (snd kv)"
  unfolding fun_eq_iff keywordField_def setKind_def keywordKind_def by simp

lemma setKind_commute: "m \<noteq> n \<Longrightarrow> setKind m v \<circ> setKind n w = setKind n w \<circ> setKind m v"
  by (simp add: fun_eq_iff setKind_def)

lemma setKind_none: "3 < n \<Longrightarrow> setKind n v = id"
  by (simp add: fun_eq_iff setKind_def)

lemma keywordKind_same:
  assumes "keywordKind k = keywordKind l" "k \<noteq> l" "keywordKind k \<le> 3"
  shows "{k, l} \<subseteq> {''host'', ''hostaddr''} \<or> {k, l} \<subseteq> {''dbname'', ''database''}"
  using assms unfolding keywordKind_def by (simp split: if_splits) blast

lemma keywordField_commute:
  assumes "fst x \<noteq> fst y"
    and "\<not> {fst x, fst y} \<subseteq> {''host'', ''hostaddr''}" "\<not> {fst x, fst y} \<subseteq> {''dbname'', ''database''}"
  shows "keywordField x \<circ> keywordField y = keywordField y \<circ> keywordField x"
proof (cases "keywordKind (fst x) = keywordKind (fst y)")
  case True
  then have "3 < keywordKind (fst x)" using keywordKind_same [OF True assms(1)] assms(2,3) by linarith
  then show ?thesis using True by (simp add: keywordField_kind setKind_none)
qed (simp add: keywordField_kind setKind_commute)

text \<open>
  A libpq keyword DSN is read the same way whatever order Go ranges over the pairs in,
  as long as it does not give both of two synonyms.
\<close>

theorem keyword_target_order_independent:
  assumes "mset pairs = mset pairs'" "wf_map pairs"
    and "\<not> {''host'', ''hostaddr''} \<subseteq> fst ` set pairs" "\<not> {''dbname'', ''database''} \<subseteq> fst ` set pairs"
  shows "keywordTarget pairs port = keywordTarget pairs' port"
proof -
  have "fold keywordField pairs = fold keywordField pairs'"
  proof (rule fold_multiset_equiv [OF _ assms(1)])
    fix x y
    assume x: "x \<in> set pairs" and y: "y \<in> set pairs"
    show "keywordField x \<circ> keywordField y = keywordField y \<circ> keywordField x"
    proof (cases "fst x = fst y")
      case True
      then have "x = y" using x y assms(2) by (auto simp: wf_map_def distinct_map inj_on_def)
      then show ?thesis by simp
    next
      case False
      have "\<not> {fst x, fst y} \<subseteq> {a, b}" if "\<not> {a, b} \<subseteq> fst ` set pairs" for a b
      proof
        assume sub: "{fst x, fst y} \<subseteq> {a, b}"
        then have "{a, b} = {fst x, fst y}" using False by auto
        then show False using that x y by auto
      qed
      then show ?thesis using False assms(3,4) by (intro keywordField_commute) blast+
    qed
  qed
  then show ?thesis by (simp add: keywordTarget_def)
qed

theorem keyword_target_order_independent_witness:
  "keywordTarget [(''host'', ''pg-1''), (''dbname'', ''a'')] ''5432'' = keywordTarget [(''dbname'', ''a''), (''host'', ''pg-1'')] ''5432''"
  by (rule keyword_target_order_independent) (auto simp: wf_map_def)

text \<open>
  With both \<open>host\<close> and \<open>hostaddr\<close> the host of the target depends on the order in which Go
  ranges over the map, which the language leaves open.
\<close>

theorem keyword_target_order_dependent:
  "mset [(''host'', ''pg''), (''hostaddr'', ''10.0.0.1'')] = mset [(''hostaddr'', ''10.0.0.1''), (''host'', ''pg'')]
   \<and> ctHost (keywordTarget [(''host'', ''pg''), (''hostaddr'', ''10.0.0.1'')] ''5432'') = ''pg''
   \<and> ctHost (keywordTarget [(''hostaddr'', ''10.0.0.1''), (''host'', ''pg'')] ''5432'') = ''10.0.0.1''"
  by (simp add: keywordTarget_def keywordField_def defaultPortFor_def noTarget_def add_mset_commute)

end
