(* ===== verification/Sql.thy ===== *)
theory Sql
  imports Tracing SqlDsn JsonText
begin

text \<open>
  \<open>sql.go\<close> and \<open>sql_params.go\<close>: what a statement span says of the statement, its parameters and
  its server.
\<close>

definition maxSQLTextLength :: nat where
  "maxSQLTextLength = 16384"

definition maxCachedDSNs :: nat where
  "maxCachedDSNs = 64"

definition systemFromDriver :: "unicodeTables \<Rightarrow> string \<Rightarrow> string" where
  "systemFromDriver U name =
     (let n = toLower U (trimSpace name) in
      if n = ''mysql'' then ''mysql''
      else if n \<in> {''sqlite'', ''sqlite3''} then ''sqlite''
      else if n \<in> {''postgres'', ''postgresql'', ''pgx'', ''pq''} then ''postgresql''
      else if n \<in> {''sqlserver'', ''mssql''} then ''mssql''
      else if name = [] then ''sql'' else toLower U name)"

text \<open>
  The end of the verb is looked for byte by byte, each byte taken as a rune of its own, so the
  bytes 0x85 and 0xA0 count as spaces.
\<close>

definition latin1Space :: "char \<Rightarrow> bool" where
  "latin1Space c \<longleftrightarrow> asciiSpace c \<or> ord c = 133 \<or> ord c = 160"

definition sqlVerb :: "unicodeTables \<Rightarrow> string \<Rightarrow> string" where
  "sqlVerb U query =
     (let trimmed = trimLeftSpace query in
      if trimmed = [] then ''QUERY''
      else (let verb = toUpper U (takeWhile (\<lambda>c. \<not> latin1Space c) trimmed)
            in if verb = [] then ''QUERY'' else verb))"

definition truncateSQL :: "string \<Rightarrow> string" where
  "truncateSQL s = (if length s \<le> maxSQLTextLength then s else take maxSQLTextLength s)"

subsection \<open>Bound parameters\<close>

text \<open>
  A \<open>driver.Value\<close>.  A float and a time carry the text \<open>strconv.FormatFloat\<close> and \<open>Time.Format\<close> give
  for them, any other type the result of \<open>json.Marshal\<close>.
\<close>

datatype dvalue = DNil | DString string | DBytes bytes | DBool bool | DInt int
  | DFloat string | DTime string | DOther "string option"

record namedValue =
  nvName :: string
  nvOrdinal :: int
  nvValue :: dvalue

datatype paramList = Named "namedValue list" | Values "dvalue list"

fun paramValues :: "paramList \<Rightarrow> dvalue list" where
  "paramValues (Named args) = map nvValue args"
| "paramValues (Values vs) = vs"

definition maxParameters :: nat where
  "maxParameters = 32"

definition maxParameterLength :: nat where
  "maxParameterLength = 64"

fun stringifyParameter :: "dvalue \<Rightarrow> string" where
  "stringifyParameter DNil = []"
| "stringifyParameter (DString s) = s"
| "stringifyParameter (DBytes b) = b"
| "stringifyParameter (DBool b) = (if b then ''true'' else ''false'')"
| "stringifyParameter (DInt i) = itoa i"
| "stringifyParameter (DFloat s) = s"
| "stringifyParameter (DTime s) = s"
| "stringifyParameter (DOther enc) = (case enc of None \<Rightarrow> [] | Some s \<Rightarrow> s)"

definition capParameter :: "string \<Rightarrow> string" where
  "capParameter v = (if length v > maxParameterLength then take maxParameterLength v else v)"

definition cappedParameters :: "paramList \<Rightarrow> string list" where
  "cappedParameters ps = map (capParameter \<circ> stringifyParameter) (take maxParameters (paramValues ps))"

definition boundedParametersJSON :: "paramList \<Rightarrow> string" where
  "boundedParametersJSON ps =
     (if paramValues ps = [] then [] else jsonArray (map jsonString (cappedParameters ps)))"

subsection \<open>The statement span\<close>

definition setAttributes :: "(string \<times> string) list \<Rightarrow> span \<Rightarrow> span" where
  "setAttributes kvs s = fold (\<lambda>(k, v). setAttribute k v) kvs s"

definition whenSet :: "string \<Rightarrow> (string \<times> string) list \<Rightarrow> (string \<times> string) list" where
  "whenSet v kvs = (if v = [] then [] else kvs)"

definition setTargetAttributes :: "connTarget \<Rightarrow> span \<Rightarrow> span" where
  "setTargetAttributes t s =
     (if targetEmpty t then s
      else setAttributes
        (whenSet (ctHost t) [(''db.host'', ctHost t), (''server.address'', ctHost t)]
         @ whenSet (ctPort t) [(''server.port'', ctPort t), (''net.peer.port'', ctPort t)]
         @ whenSet (ctName t) [(''db.name'', ctName t)]
         @ whenSet (ctUser t) [(''db.user'', ctUser t)]
         @ whenSet (ctDriver t) [(''db.driver'', ctDriver t)]) s)"

definition setParameterAttributes :: "paramList \<Rightarrow> span \<Rightarrow> span" where
  "setParameterAttributes ps s =
     (if paramValues ps = [] then s
      else (let s1 = setAttribute ''db.parameters.count'' (itoa (int (length (paramValues ps)))) s
            in if boundedParametersJSON ps \<noteq> [] then setAttribute ''db.parameters'' (boundedParametersJSON ps) s1 else s1))"

record sqlDriver =
  sdClient :: "client option"
  sdName :: string
  sdSystem :: string
  sdTargets :: "(string \<times> connTarget) list"

text \<open>\<open>target\<close>: the cached connection identity, and the driver with its cache.\<close>

definition driverTarget ::
  "unicodeTables \<Rightarrow> (string \<Rightarrow> parsedUrl option) \<Rightarrow> string \<Rightarrow> sqlDriver \<Rightarrow> connTarget \<times> sqlDriver" where
  "driverTarget U parseUrl dsn d =
     (case map_of (sdTargets d) dsn of
        Some t \<Rightarrow> (t, d)
      | None \<Rightarrow>
          (let t = parseDSN U parseUrl (sdSystem d) (sdName d) dsn
           in (t, if length (sdTargets d) < maxCachedDSNs then d\<lparr>sdTargets := AList.update dsn t (sdTargets d)\<rparr> else d)))"

record sqlOp =
  opSpan :: "span option"
  opVerb :: string
  opSystem :: string

text \<open>
  \<open>client\<close> is \<open>d.client\<close>, or the process-wide default when that is nil; \<open>entropy\<close> gives the clock and
  the random bytes \<open>StartSpan\<close> reads.
\<close>

record entropy =
  enNow :: int
  enTrace :: bytes
  enSpan :: bytes

definition startSQLSpan ::
  "unicodeTables \<Rightarrow> entropy \<Rightarrow> client option \<Rightarrow> sqlDriver \<Rightarrow> ctx \<Rightarrow> string \<Rightarrow> connTarget \<Rightarrow> paramList \<Rightarrow> ctx \<times> sqlOp" where
  "startSQLSpan U en deflt d c query target params =
     (let op = \<lparr>opSpan = None, opVerb = sqlVerb U query, opSystem = sdSystem d\<rparr> in
      case c of None \<Rightarrow> (c, op)
      | Some _ \<Rightarrow>
          (let cl = (case sdClient d of None \<Rightarrow> deflt | Some x \<Rightarrow> Some x);
               cs = startSpan cl c (''SQL '' @ opVerb op) (enNow en) (enTrace en) (enSpan en);
               stmt = truncateSQL query;
               s = setParameterAttributes params (setTargetAttributes target (setAttributes
                     [(''span.kind'', ''client''), (''db.system'', sdSystem d), (''db.statement.verb'', opVerb op),
                      (''db.operation'', opVerb op), (''db.statement'', stmt), (''db.query.text'', stmt)] (snd cs)))
           in (if tracingOn cl then Some s else fst cs, op\<lparr>opSpan := Some s\<rparr>)))"

text \<open>
  What a statement leaves behind: the spans ended, in order, the spans abandoned, and the measured
  waits (operation and system) handed to the I/O recorder.
\<close>

record sqlLog =
  slEnded :: "span list"
  slAbandoned :: "span list"
  slWaits :: "(string \<times> string) list"

definition recordIO :: "sqlOp \<Rightarrow> sqlLog \<Rightarrow> sqlLog" where
  "recordIO op lg = lg\<lparr>slWaits := slWaits lg @ [(''SQL '' @ opVerb op, opSystem op)]\<rparr>"

definition failSpan :: "string option \<Rightarrow> span \<Rightarrow> span" where
  "failSpan err s =
     (case err of None \<Rightarrow> s
      | Some msg \<Rightarrow> setAttribute ''exception.message'' msg (setAttribute ''error'' ''true'' (setStatus ''error'' s)))"

definition finishSQLSpan :: "sqlOp \<Rightarrow> string option \<Rightarrow> sqlLog \<Rightarrow> sqlLog" where
  "finishSQLSpan op err lg =
     (let l1 = recordIO op lg in
      case opSpan op of None \<Rightarrow> l1
      | Some s \<Rightarrow> l1\<lparr>slEnded := slEnded l1 @ [failSpan err s]\<rparr>)"

text \<open>\<open>abandonSpan\<close> marks the span ended, so it is never recorded, and measures nothing.\<close>

definition abandonSpan :: "sqlOp \<Rightarrow> sqlLog \<Rightarrow> sqlLog" where
  "abandonSpan op lg =
     (case opSpan op of None \<Rightarrow> lg
      | Some s \<Rightarrow> lg\<lparr>slAbandoned := slAbandoned lg @ [s\<lparr>spEnded := True\<rparr>]\<rparr>)"

subsection \<open>Results\<close>

lemma jParse_strings:
  "jParse (jsonArray (map jsonString xs)) = Some (JArr (map (JStr \<circ> toValidUTF8) xs))"
proof -
  have "renders (Suc 0) (jsonArray (map jsonString xs)) (JArr (map (JStr \<circ> toValidUTF8) xs))"
    by (rule renders_array) (simp add: list_all2_map1 list_all2_map2 renders_string list.rel_refl)
  then show ?thesis by (rule renders_parse) (simp add: maxNesting_def)
qed

text \<open>
  C32: the captured parameters are always readable.  Unless the statement bound none, \<open>db.parameters\<close>
  parses as a JSON array of at most 32 strings, the first bindings in order, each at most its
  first 64 bytes, with U+FFFD for what the cut left of a split character.
\<close>

theorem parameters_parse:
  "if paramValues ps = [] then boundedParametersJSON ps = []
   else jParse (boundedParametersJSON ps) = Some (JArr (map (JStr \<circ> toValidUTF8) (cappedParameters ps)))
     \<and> length (cappedParameters ps) = min maxParameters (length (paramValues ps))
     \<and> list_all (\<lambda>v. length v \<le> maxParameterLength) (cappedParameters ps)"
proof (cases "paramValues ps = []")
  case False
  then show ?thesis
    using jParse_strings [of "cappedParameters ps"] by (auto simp: boundedParametersJSON_def cappedParameters_def list_all_iff capParameter_def)
qed (simp add: boundedParametersJSON_def)

end
