(* ===== verification/SqlDriver.thy ===== *)
theory SqlDriver
  imports Sql
begin

text \<open>
  \<open>sql_driver.go\<close>: the wrapper around a registered driver.  A parent connection is a record of the
  optional interfaces it implements, each a function on the state \<open>'p\<close> of the parent; a wrapped call
  threads that state together with the log of spans and waits.  \<open>Exec\<close> and \<open>Query\<close> differ only in the
  method they call, so one definition serves both.
\<close>

record drvErr =
  deSkip :: bool
  deText :: string

definition errSkip :: drvErr where
  "errSkip = \<lparr>deSkip = True, deText = ''driver: skip fast-path; continue as if unimplemented''\<rparr>"

type_synonym 'r outcome = "'r option \<times> drvErr option"
type_synonym ('p, 'r) call = "'p \<Rightarrow> 'r outcome \<times> 'p"

definition skipped :: "'r outcome \<Rightarrow> bool" where
  "skipped r = (case snd r of None \<Rightarrow> False | Some e \<Rightarrow> deSkip e)"

definition errText :: "'r outcome \<Rightarrow> string option" where
  "errText r = map_option deText (snd r)"

definition namedUnsupported :: drvErr where
  "namedUnsupported = \<lparr>deSkip = False,
     deText = ''chronos: named parameters require a driver that implements NamedValueChecker / ExecerContext''\<rparr>"

fun namedToValues :: "namedValue list \<Rightarrow> drvErr + dvalue list" where
  "namedToValues [] = Inr []"
| "namedToValues (a # args) =
     (if nvName a \<noteq> [] then Inl namedUnsupported
      else case namedToValues args of Inl e \<Rightarrow> Inl e | Inr vs \<Rightarrow> Inr (nvValue a # vs))"


subsection \<open>Connections\<close>

text \<open>\<open>sqlEnv\<close> holds what every wrapped call reads: the tables, the default client, the driver.\<close>

record sqlEnv =
  seTables :: unicodeTables
  seDefault :: "client option"
  seDriver :: sqlDriver
  seTarget :: connTarget

definition beginOp :: "sqlEnv \<Rightarrow> entropy \<Rightarrow> ctx \<Rightarrow> string \<Rightarrow> paramList \<Rightarrow> sqlOp" where
  "beginOp E en c query ps = snd (startSQLSpan (seTables E) en (seDefault E) (seDriver E) c query (seTarget E) ps)"

text \<open>
  \<open>ExecContext\<close> and \<open>QueryContext\<close>: \<open>modern\<close> is the parent's context method, \<open>legacy\<close> its old one,
  \<open>None\<close> when the parent does not implement the interface; \<open>en\<close> and \<open>en'\<close> are what the two
  attempts read from the clock and the random source.
\<close>

definition legacyCall ::
  "sqlEnv \<Rightarrow> entropy \<Rightarrow> (string \<Rightarrow> dvalue list \<Rightarrow> ('p, 'r) call) option \<Rightarrow> ctx \<Rightarrow> string \<Rightarrow> namedValue list
    \<Rightarrow> 'p \<times> sqlLog \<Rightarrow> 'r outcome \<times> 'p \<times> sqlLog" where
  "legacyCall E en legacy c query args st = (case st of (p, lg) \<Rightarrow>
     (case legacy of
        None \<Rightarrow> ((None, Some errSkip), p, lg)
      | Some f \<Rightarrow>
          (case namedToValues args of
             Inl e \<Rightarrow> ((None, Some e), p, lg)
           | Inr vals \<Rightarrow>
               (let op = beginOp E en c query (Named args);
                    (r, p') = f query vals p
                in if skipped r then ((None, Some errSkip), p', abandonSpan op lg)
                   else (r, p', finishSQLSpan op (errText r) lg)))))"

definition connCall ::
  "sqlEnv \<Rightarrow> entropy \<Rightarrow> entropy \<Rightarrow> (ctx \<Rightarrow> string \<Rightarrow> namedValue list \<Rightarrow> ('p, 'r) call) option
    \<Rightarrow> (string \<Rightarrow> dvalue list \<Rightarrow> ('p, 'r) call) option \<Rightarrow> ctx \<Rightarrow> string \<Rightarrow> namedValue list
    \<Rightarrow> 'p \<times> sqlLog \<Rightarrow> 'r outcome \<times> 'p \<times> sqlLog" where
  "connCall E en en' modern legacy c query args st = (case st of (p, lg) \<Rightarrow>
     (case modern of
        None \<Rightarrow> legacyCall E en' legacy c query args (p, lg)
      | Some f \<Rightarrow>
          (let op = beginOp E en c query (Named args);
               (r, p') = f c query args p
           in if skipped r then legacyCall E en' legacy c query args (p', abandonSpan op lg)
              else (r, p', finishSQLSpan op (errText r) lg))))"

text \<open>
  The parent connection: \<open>'t\<close> transactions, \<open>'s\<close> statements, \<open>'x\<close> results of \<open>Exec\<close>, \<open>'w\<close> rows.
\<close>

record txOptions =
  toIsolation :: int
  toReadOnly :: bool

record ('p, 's, 't, 'x, 'w) parentConn =
  pcPrepare :: "string \<Rightarrow> ('p, 's) call"
  pcBegin :: "('p, 't) call"
  pcBeginTx :: "(ctx \<Rightarrow> txOptions \<Rightarrow> ('p, 't) call) option"
  pcPrepareContext :: "(ctx \<Rightarrow> string \<Rightarrow> ('p, 's) call) option"
  pcExecContext :: "(ctx \<Rightarrow> string \<Rightarrow> namedValue list \<Rightarrow> ('p, 'x) call) option"
  pcExec :: "(string \<Rightarrow> dvalue list \<Rightarrow> ('p, 'x) call) option"
  pcQueryContext :: "(ctx \<Rightarrow> string \<Rightarrow> namedValue list \<Rightarrow> ('p, 'w) call) option"
  pcQuery :: "(string \<Rightarrow> dvalue list \<Rightarrow> ('p, 'w) call) option"
  pcPing :: "(ctx \<Rightarrow> 'p \<Rightarrow> drvErr option \<times> 'p) option"
  pcResetSession :: "(ctx \<Rightarrow> 'p \<Rightarrow> drvErr option \<times> 'p) option"
  pcIsValid :: "('p \<Rightarrow> bool) option"
  pcCheckNamedValue :: "(namedValue \<Rightarrow> 'p \<Rightarrow> drvErr option \<times> 'p) option"

text \<open>A wrapped statement remembers its query.\<close>

record 's sqlStmt =
  ssParent :: 's
  ssQuery :: string

definition wrapOutcome :: "('a \<Rightarrow> 'b) \<Rightarrow> 'a outcome \<times> 'p \<Rightarrow> 'b outcome \<times> 'p" where
  "wrapOutcome w rp = (case snd (fst rp) of
     Some e \<Rightarrow> ((None, Some e), snd rp)
   | None \<Rightarrow> ((map_option w (fst (fst rp)), None), snd rp))"

definition connPrepare :: "('p, 's, 't, 'x, 'w) parentConn \<Rightarrow> string \<Rightarrow> ('p, 's sqlStmt) call" where
  "connPrepare P query p = wrapOutcome (\<lambda>s. \<lparr>ssParent = s, ssQuery = query\<rparr>) (pcPrepare P query p)"

definition connPrepareContext :: "('p, 's, 't, 'x, 'w) parentConn \<Rightarrow> ctx \<Rightarrow> string \<Rightarrow> ('p, 's sqlStmt) call" where
  "connPrepareContext P c query p = (case pcPrepareContext P of
     Some f \<Rightarrow> wrapOutcome (\<lambda>s. \<lparr>ssParent = s, ssQuery = query\<rparr>) (f c query p)
   | None \<Rightarrow> connPrepare P query p)"

definition connBegin :: "('p, 's, 't, 'x, 'w) parentConn \<Rightarrow> ('p, 't) call" where
  "connBegin P p = wrapOutcome id (pcBegin P p)"

definition connBeginTx :: "('p, 's, 't, 'x, 'w) parentConn \<Rightarrow> ctx \<Rightarrow> txOptions \<Rightarrow> ('p, 't) call" where
  "connBeginTx P c opts p = (case pcBeginTx P of
     Some f \<Rightarrow> wrapOutcome id (f c opts p)
   | None \<Rightarrow> connBegin P p)"

text \<open>
  A wrapped transaction is the parent's: its operations are forwarded, and so are the closing of a
  connection and of a statement and the number of a statement's parameters.
\<close>

record 'p sqlTx =
  stCommit :: "'p \<Rightarrow> drvErr option \<times> 'p"
  stRollback :: "'p \<Rightarrow> drvErr option \<times> 'p"

definition txCommit :: "'p sqlTx \<Rightarrow> 'p \<Rightarrow> drvErr option \<times> 'p" where
  "txCommit tx p = stCommit tx p"

definition txRollback :: "'p sqlTx \<Rightarrow> 'p \<Rightarrow> drvErr option \<times> 'p" where
  "txRollback tx p = stRollback tx p"

definition connClose :: "('p \<Rightarrow> drvErr option \<times> 'p) \<Rightarrow> 'p \<Rightarrow> drvErr option \<times> 'p" where
  "connClose parentClose p = parentClose p"

definition stmtClose :: "('s \<Rightarrow> 'p \<Rightarrow> drvErr option \<times> 'p) \<Rightarrow> 's sqlStmt \<Rightarrow> 'p \<Rightarrow> drvErr option \<times> 'p" where
  "stmtClose parentClose s p = parentClose (ssParent s) p"

definition stmtNumInput :: "('s \<Rightarrow> int) \<Rightarrow> 's sqlStmt \<Rightarrow> int" where
  "stmtNumInput parentInputs s = parentInputs (ssParent s)"


definition connQueryContext ::
  "sqlEnv \<Rightarrow> entropy \<Rightarrow> entropy \<Rightarrow> ('p, 's, 't, 'x, 'w) parentConn \<Rightarrow> ctx \<Rightarrow> string \<Rightarrow> namedValue list
    \<Rightarrow> 'p \<times> sqlLog \<Rightarrow> 'w outcome \<times> 'p \<times> sqlLog" where
  "connQueryContext E en en' P = connCall E en en' (pcQueryContext P) (pcQuery P)"

definition connPing :: "('p, 's, 't, 'x, 'w) parentConn \<Rightarrow> ctx \<Rightarrow> 'p \<Rightarrow> drvErr option \<times> 'p" where
  "connPing P c p = (case pcPing P of Some f \<Rightarrow> f c p | None \<Rightarrow> (None, p))"

definition connResetSession :: "('p, 's, 't, 'x, 'w) parentConn \<Rightarrow> ctx \<Rightarrow> 'p \<Rightarrow> drvErr option \<times> 'p" where
  "connResetSession P c p = (case pcResetSession P of Some f \<Rightarrow> f c p | None \<Rightarrow> (None, p))"

definition connIsValid :: "('p, 's, 't, 'x, 'w) parentConn \<Rightarrow> 'p \<Rightarrow> bool" where
  "connIsValid P p = (case pcIsValid P of Some f \<Rightarrow> f p | None \<Rightarrow> True)"

definition connCheckNamedValue ::
  "('p, 's, 't, 'x, 'w) parentConn \<Rightarrow> namedValue \<Rightarrow> 'p \<Rightarrow> drvErr option \<times> 'p" where
  "connCheckNamedValue P nv p = (case pcCheckNamedValue P of Some f \<Rightarrow> f nv p | None \<Rightarrow> (Some errSkip, p))"

subsection \<open>Statements\<close>

text \<open>\<open>Exec\<close> and \<open>Query\<close> of a statement, on \<open>context.Background()\<close>.\<close>

definition stmtCall ::
  "sqlEnv \<Rightarrow> entropy \<Rightarrow> (dvalue list \<Rightarrow> ('p, 'r) call) \<Rightarrow> string \<Rightarrow> dvalue list
    \<Rightarrow> 'p \<times> sqlLog \<Rightarrow> 'r outcome \<times> 'p \<times> sqlLog" where
  "stmtCall E en f query args st = (case st of (p, lg) \<Rightarrow>
     (let op = beginOp E en None query (Values args);
          (r, p') = f args p
      in (r, p', finishSQLSpan op (errText r) lg)))"

text \<open>
  \<open>ExecContext\<close> and \<open>QueryContext\<close> of a statement; \<open>modern\<close> is \<open>StmtExecContext\<close> or
  \<open>StmtQueryContext\<close> of the parent, the deferred \<open>finishSQLSpan\<close> sees the last error.
\<close>

definition stmtCallContext ::
  "sqlEnv \<Rightarrow> entropy \<Rightarrow> (ctx \<Rightarrow> namedValue list \<Rightarrow> ('p, 'r) call) option \<Rightarrow> (dvalue list \<Rightarrow> ('p, 'r) call)
    \<Rightarrow> string \<Rightarrow> ctx \<Rightarrow> namedValue list \<Rightarrow> 'p \<times> sqlLog \<Rightarrow> 'r outcome \<times> 'p \<times> sqlLog" where
  "stmtCallContext E en modern f query c args st = (case st of (p, lg) \<Rightarrow>
     (let op = beginOp E en c query (Named args);
          (r, p') = (case modern of
              Some g \<Rightarrow> g c args p
            | None \<Rightarrow> (case namedToValues args of Inl e \<Rightarrow> ((None, Some e), p) | Inr vals \<Rightarrow> f vals p))
      in (r, p', finishSQLSpan op (errText r) lg)))"

subsection \<open>Connectors\<close>

text \<open>
  \<open>Open\<close>, \<open>OpenConnector\<close> and \<open>Connect\<close>: a connection of the parent together with the target of its
  DSN.  \<open>parentOpen\<close> is the parent's \<open>Open\<close>, \<open>parentConnector\<close> its \<open>OpenConnector\<close> if it has one, and
  \<open>parentConnect\<close> the \<open>Connect\<close> of a connector \<open>'k\<close> of the parent.
\<close>

datatype 'k sqlConnector = SqlConnector 'k connTarget | DsnConnector string

definition withTarget :: "(connTarget \<Rightarrow> 'c \<Rightarrow> 'd) \<Rightarrow> (sqlDriver \<Rightarrow> connTarget \<times> sqlDriver) \<Rightarrow> 'c outcome \<Rightarrow> sqlDriver
    \<Rightarrow> 'd outcome \<times> sqlDriver" where
  "withTarget w target r d = (case snd r of
     Some e \<Rightarrow> ((None, Some e), d)
   | None \<Rightarrow> (case target d of (t, d') \<Rightarrow> ((map_option (w t) (fst r), None), d')))"

definition driverOpen ::
  "unicodeTables \<Rightarrow> (string \<Rightarrow> parsedUrl option) \<Rightarrow> (string \<Rightarrow> 'c outcome) \<Rightarrow> string \<Rightarrow> sqlDriver
    \<Rightarrow> ('c \<times> connTarget) outcome \<times> sqlDriver" where
  "driverOpen U parseUrl parentOpen dsn d =
     withTarget (\<lambda>t conn. (conn, t)) (driverTarget U parseUrl dsn) (parentOpen dsn) d"

definition driverOpenConnector ::
  "unicodeTables \<Rightarrow> (string \<Rightarrow> parsedUrl option) \<Rightarrow> (string \<Rightarrow> 'k outcome) option \<Rightarrow> string \<Rightarrow> sqlDriver
    \<Rightarrow> 'k sqlConnector outcome \<times> sqlDriver" where
  "driverOpenConnector U parseUrl parentConnector dsn d = (case parentConnector of
     Some f \<Rightarrow> withTarget (\<lambda>t k. SqlConnector k t) (driverTarget U parseUrl dsn) (f dsn) d
   | None \<Rightarrow> ((Some (DsnConnector dsn), None), d))"

definition connectorConnect ::
  "unicodeTables \<Rightarrow> (string \<Rightarrow> parsedUrl option) \<Rightarrow> (string \<Rightarrow> 'c outcome) \<Rightarrow> ('k \<Rightarrow> ctx \<Rightarrow> 'c outcome) \<Rightarrow> ctx
    \<Rightarrow> 'k sqlConnector \<Rightarrow> sqlDriver \<Rightarrow> ('c \<times> connTarget) outcome \<times> sqlDriver" where
  "connectorConnect U parseUrl parentOpen parentConnect c k d = (case k of
     SqlConnector p t \<Rightarrow> withTarget (\<lambda>t conn. (conn, t)) (\<lambda>d. (t, d)) (parentConnect p c) d
   | DsnConnector dsn \<Rightarrow> driverOpen U parseUrl parentOpen dsn d)"

subsection \<open>Results\<close>







lemma skipped_errSkip [simp]: "skipped (None, Some errSkip)"
  by (simp add: skipped_def errSkip_def)

lemma skipped_named [simp]: "\<not> skipped (None, Some namedUnsupported)"
  by (simp add: skipped_def namedUnsupported_def)






text \<open>
  \<open>BeginTx\<close> on a parent without \<open>ConnBeginTx\<close> starts an ordinary transaction whatever options the
  caller asked for: a read-only or serializable transaction is granted as a plain one instead of
  being refused, as the contract of \<open>driver.ConnBeginTx\<close> demands.
\<close>

theorem begin_tx_ignores_options:
  "connBeginTx (P\<lparr>pcBeginTx := None\<rparr>) c \<lparr>toIsolation = 6, toReadOnly = True\<rparr> p
     = connBeginTx (P\<lparr>pcBeginTx := None\<rparr>) None \<lparr>toIsolation = 0, toReadOnly = False\<rparr> p"
  by (simp add: connBeginTx_def connBegin_def)

end
