(* ===== verification/SqlOpen.thy ===== *)
theory SqlOpen
  imports SqlDriver
begin

text \<open>
  \<open>Open\<close>, \<open>OpenDB\<close> and \<open>ensureSQLDriver\<close> of \<open>sql.go\<close> over the registry of \<open>database/sql\<close>: which driver, and
  so which client, the statements of an opened database go through.
\<close>

text \<open>
  A registered driver is one of the program's own (\<open>'d\<close>) or a \<open>sqlDriver\<close> around another.  The argument
  \<open>accepts\<close> is \<open>OpenConnector\<close> of a program's driver: its error for a DSN, \<open>None\<close> when it accepts the DSN
  or has no such method.  The cache of parsed DSNs a driver fills is \<open>driverTarget\<close>.
\<close>

datatype 'd regDriver = Foreign 'd | Chronos sqlDriver "'d regDriver"

datatype openError = UnknownDriver string | BadDSN string | WrapFailed string openError | RegisterPanic string

record 'd sqlRegistry =
  rgDrivers :: "(string \<times> 'd regDriver) list"
  rgWrapped :: "(string \<times> string) list"

fun connectorError :: "('d \<Rightarrow> string \<Rightarrow> drvErr option) \<Rightarrow> 'd regDriver \<Rightarrow> string \<Rightarrow> drvErr option" where
  "connectorError accepts (Foreign d) dsn = accepts d dsn"
| "connectorError accepts (Chronos sd parent) dsn = connectorError accepts parent dsn"

text \<open>\<open>sql.Open\<close> and \<open>sql.Register\<close>, which panics on a name it already has.\<close>

definition sqlOpen :: "('d \<Rightarrow> string \<Rightarrow> drvErr option) \<Rightarrow> 'd sqlRegistry \<Rightarrow> string \<Rightarrow> string \<Rightarrow> openError + 'd regDriver" where
  "sqlOpen accepts w name dsn = (case map_of (rgDrivers w) name of
     None \<Rightarrow> Inl (UnknownDriver name)
   | Some d \<Rightarrow> (case connectorError accepts d dsn of Some e \<Rightarrow> Inl (BadDSN (deText e)) | None \<Rightarrow> Inr d))"

definition sqlRegister :: "string \<Rightarrow> 'd regDriver \<Rightarrow> 'd sqlRegistry \<Rightarrow> 'd sqlRegistry option" where
  "sqlRegister name d w = (if map_of (rgDrivers w) name \<noteq> None then None else Some (w\<lparr>rgDrivers := (name, d) # rgDrivers w\<rparr>))"

definition wrappedName :: "string \<Rightarrow> string" where
  "wrappedName parent = ''chronos-'' @ parent"

definition newSqlDriver :: "unicodeTables \<Rightarrow> client \<Rightarrow> string \<Rightarrow> sqlDriver" where
  "newSqlDriver U cl parent = \<lparr>sdClient = Some cl, sdName = parent, sdSystem = systemFromDriver U parent, sdTargets = []\<rparr>"

definition ensureSQLDriver ::
  "('d \<Rightarrow> string \<Rightarrow> drvErr option) \<Rightarrow> unicodeTables \<Rightarrow> client \<Rightarrow> string \<Rightarrow> 'd sqlRegistry \<Rightarrow> (openError + string) \<times> 'd sqlRegistry" where
  "ensureSQLDriver accepts U cl parent w = (case map_of (rgWrapped w) parent of
     Some name \<Rightarrow> (Inr name, w)
   | None \<Rightarrow> (case sqlOpen accepts w parent [] of
        Inl e \<Rightarrow> (Inl (WrapFailed parent e), w)
      | Inr d \<Rightarrow> (case sqlRegister (wrappedName parent) (Chronos (newSqlDriver U cl parent) d) w of
           None \<Rightarrow> (Inl (RegisterPanic (wrappedName parent)), w)
         | Some w' \<Rightarrow> (Inr (wrappedName parent), w'\<lparr>rgWrapped := (parent, wrappedName parent) # rgWrapped w\<rparr>))))"

definition openDB ::
  "('d \<Rightarrow> string \<Rightarrow> drvErr option) \<Rightarrow> unicodeTables \<Rightarrow> client option \<Rightarrow> string \<Rightarrow> string \<Rightarrow> 'd sqlRegistry
    \<Rightarrow> (openError + 'd regDriver) \<times> 'd sqlRegistry" where
  "openDB accepts U co name dsn w = (case co of
     None \<Rightarrow> (sqlOpen accepts w name dsn, w)
   | Some cl \<Rightarrow> (case ensureSQLDriver accepts U cl name w of
        (Inl e, w') \<Rightarrow> (Inl e, w')
      | (Inr wrapped, w') \<Rightarrow> (sqlOpen accepts w' wrapped dsn, w')))"

text \<open>\<open>Open\<close> goes to \<open>Default()\<close>.\<close>

definition openDefault ::
  "('d \<Rightarrow> string \<Rightarrow> drvErr option) \<Rightarrow> unicodeTables \<Rightarrow> client option \<Rightarrow> string \<Rightarrow> string \<Rightarrow> 'd sqlRegistry
    \<Rightarrow> (openError + 'd regDriver) \<times> 'd sqlRegistry" where
  "openDefault accepts U deflt name dsn w = openDB accepts U (defaultOr deflt) name dsn w"

text \<open>The registry after a list of calls of \<open>OpenDB\<close>.\<close>

definition opened :: "('d \<Rightarrow> string \<Rightarrow> drvErr option) \<Rightarrow> unicodeTables \<Rightarrow> (client option \<times> string \<times> string) list \<Rightarrow> 'd sqlRegistry \<Rightarrow> 'd sqlRegistry" where
  "opened accepts U = fold (\<lambda>(co, name, dsn) w. snd (openDB accepts U co name dsn w))"

subsection \<open>Results\<close>

text \<open>
  A wrapper is registered under the name the map gives it, around the driver registered under its parent's
  name; and no other driver has a name of that form.
\<close>

definition wrapperOf :: "string \<Rightarrow> 'd sqlRegistry \<Rightarrow> bool" where
  "wrapperOf parent w \<longleftrightarrow> (\<exists>sd d. map_of (rgDrivers w) (wrappedName parent) = Some (Chronos sd d)
     \<and> sdName sd = parent \<and> map_of (rgDrivers w) parent = Some d)"

definition registryOk :: "'d sqlRegistry \<Rightarrow> bool" where
  "registryOk w \<longleftrightarrow> (\<forall>p n. map_of (rgWrapped w) p = Some n \<longrightarrow> n = wrappedName p \<and> wrapperOf p w)
     \<and> (\<forall>p. map_of (rgDrivers w) (wrappedName p) \<noteq> None \<longrightarrow> map_of (rgWrapped w) p \<noteq> None)"

definition laterRegistry :: "'d sqlRegistry \<Rightarrow> 'd sqlRegistry \<Rightarrow> bool" where
  "laterRegistry w w' \<longleftrightarrow> registryOk w' \<and> map_of (rgDrivers w) \<subseteq>\<^sub>m map_of (rgDrivers w') \<and> map_of (rgWrapped w) \<subseteq>\<^sub>m map_of (rgWrapped w')"

lemma wrappedName_inject [simp]: "wrappedName p = wrappedName q \<longleftrightarrow> p = q"
  by (simp add: wrappedName_def)

lemma wrappedName_neq [simp]: "wrappedName p \<noteq> p" "p \<noteq> wrappedName p"
  by (simp_all add: wrappedName_def list_eq_iff_nth_eq)

lemma laterRegistry_refl: "registryOk w \<Longrightarrow> laterRegistry w w"
  by (simp add: laterRegistry_def)

lemma laterRegistry_trans: "laterRegistry w w1 \<Longrightarrow> laterRegistry w1 w2 \<Longrightarrow> laterRegistry w w2"
  unfolding laterRegistry_def by (meson map_le_trans)

text \<open>The wrapping of a driver: at most one new registration, which cannot panic.\<close>

lemma ensure_later:
  assumes "registryOk w" "ensureSQLDriver accepts U cl parent w = (r, w')"
  shows "laterRegistry w w'"
    and "case r of Inl e \<Rightarrow> w' = w \<and> (\<exists>e'. e = WrapFailed parent e') \<and> map_of (rgWrapped w) parent = None
      | Inr n \<Rightarrow> n = wrappedName parent \<and> map_of (rgWrapped w') parent = Some n"
    and "map_of (rgWrapped w) parent = None \<Longrightarrow> r = Inr n \<Longrightarrow> (\<exists>d. map_of (rgDrivers w) parent = Some d
        \<and> map_of (rgDrivers w') (wrappedName parent) = Some (Chronos (newSqlDriver U cl parent) d))"
proof -
  note ok = assms(1) [unfolded registryOk_def]
  consider (old) n where "map_of (rgWrapped w) parent = Some n"
    | (bad) e where "map_of (rgWrapped w) parent = None" "sqlOpen accepts w parent [] = Inl e"
    | (new) d where "map_of (rgWrapped w) parent = None" "sqlOpen accepts w parent [] = Inr d"
    by (cases "map_of (rgWrapped w) parent"; cases "sqlOpen accepts w parent []") auto
  then have "laterRegistry w w'
    \<and> (case r of Inl e \<Rightarrow> w' = w \<and> (\<exists>e'. e = WrapFailed parent e') \<and> map_of (rgWrapped w) parent = None
      | Inr n \<Rightarrow> n = wrappedName parent \<and> map_of (rgWrapped w') parent = Some n)
    \<and> (map_of (rgWrapped w) parent = None \<longrightarrow> r = Inr n \<longrightarrow> (\<exists>d. map_of (rgDrivers w) parent = Some d
        \<and> map_of (rgDrivers w') (wrappedName parent) = Some (Chronos (newSqlDriver U cl parent) d)))"
  proof cases
    case old
    then show ?thesis using assms ok laterRegistry_refl [OF assms(1)] by (auto simp: ensureSQLDriver_def)
  next
    case bad
    then show ?thesis using assms laterRegistry_refl [OF assms(1)] by (auto simp: ensureSQLDriver_def)
  next
    case new
    have free: "map_of (rgDrivers w) (wrappedName parent) = None" using ok new(1) by blast
    have d: "map_of (rgDrivers w) parent = Some d"
      using new(2) by (auto simp: sqlOpen_def split: option.splits)
    let ?w = "w\<lparr>rgDrivers := (wrappedName parent, Chronos (newSqlDriver U cl parent) d) # rgDrivers w,
      rgWrapped := (parent, wrappedName parent) # rgWrapped w\<rparr>"
    have e: "r = Inr (wrappedName parent)" "w' = ?w"
      using assms(2) new free by (auto simp: ensureSQLDriver_def sqlRegister_def)
    have keep: "map_of (rgDrivers w) \<subseteq>\<^sub>m map_of (rgDrivers ?w)" "map_of (rgWrapped w) \<subseteq>\<^sub>m map_of (rgWrapped ?w)"
      using free new(1) by (auto simp: map_le_def)
    have "wrapperOf q ?w" if "wrapperOf q w" for q
      using that keep(1) unfolding wrapperOf_def map_le_def by (metis domI)
    moreover have "wrapperOf parent ?w" using d by (simp add: wrapperOf_def newSqlDriver_def)
    ultimately have "registryOk ?w" using ok unfolding registryOk_def by (auto split: if_splits)
    then show ?thesis using e keep d by (simp add: laterRegistry_def)
  qed
  then show "laterRegistry w w'"
    and "case r of Inl e \<Rightarrow> w' = w \<and> (\<exists>e'. e = WrapFailed parent e') \<and> map_of (rgWrapped w) parent = None
      | Inr n \<Rightarrow> n = wrappedName parent \<and> map_of (rgWrapped w') parent = Some n"
    and "map_of (rgWrapped w) parent = None \<Longrightarrow> r = Inr n \<Longrightarrow> (\<exists>d. map_of (rgDrivers w) parent = Some d
        \<and> map_of (rgDrivers w') (wrappedName parent) = Some (Chronos (newSqlDriver U cl parent) d))"
    by blast+
qed

lemma openDB_later: "registryOk w \<Longrightarrow> laterRegistry w (snd (openDB accepts U co name dsn w))"
  using ensure_later(1) laterRegistry_refl by (fastforce simp: openDB_def split: option.split sum.split prod.split)

lemma opened_later: "registryOk w \<Longrightarrow> laterRegistry w (opened accepts U calls w)"
proof (induction calls arbitrary: w)
  case (Cons x calls)
  obtain co name dsn where x: "x = (co, name, dsn)" by (cases x) auto
  have first: "laterRegistry w (snd (openDB accepts U co name dsn w))" using openDB_later [OF Cons.prems] .
  then have "registryOk (snd (openDB accepts U co name dsn w))" by (simp add: laterRegistry_def)
  from laterRegistry_trans [OF first Cons.IH [OF this]] show ?case by (simp add: opened_def x)
qed (simp add: opened_def laterRegistry_refl)

text \<open>A database on a wrapped driver is the driver found under the wrapper's name, and the registry stays.\<close>

lemma openDB_wrapped:
  assumes "registryOk w" "map_of (rgWrapped w) name = Some n" "map_of (rgDrivers w) (wrappedName name) = Some drv"
  shows "openDB accepts U (Some cl) name dsn w = (case connectorError accepts drv dsn of Some e \<Rightarrow> Inl (BadDSN (deText e)) | None \<Rightarrow> Inr drv, w)"
proof -
  have "n = wrappedName name" using assms(1,2) unfolding registryOk_def by blast
  then show ?thesis using assms(2,3) by (simp add: openDB_def ensureSQLDriver_def sqlOpen_def)
qed

text \<open>The first call on a driver's name decides the wrapper for good.\<close>

lemma first_call:
  assumes "registryOk w" "map_of (rgWrapped w) name = None" "openDB accepts U (Some cl) name dsn w = (Inr drv, w1)"
  obtains d where "map_of (rgDrivers w) name = Some d" "drv = Chronos (newSqlDriver U cl name) d"
    "\<And>calls cl' dsn'. openDB accepts U (Some cl') name dsn' (opened accepts U calls w1)
      = (case connectorError accepts d dsn' of Some e \<Rightarrow> Inl (BadDSN (deText e)) | None \<Rightarrow> Inr drv, opened accepts U calls w1)"
proof -
  obtain n where e: "ensureSQLDriver accepts U cl name w = (Inr n, w1)" "sqlOpen accepts w1 n dsn = Inr drv"
    using assms(3) by (auto simp: openDB_def split: sum.splits prod.splits)
  have n: "n = wrappedName name" "map_of (rgWrapped w1) name = Some n" and later: "laterRegistry w w1"
    using ensure_later(1,2) [OF assms(1) e(1)] by simp_all
  obtain d where d: "map_of (rgDrivers w) name = Some d"
    "map_of (rgDrivers w1) (wrappedName name) = Some (Chronos (newSqlDriver U cl name) d)"
    using ensure_later(3) [OF assms(1) e(1) assms(2) refl] by blast
  have drv: "drv = Chronos (newSqlDriver U cl name) d"
    using e(2) d(2) n(1) by (auto simp: sqlOpen_def split: option.splits)
  have again: "openDB accepts U (Some cl') name dsn' (opened accepts U calls w1)
      = (case connectorError accepts d dsn' of Some e \<Rightarrow> Inl (BadDSN (deText e)) | None \<Rightarrow> Inr drv, opened accepts U calls w1)" for calls cl' dsn'
  proof -
    have "registryOk w1" using later by (simp add: laterRegistry_def)
    then have l: "laterRegistry w1 (opened accepts U calls w1)" by (rule opened_later)
    then have "map_of (rgWrapped (opened accepts U calls w1)) name = Some n"
      "map_of (rgDrivers (opened accepts U calls w1)) (wrappedName name) = Some drv"
      using n(2) d(2) drv unfolding laterRegistry_def map_le_def by (metis domI)+
    then show ?thesis using openDB_wrapped l drv unfolding laterRegistry_def by fastforce
  qed
  show thesis using that d(1) drv again by blast
qed





lemma cfg_kept: "spCfg (setParameterAttributes ps s) = spCfg s" "spCfg (setTargetAttributes t s) = spCfg s" "spCfg (setAttributes kvs s) = spCfg s"
proof -
  have kvs: "spCfg (setAttributes kvs s) = spCfg s" for kvs s
    unfolding setAttributes_def by (induction kvs arbitrary: s) (auto simp: setAttribute_def)
  then show "spCfg (setParameterAttributes ps s) = spCfg s" "spCfg (setTargetAttributes t s) = spCfg s" "spCfg (setAttributes kvs s) = spCfg s"
    by (simp_all add: setParameterAttributes_def setTargetAttributes_def Let_def setAttribute_def)
qed

text \<open>
  Opening a database before \<open>Start\<close> turns the tracing of its driver off for good.  \<open>Open\<close> then wraps the
  driver for the empty client of \<open>Default()\<close>; after the program has started a client, and whatever it opens,
  no statement on a database of that driver is ever recorded.
\<close>

theorem open_before_start_never_traced:
  assumes "registryOk w" "map_of (rgWrapped w) name = None" "openDefault accepts U None name dsn w = (Inr drv, w1)"
    and "openDefault accepts U deflt name dsn' (opened accepts U calls w1) = (Inr drv', w2)"
  shows "case drv' of Foreign d \<Rightarrow> False | Chronos sd d \<Rightarrow>
    (case opSpan (snd (startSQLSpan U en deflt sd c query target params)) of None \<Rightarrow> True | Some s \<Rightarrow> fst (finish U resource now s) = None)"
proof -
  obtain d where "map_of (rgDrivers w) name = Some d" and d: "drv = Chronos (newSqlDriver U noClient name) d"
    "\<And>calls cl' dsn'. openDB accepts U (Some cl') name dsn' (opened accepts U calls w1)
      = (case connectorError accepts d dsn' of Some e \<Rightarrow> Inl (BadDSN (deText e)) | None \<Rightarrow> Inr drv, opened accepts U calls w1)"
    by (rule first_call [OF assms(1,2) assms(3) [unfolded openDefault_def defaultOr_def option.case]]) (rule that)
  have "drv' = drv" using assms(4) d(2) by (auto simp: openDefault_def defaultOr_def split: option.splits)
  moreover have "fst (finish U resource now s) = None" if "spCfg s = zeroConfig" for s
    using that by (simp add: finish_def Let_def zeroConfig_def)
  ultimately show ?thesis
    by (cases c) (simp_all add: d(1) newSqlDriver_def startSQLSpan_def Let_def noClient_def startSpan_def cfg_kept zeroSpan_def zeroConfig_def)
qed

end
