(* ===== verification/QueueWait.thy ===== *)
theory QueueWait
  imports GoFloat
begin

text \<open>
  \<open>FormatEnqueuedAt\<close> and \<open>WaitMilliseconds\<close> of \<open>propagation.go\<close>: the publish instant as text, and
  how long a message waited.  An instant is its \<open>UnixNano\<close>; the arithmetic is that of \<open>float64\<close>.
  \<open>spill\<close> is what the implementation makes of an \<open>int64\<close> conversion that does not fit.
\<close>

definition unixSeconds :: "int \<Rightarrow> f64" where
  "unixSeconds nanos = fdivBy (toF64 (of_int nanos)) 1000000000"

definition formatEnqueuedAt :: "int \<Rightarrow> string" where
  "formatEnqueuedAt nanos = formatFixed6 (unixSeconds nanos)"

definition waitMilliseconds :: "(f64 \<Rightarrow> int) \<Rightarrow> string \<Rightarrow> int \<Rightarrow> int option" where
  "waitMilliseconds spill enqueuedAt startedAt =
     (let stamp = trimSpace enqueuedAt
      in if stamp = [] then None
         else case parseFloat stamp of
           None \<Rightarrow> None
         | Some seconds \<Rightarrow>
             if fle seconds (Fin 0) then None
             else let waited = fmulBy (fsub (unixSeconds startedAt) seconds) 1000
                  in if fless waited (Fin 0) then None
                     else Some (toInt64 spill (fadd waited (Fin (1 / 2)))))"

subsection \<open>Results\<close>

lemma toF64_int64:
  assumes "\<bar>n\<bar> \<le> 2 ^ 63"
  shows "\<exists>r. toF64 (of_int n) = Fin r \<and> \<bar>r - of_int n\<bar> \<le> 1025"
proof -
  have "of_int \<bar>n\<bar> \<le> (of_int (2 ^ 63) :: rat)" using assms by (simp only: of_int_le_iff)
  then have n: "\<bar>of_int n :: rat\<bar> \<le> 2 ^ 63" by simp
  then have "toF64 (of_int n) = Fin (f64Value (of_int n))" by (intro toF64_Fin) simp
  moreover have "\<bar>f64Value (of_int n) - of_int n\<bar> \<le> 1025"
    using f64Value_error [of "of_int n"] n by (simp; linarith)
  ultimately show ?thesis by blast
qed

text \<open>Every step of the computation is at most about a microsecond off.\<close>

lemma toF64_near:
  assumes "\<bar>x\<bar> \<le> 10 ^ 14"
  obtains r where "toF64 x = Fin r" "\<bar>r - x\<bar> \<le> \<bar>x\<bar> / 2 ^ 53 + 1 / 2 ^ 60"
  using toF64_Fin [of x] f64Value_error [of x] assms by (simp; linarith?)

lemma unixSeconds_near:
  assumes "\<bar>n\<bar> \<le> 2 ^ 63"
  obtains r where "unixSeconds n = Fin r" "\<bar>r - of_int n / 1000000000\<bar> \<le> 2051 / 1000000000"
proof -
  from toF64_int64 [OF assms] obtain a where a: "toF64 (of_int n) = Fin a" "\<bar>a - of_int n\<bar> \<le> 1025" by blast
  have "of_int \<bar>n\<bar> \<le> (of_int (2 ^ 63) :: rat)" using assms by (simp only: of_int_le_iff)
  then have n: "\<bar>of_int n :: rat\<bar> \<le> 9223372036854775808" by simp
  with a(2) have b: "\<bar>a / 1000000000\<bar> \<le> 9223372037" by (simp add: abs_le_iff)
  then have "\<bar>a / 1000000000\<bar> \<le> 10 ^ 14" by simp
  then obtain r where r: "toF64 (a / 1000000000) = Fin r"
    "\<bar>r - a / 1000000000\<bar> \<le> \<bar>a / 1000000000\<bar> / 2 ^ 53 + 1 / 2 ^ 60" by (rule toF64_near)
  have "\<bar>r - a / 1000000000\<bar> \<le> 1025 / 1000000000" using r(2) b by simp
  then have "\<bar>r - of_int n / 1000000000\<bar> \<le> 2051 / 1000000000" using a(2) by linarith
  with r(1) a(1) show thesis by (intro that [of r]) (simp_all add: unixSeconds_def fdivBy_def)
qed

text \<open>
  The stamp as it is read back: the publish instant to within 4 microseconds, and positive.
\<close>

lemma trimSpace_fixed6: "trimSpace (fixed6 m) = fixed6 m"
proof (rule trimSpace_id, rule disjI2)
  obtain c t where ct: "fixed6 m = c # t" using fixed6_digits(2) by (cases "fixed6 m") auto
  have p: "\<not> asciiSpace d \<and> ord d < 128" if "digitVal d \<noteq> None" for d
    using that by (auto simp: asciiSpace_def digitVal_def split: if_splits)
  have "last (fixed6 m) \<in> set (pad6 (m mod 1000000))" by (simp add: fixed6_def pad6_def)
  then have "digitVal (last (fixed6 m)) \<noteq> None" using pad6_digitVal by blast
  moreover have "digitVal (hd (fixed6 m)) \<noteq> None" using fixed6_digits(3) [OF ct] by (simp add: ct digitVal_def)
  ultimately show "\<not> asciiSpace (hd (fixed6 m)) \<and> ord (hd (fixed6 m)) < 128
      \<and> \<not> asciiSpace (last (fixed6 m)) \<and> ord (last (fixed6 m)) < 128"
    using p by blast
qed

lemma stamp_read_back:
  assumes "10000 \<le> n" "n < 2 ^ 63"
  obtains r where "parseFloat (trimSpace (formatEnqueuedAt n)) = Some (Fin r)" "trimSpace (formatEnqueuedAt n) \<noteq> []"
    "0 < r" "\<bar>r - of_int n / 1000000000\<bar> \<le> 4 / 1000000"
proof -
  have n: "(10000 :: rat) \<le> of_int n" "(of_int n :: rat) < 9223372036854775808"
    using of_int_le_iff [of 10000 n, where 'a = rat] of_int_less_iff [of n "9223372036854775808", where 'a = rat] assms
    by simp_all
  have "\<bar>n\<bar> \<le> 2 ^ 63" using assms by simp
  then obtain a where a: "unixSeconds n = Fin a" "\<bar>a - of_int n / 1000000000\<bar> \<le> 2051 / 1000000000"
    by (rule unixSeconds_near)
  let ?i = "roundHalfEven (\<bar>a\<bar> * 1000000)"
  have pos: "0 < a" using a(2) n by linarith
  have i: "\<bar>of_int ?i - a * 1000000\<bar> \<le> 1 / 2" using roundHalfEven_error [of "a * 1000000"] pos by simp
  have "(0 :: rat) < of_int ?i" using i a(2) n by linarith
  then have ipos: "0 < ?i" by simp
  define x where "x = (of_nat (nat ?i) :: rat)"
  have x: "\<bar>x - a * 1000000\<bar> \<le> 1 / 2" using i ipos by (simp add: x_def)
  have f: "formatEnqueuedAt n = fixed6 (nat ?i)"
    using pos by (simp add: formatEnqueuedAt_def formatFixed6_def a(1))
  have small: "\<bar>x / 1000000\<bar> \<le> 9223372037" and xa: "\<bar>x / 1000000 - a\<bar> \<le> 1 / 2000000" and xpos: "7 / 1000000 \<le> x / 1000000"
    using x a(2) n by linarith+
  then have "\<bar>x / 1000000\<bar> \<le> 10 ^ 14" by simp
  then obtain r where r: "toF64 (x / 1000000) = Fin r" "\<bar>r - x / 1000000\<bar> \<le> \<bar>x / 1000000\<bar> / 2 ^ 53 + 1 / 2 ^ 60"
    by (rule toF64_near)
  have rx: "\<bar>r - x / 1000000\<bar> \<le> 11 / 10000000" using r(2) small by simp
  have "\<bar>r - of_int n / 1000000000\<bar> \<le> 4 / 1000000" using rx xa a(2) by linarith
  moreover have "0 < r" using rx xpos by linarith
  moreover have "parseFloat (fixed6 (nat ?i)) = Some (Fin r)" using r(1) by (simp add: parse_fixed6 x_def)
  ultimately show thesis by (intro that [of r]) (simp_all add: f trimSpace_fixed6 fixed6_digits(2))
qed

text \<open>What is subtracted, and what the conversion to whole milliseconds makes of it.\<close>

lemma waited_value:
  assumes "10000 \<le> published" "published < 2 ^ 63" "0 \<le> picked" "picked < 2 ^ 63"
  obtains v where
    "waitMilliseconds spill (formatEnqueuedAt published) picked =
       (if v < 0 then None else Some (toInt64 spill (toF64 (v + 1 / 2))))"
    "\<bar>v - (of_int picked - of_int published) / 1000000\<bar> \<le> 86 / 10000" "\<bar>v\<bar> \<le> 10 ^ 13 + 1"
proof -
  let ?d = "of_int picked - of_int published :: rat"
  obtain s where s: "parseFloat (trimSpace (formatEnqueuedAt published)) = Some (Fin s)"
    "trimSpace (formatEnqueuedAt published) \<noteq> []" "0 < s" "\<bar>s - of_int published / 1000000000\<bar> \<le> 4 / 1000000"
    using stamp_read_back [OF assms(1,2)] .
  have "\<bar>picked\<bar> \<le> 2 ^ 63" using assms by simp
  then obtain b where b: "unixSeconds picked = Fin b" "\<bar>b - of_int picked / 1000000000\<bar> \<le> 2051 / 1000000000"
    by (rule unixSeconds_near)
  have n: "(0 :: rat) \<le> of_int picked" "(of_int picked :: rat) < 9223372036854775808"
    "(0 :: rat) \<le> of_int published" "(of_int published :: rat) < 9223372036854775808"
    using of_int_less_iff [of published "9223372036854775808", where 'a = rat]
      of_int_less_iff [of picked "9223372036854775808", where 'a = rat] assms by simp_all
  have d: "\<bar>b - s\<bar> \<le> 10 ^ 10" using b(2) s(4) n by (simp; linarith)
  then have "\<bar>b - s\<bar> \<le> 10 ^ 14" by simp
  then obtain w where w: "toF64 (b - s) = Fin w" "\<bar>w - (b - s)\<bar> \<le> \<bar>b - s\<bar> / 2 ^ 53 + 1 / 2 ^ 60"
    by (rule toF64_near)
  have w1: "\<bar>w - (b - s)\<bar> \<le> 12 / 10000000" using w(2) d by simp
  have w2: "\<bar>w * 1000\<bar> \<le> 10 ^ 13 + 1 / 2" using w1 d by (simp; linarith)
  then have "\<bar>w * 1000\<bar> \<le> 10 ^ 14" by simp
  then obtain v where v: "toF64 (w * 1000) = Fin v" "\<bar>v - w * 1000\<bar> \<le> \<bar>w * 1000\<bar> / 2 ^ 53 + 1 / 2 ^ 60"
    by (rule toF64_near)
  have v1: "\<bar>v - w * 1000\<bar> \<le> 12 / 10000" using v(2) w2 by simp
  show thesis
  proof (rule that [of v])
    show "waitMilliseconds spill (formatEnqueuedAt published) picked =
        (if v < 0 then None else Some (toInt64 spill (toF64 (v + 1 / 2))))"
      using s b w(1) v(1)
      by (simp add: waitMilliseconds_def Let_def fle_def fless_def fsub_def fneg_def fadd_def fmulBy_def)
    have "\<bar>b - s - ?d / 1000000000\<bar> \<le> 6051 / 1000000000" using b(2) s(4) unfolding diff_divide_distrib by linarith
    with w1 have "\<bar>w - ?d / 1000000000\<bar> \<le> 7251 / 1000000000" by linarith
    with v1 show "\<bar>v - ?d / 1000000\<bar> \<le> 86 / 10000" by linarith
    show "\<bar>v\<bar> \<le> 10 ^ 13 + 1" using v1 w2 by (simp; linarith)
  qed
qed

lemma rounded_wait:
  assumes "0 \<le> v" "\<bar>v\<bar> \<le> 10 ^ 13 + 1"
  shows "\<bar>of_int (toInt64 spill (toF64 (v + 1 / 2))) - v\<bar> \<le> 5012 / 10000"
proof -
  have b: "\<bar>v + 1 / 2\<bar> \<le> 10 ^ 13 + 2" using assms by simp
  then have "\<bar>v + 1 / 2\<bar> \<le> 10 ^ 14" by simp
  then obtain u where u: "toF64 (v + 1 / 2) = Fin u" "\<bar>u - (v + 1 / 2)\<bar> \<le> \<bar>v + 1 / 2\<bar> / 2 ^ 53 + 1 / 2 ^ 60"
    by (rule toF64_near)
  have e: "\<bar>u - (v + 1 / 2)\<bar> \<le> 12 / 10000" using u(2) b by simp
  have u0: "0 \<le> u" using e assms(1) by linarith
  have "u < 2 ^ 63" using e b by (simp; linarith)
  then have "\<lfloor>u\<rfloor> < 2 ^ 63" by (simp add: floor_less_iff)
  then have "toInt64 spill (Fin u) = \<lfloor>u\<rfloor>" using u0 by (simp add: toInt64_def)
  moreover have "\<bar>of_int \<lfloor>u\<rfloor> - v\<bar> \<le> 5012 / 10000"
  proof -
    have "of_int \<lfloor>u\<rfloor> \<le> u" "u < of_int \<lfloor>u\<rfloor> + 1" by linarith+
    then show ?thesis using e by linarith
  qed
  ultimately show ?thesis using u(1) by simp
qed

text \<open>
  C35: the wait a consumer reports is the one that passed.  A message stamped at one instant and picked
  up at another, both after the epoch and in the range of the clock: when more than 10 microseconds
  passed, a wait is reported, and it is off by at most 0.51 milliseconds; when the consumer's clock is
  more than 10 microseconds behind the stamp, none is.
\<close>

theorem reported_wait_accurate:
  assumes "10000 \<le> published" "published < 2 ^ 63" "0 \<le> picked" "picked < 2 ^ 63"
  shows "case waitMilliseconds spill (formatEnqueuedAt published) picked of
           Some ms \<Rightarrow> - 10000 \<le> picked - published \<and> \<bar>1000000 * ms - (picked - published)\<bar> \<le> 510000
         | None \<Rightarrow> picked - published \<le> 10000"
proof -
  let ?d = "of_int picked - of_int published :: rat"
  obtain v where v: "waitMilliseconds spill (formatEnqueuedAt published) picked =
      (if v < 0 then None else Some (toInt64 spill (toF64 (v + 1 / 2))))"
    "\<bar>v - ?d / 1000000\<bar> \<le> 86 / 10000" "\<bar>v\<bar> \<le> 10 ^ 13 + 1"
    using waited_value [OF assms] .
  show ?thesis
  proof (cases "v < 0")
    case True
    then have "?d \<le> of_int 10000" using v(2) unfolding diff_divide_distrib of_int_numeral by linarith
    then have "picked - published \<le> 10000" by (simp only: of_int_le_iff flip: of_int_diff)
    then show ?thesis using True v(1) by simp
  next
    case False
    let ?ms = "toInt64 spill (toF64 (v + 1 / 2))"
    have "\<bar>of_int ?ms - v\<bar> \<le> 5012 / 10000" using rounded_wait v(3) False by simp
    then have "\<bar>of_int ?ms - ?d / 1000000\<bar> \<le> 51 / 100" using v(2) by linarith
    then have "\<bar>1000000 * of_int ?ms - ?d\<bar> \<le> 510000" unfolding diff_divide_distrib by linarith
    then have "of_int \<bar>1000000 * ?ms - (picked - published)\<bar> \<le> (of_int 510000 :: rat)" by simp
    then have "\<bar>1000000 * ?ms - (picked - published)\<bar> \<le> 510000" by (simp only: of_int_le_iff)
    moreover have "- 10000 \<le> ?d" using v(2) False unfolding diff_divide_distrib by linarith
    then have "of_int (- 10000) \<le> ?d" by simp
    then have "- 10000 \<le> picked - published" by (simp only: of_int_le_iff flip: of_int_diff)
    ultimately show ?thesis using False v(1) by simp
  qed
qed

theorem reported_wait_accurate_witness:
  "case waitMilliseconds (\<lambda>_. 0) (formatEnqueuedAt 1700000000000000000) 1700000000250000000 of
     Some ms \<Rightarrow> \<bar>1000000 * ms - 250000000\<bar> \<le> 510000 | None \<Rightarrow> False"
  using reported_wait_accurate [of 1700000000000000000 1700000000250000000 "\<lambda>_. 0"]
  by (auto split: option.splits)

text \<open>
  A stamp that spells a NaN passes every check: whatever the instant, a wait is reported, and its
  value is whatever the conversion of a NaN to an integer gives.
\<close>

theorem nan_stamp_reported:
  "waitMilliseconds spill ''NaN'' picked = Some (toInt64 spill NaN)"
proof -
  have t: "trimSpace ''NaN'' = ''NaN''" by (rule trimSpace_id) (simp add: asciiSpace_def)
  have p: "parseFloat ''NaN'' = Some NaN"
    by (simp add: parseFloat_def dropSign_def lowerAscii_def charOf_eq)
  obtain x where "unixSeconds picked = x" by blast
  then have "fsub (unixSeconds picked) NaN = NaN"
    by (cases x) (simp_all add: fsub_def fneg_def fadd_def)
  then show ?thesis
    by (simp add: waitMilliseconds_def t p fle_def fless_def fmulBy_def fadd_def)
qed

text \<open>A stamp that is no number, or none above zero, is unknown.\<close>

theorem unknown_waits:
  assumes "case parseFloat (trimSpace stamp) of None \<Rightarrow> True | Some x \<Rightarrow> fle x (Fin 0)"
  shows "waitMilliseconds spill stamp picked = None"
  using assms by (cases "parseFloat (trimSpace stamp)") (simp_all add: waitMilliseconds_def Let_def)

end
