(* ===== verification/Sarama.thy ===== *)
theory Sarama
  imports Messaging QueueWait
begin

text \<open>
  \<open>contrib/sarama/sarama.go\<close>: the trace context in Kafka record headers, the instrumented producer,
  and the proxy of a claim's message channel.  The client of \<open>github.com/IBM/sarama\<close> is an argument.
\<close>

subsection \<open>Headers\<close>

type_synonym headers = "(bytes \<times> bytes) list"

definition setHeader :: "string \<Rightarrow> string \<Rightarrow> headers \<Rightarrow> headers" where
  "setHeader key v hs =
     (if v = [] then hs
      else if list_ex (\<lambda>(k, _). equalFold k key) hs then hs
      else hs @ [(key, v)])"

definition inject :: "ctx \<Rightarrow> string \<Rightarrow> headers \<Rightarrow> headers" where
  "inject c stamp hs =
     setHeader ''x-chronos-enqueued-at'' stamp
       (setHeader ''baggage'' (baggageFromContext c)
         (setHeader ''tracestate'' (tracestateFromContext c)
           (setHeader ''traceparent'' (spanTraceparent c) hs)))"

record inbound =
  ibTraceparent :: string
  ibTracestate :: string
  ibBaggage :: string
  ibEnqueuedAt :: string

definition readHeader :: "(bytes \<times> bytes) option \<Rightarrow> inbound \<Rightarrow> inbound" where
  "readHeader h ib = (case h of None \<Rightarrow> ib
     | Some (k, v) \<Rightarrow>
         (if equalFold k ''traceparent'' then ib\<lparr>ibTraceparent := v\<rparr>
          else if equalFold k ''tracestate'' then ib\<lparr>ibTracestate := v\<rparr>
          else if equalFold k ''baggage'' then ib\<lparr>ibBaggage := v\<rparr>
          else if equalFold k ''x-chronos-enqueued-at'' then ib\<lparr>ibEnqueuedAt := v\<rparr>
          else ib))"

definition extractContext :: "(bytes \<times> bytes) option list \<Rightarrow> remoteContext \<times> string" where
  "extractContext hs =
     (let ib = fold readHeader hs \<lparr>ibTraceparent = [], ibTracestate = [], ibBaggage = [], ibEnqueuedAt = []\<rparr>
      in case parseTraceparentContext (ibTraceparent ib) of
           None \<Rightarrow> (noRemote, ibEnqueuedAt ib)
         | Some r \<Rightarrow> (r\<lparr>rcTracestate := normalizeTracestate (ibTracestate ib), rcBaggage := normalizeBaggage (ibBaggage ib)\<rparr>,
                      ibEnqueuedAt ib))"

subsection \<open>Producing\<close>

text \<open>An encoder gives its length and the result of \<open>Encode\<close>; a key is text when it is a \<open>StringEncoder\<close>.\<close>

record encoder =
  ecLength :: int
  ecBytes :: "bytes option"

datatype keyEncoder = StringKey string | OtherKey

record producerMessage =
  pmTopic :: string
  pmKey :: "keyEncoder option"
  pmValue :: "encoder option"
  pmHeaders :: headers

definition encoderLength :: "encoder option \<Rightarrow> int" where
  "encoderLength e = (case e of None \<Rightarrow> - 1 | Some x \<Rightarrow> ecLength x)"

definition encoderBytes :: "client option \<Rightarrow> encoder option \<Rightarrow> bytes" where
  "encoderBytes co e = (case e of None \<Rightarrow> []
     | Some x \<Rightarrow> if captureMessagingBodies co then (case ecBytes x of None \<Rightarrow> [] | Some b \<Rightarrow> b) else [])"

definition keyOf :: "keyEncoder option \<Rightarrow> string" where
  "keyOf k = (case k of Some (StringKey s) \<Rightarrow> s | _ \<Rightarrow> [])"

definition publishSpan :: "client option \<Rightarrow> string \<Rightarrow> producerMessage \<Rightarrow> messagingSpan" where
  "publishSpan co brokers m =
     \<lparr>msSystem = ''kafka'', msOperation = operationPublish, msDestination = pmTopic m, msServer = brokers,
      msPartition = - 1, msOffset = - 1, msBodySize = encoderLength (pmValue m),
      msBody = encoderBytes co (pmValue m), msMessageID = keyOf (pmKey m), msConsumerGroup = []\<rparr>"

text \<open>
  What one span takes from the outside: the clock as \<open>StartSpan\<close> reads it, random bytes, and the clock
  as \<open>inject\<close> (publishing) or \<open>startProcessSpan\<close> (consuming) reads it.
\<close>

record entropyStamp =
  esNow :: int
  esTrace :: bytes
  esSpan :: bytes
  esStamp :: int

text \<open>The span of one message and the message with its headers.\<close>

definition preparePublish ::
  "client option \<Rightarrow> string \<Rightarrow> entropyStamp \<Rightarrow> ctx \<Rightarrow> producerMessage \<Rightarrow> span \<times> producerMessage" where
  "preparePublish co brokers en c m =
     (case startMessagingSpan co c (publishSpan co brokers m) (esNow en) (esTrace en) (esSpan en) of (c', s) \<Rightarrow>
       (s, m\<lparr>pmHeaders := inject c' (formatEnqueuedAt (esStamp en)) (pmHeaders m)\<rparr>))"

text \<open>\<open>SendMessageContext\<close>: the partition, offset and error of the underlying send, and the span as ended.\<close>

definition sendMessageContext ::
  "client option \<Rightarrow> string \<Rightarrow> entropyStamp \<Rightarrow> (producerMessage \<Rightarrow> 'p \<Rightarrow> (int \<times> int \<times> string option) \<times> 'p)
    \<Rightarrow> ctx \<Rightarrow> producerMessage \<Rightarrow> 'p \<Rightarrow> (int \<times> int \<times> string option) \<times> span \<times> 'p" where
  "sendMessageContext co brokers en send c m p =
     (case preparePublish co brokers en c m of (s, m') \<Rightarrow>
       (case send m' p of ((part, off, err), p') \<Rightarrow>
         ((part, off, err),
          (case err of
             Some msg \<Rightarrow> setAttribute ''error.message'' msg (setStatus ''error'' s)
           | None \<Rightarrow> setAttribute ''messaging.kafka.offset'' (itoa off)
                       (setAttribute ''messaging.kafka.partition'' (itoa part) s)), p')))"

text \<open>\<open>SendMessagesContext\<close>: one span per message that is there, around one call.\<close>

definition sendMessagesContext ::
  "client option \<Rightarrow> string \<Rightarrow> (nat \<Rightarrow> entropyStamp) \<Rightarrow> (producerMessage option list \<Rightarrow> 'p \<Rightarrow> string option \<times> 'p)
    \<Rightarrow> ctx \<Rightarrow> producerMessage option list \<Rightarrow> 'p \<Rightarrow> string option \<times> span list \<times> 'p" where
  "sendMessagesContext co brokers en send c ms p =
     (let prepared = map (\<lambda>(i, mo). map_option (preparePublish co brokers (en i) c) mo) (enumerate 0 ms)
      in case send (map (map_option snd) prepared) p of
           (err, p') \<Rightarrow> (err, map (markError err) (List.map_filter (map_option fst) prepared), p'))"

subsection \<open>Consuming\<close>

record consumerMessage =
  cmTopic :: string
  cmKey :: bytes
  cmValue :: bytes
  cmPartition :: int
  cmOffset :: int
  cmHeaders :: "(bytes \<times> bytes) option list"

definition consumeBody :: "client option \<Rightarrow> bytes \<Rightarrow> bytes" where
  "consumeBody co v = (if captureMessagingBodies co then v else [])"

definition startProcessSpan ::
  "(f64 \<Rightarrow> int) \<Rightarrow> entropyStamp \<Rightarrow> client option \<Rightarrow> string \<Rightarrow> ctx \<Rightarrow> consumerMessage \<Rightarrow> ctx \<times> span" where
  "startProcessSpan spill en co grp c m =
     (case extractContext (cmHeaders m) of (remote, enqueuedAt) \<Rightarrow>
       (case startMessagingSpan co (contextWithRemoteContext (esNow en) c remote)
            \<lparr>msSystem = ''kafka'', msOperation = operationProcess, msDestination = cmTopic m, msServer = [],
             msPartition = cmPartition m, msOffset = cmOffset m, msBodySize = int (length (cmValue m)),
             msBody = consumeBody co (cmValue m), msMessageID = cmKey m, msConsumerGroup = grp\<rparr>
            (esNow en) (esTrace en) (esSpan en) of (c', s) \<Rightarrow>
         (case waitMilliseconds spill enqueuedAt (esStamp en) of None \<Rightarrow> (c', s)
          | Some ms \<Rightarrow> (let s' = setAttribute ''messaging.message.queue_time_ms'' (itoa ms) s
                        in (if tracingOn co then Some s' else c', s')))))"

subsection \<open>The proxied claim\<close>

text \<open>
  The goroutine of \<open>Messages\<close>, the source channel it ranges over, and the handler at the other end
  of the unbuffered channel.  \<open>cpOpened\<close>, \<open>cpEnded\<close> and \<open>cpDelivered\<close> are histories.
\<close>

datatype 'm proxyPhase = Receiving | Sending 'm | Closed
datatype 'm handlerPhase = Asking | Working 'm

record 'm claimProxy =
  cpSource :: "'m list"
  cpSourceClosed :: bool
  cpPhase :: "'m proxyPhase"
  cpOpen :: "'m option"
  cpHandler :: "'m handlerPhase"
  cpOpened :: "'m list"
  cpEnded :: "'m list"
  cpDelivered :: "'m list"

definition claimStart :: "'m claimProxy" where
  "claimStart = \<lparr>cpSource = [], cpSourceClosed = False, cpPhase = Receiving, cpOpen = None, cpHandler = Asking,
     cpOpened = [], cpEnded = [], cpDelivered = []\<rparr>"

text \<open>\<open>open.End()\<close>; a nil span does nothing.\<close>

definition endOpen :: "'m claimProxy \<Rightarrow> 'm claimProxy" where
  "endOpen p = (case cpOpen p of None \<Rightarrow> p | Some m \<Rightarrow> p\<lparr>cpEnded := cpEnded p @ [m], cpOpen := None\<rparr>)"

inductive claimStep :: "'m claimProxy \<Rightarrow> 'm claimProxy \<Rightarrow> bool" where
  arrive: "\<not> cpSourceClosed p \<Longrightarrow> claimStep p (p\<lparr>cpSource := cpSource p @ [m]\<rparr>)"
| shut: "claimStep p (p\<lparr>cpSourceClosed := True\<rparr>)"
| receive: "cpPhase p = Receiving \<Longrightarrow> cpSource p = m # rest \<Longrightarrow>
    claimStep p ((endOpen p)\<lparr>cpSource := rest, cpOpen := Some m, cpOpened := cpOpened p @ [m], cpPhase := Sending m\<rparr>)"
| deliver: "cpPhase p = Sending m \<Longrightarrow> cpHandler p = Asking \<Longrightarrow>
    claimStep p (p\<lparr>cpPhase := Receiving, cpHandler := Working m, cpDelivered := cpDelivered p @ [m]\<rparr>)"
| next_message: "cpHandler p = Working m \<Longrightarrow> claimStep p (p\<lparr>cpHandler := Asking\<rparr>)"
| finished: "cpPhase p = Receiving \<Longrightarrow> cpSource p = [] \<Longrightarrow> cpSourceClosed p \<Longrightarrow>
    claimStep p ((endOpen p)\<lparr>cpPhase := Closed\<rparr>)"

inductive claimReach :: "'m claimProxy \<Rightarrow> bool" where
  start: "claimReach claimStart"
| step: "claimReach p \<Longrightarrow> claimStep p q \<Longrightarrow> claimReach q"

inductive_cases claimStepE: "claimStep p q"

subsection \<open>Results\<close>

definition absent :: "string \<Rightarrow> headers \<Rightarrow> bool" where
  "absent key hs \<longleftrightarrow> \<not> list_ex (\<lambda>(k, _). equalFold k key) hs"

definition present :: "string \<Rightarrow> string \<Rightarrow> headers" where
  "present key v = (if v = [] then [] else [(key, v)])"

lemma setHeader_absent: "absent key hs \<Longrightarrow> setHeader key v hs = hs @ present key v"
  by (simp add: setHeader_def absent_def present_def)

lemma absent_append [simp]: "absent key (hs @ hs') \<longleftrightarrow> absent key hs \<and> absent key hs'"
  by (simp add: absent_def)

lemma absent_present [simp]: "absent key (present k v) \<longleftrightarrow> v = [] \<or> \<not> equalFold k key"
  by (simp add: absent_def present_def)

definition contextKeys :: "string list" where
  "contextKeys = [''traceparent'', ''tracestate'', ''baggage'', ''x-chronos-enqueued-at'']"

lemma equalFold_distinct:
  "\<not> equalFold ''tracestate'' ''traceparent''" "\<not> equalFold ''baggage'' ''traceparent''"
  "\<not> equalFold ''x-chronos-enqueued-at'' ''traceparent''" "\<not> equalFold ''baggage'' ''tracestate''"
  "\<not> equalFold ''x-chronos-enqueued-at'' ''tracestate''" "\<not> equalFold ''x-chronos-enqueued-at'' ''baggage''"
  "\<not> equalFold ''traceparent'' ''tracestate''" "\<not> equalFold ''traceparent'' ''baggage''"
  "\<not> equalFold ''tracestate'' ''baggage''" "\<not> equalFold ''traceparent'' ''x-chronos-enqueued-at''"
  "\<not> equalFold ''tracestate'' ''x-chronos-enqueued-at''" "\<not> equalFold ''baggage'' ''x-chronos-enqueued-at''"
  by (simp_all add: equalFold_ascii asciiLower_def)

lemma equalFold_same:
  "equalFold ''traceparent'' ''traceparent''" "equalFold ''tracestate'' ''tracestate''" "equalFold ''baggage'' ''baggage''"
  "equalFold ''x-chronos-enqueued-at'' ''x-chronos-enqueued-at''"
  by (simp_all add: equalFold_ascii asciiLower_def)

lemma inject_absent:
  assumes "list_all (\<lambda>key. absent key hs) contextKeys"
  shows "inject c stamp hs = hs @ present ''traceparent'' (spanTraceparent c) @ present ''tracestate'' (tracestateFromContext c)
    @ present ''baggage'' (baggageFromContext c) @ present ''x-chronos-enqueued-at'' stamp"
  using assms by (simp add: inject_def setHeader_absent contextKeys_def equalFold_distinct)

lemma read_foreign:
  "list_all (\<lambda>key. absent key hs) contextKeys \<Longrightarrow> fold readHeader (map Some hs) ib = ib"
  by (induction hs arbitrary: ib) (auto simp: contextKeys_def absent_def readHeader_def)

lemma read_present:
  "fold readHeader (map Some (present ''traceparent'' v)) ib = (if v = [] then ib else ib\<lparr>ibTraceparent := v\<rparr>)"
  "fold readHeader (map Some (present ''tracestate'' v)) ib = (if v = [] then ib else ib\<lparr>ibTracestate := v\<rparr>)"
  "fold readHeader (map Some (present ''baggage'' v)) ib = (if v = [] then ib else ib\<lparr>ibBaggage := v\<rparr>)"
  "fold readHeader (map Some (present ''x-chronos-enqueued-at'' v)) ib = (if v = [] then ib else ib\<lparr>ibEnqueuedAt := v\<rparr>)"
  by (simp_all add: present_def readHeader_def equalFold_distinct equalFold_same)

text \<open>
  A trace crosses the broker.  On a message whose caller set none of the four headers, under any
  other headers, what a consumer extracts from an injected message is the identity, the sampling
  decision, the normalised tracestate and baggage of the span in the publisher's context, and the
  publish stamp.
\<close>

theorem kafka_context_roundtrip:
  assumes "list_all (\<lambda>key. absent key hs) contextKeys" "validIds (spTraceID sp) (spSpanID sp)"
  shows "extractContext (map Some (inject (Some sp) stamp hs)) =
    (\<lparr>rcTraceID = spTraceID sp, rcSpanID = spSpanID sp, rcSampled = spSampled sp,
      rcTracestate = normalizeTracestate (spTracestate sp), rcBaggage = normalizeBaggage (spBaggage sp)\<rparr>, stamp)"
proof -
  let ?none = "\<lparr>ibTraceparent = [], ibTracestate = [], ibBaggage = [], ibEnqueuedAt = []\<rparr>"
  have ib: "fold readHeader (map Some (inject (Some sp) stamp hs)) ?none =
      \<lparr>ibTraceparent = spanTraceparent (Some sp), ibTracestate = spTracestate sp, ibBaggage = spBaggage sp, ibEnqueuedAt = stamp\<rparr>"
    unfolding inject_absent [OF assms(1)] map_append fold_append comp_def read_foreign [OF assms(1)] read_present
    by (simp add: tracestateFromContext_def baggageFromContext_def)
  have "parseTraceparentContext (spanTraceparent (Some sp)) =
      Some (noRemote\<lparr>rcTraceID := spTraceID sp, rcSpanID := spSpanID sp, rcSampled := spSampled sp\<rparr>)"
    using parse_format [OF assms(2)] by (simp add: spanTraceparent_def)
  then show ?thesis unfolding extractContext_def ib by (simp add: noRemote_def)
qed

theorem kafka_context_roundtrip_witness:
  "extractContext (map Some (inject (Some (zeroSpan\<lparr>spTraceID := w3cTrace, spSpanID := w3cSpan, spSampled := True\<rparr>)) ''1700000000.250000'' [(''Content-Type'', ''json'')]))
    = (\<lparr>rcTraceID = w3cTrace, rcSpanID = w3cSpan, rcSampled = True,
        rcTracestate = normalizeTracestate [], rcBaggage = normalizeBaggage []\<rparr>, ''1700000000.250000'')"
proof -
  have "list_all (\<lambda>key. absent key [(''Content-Type'', ''json'')]) contextKeys"
    by (simp add: contextKeys_def absent_def equalFold_ascii asciiLower_def)
  then show ?thesis
    using kafka_context_roundtrip [of "[(''Content-Type'', ''json'')]" "zeroSpan\<lparr>spTraceID := w3cTrace, spSpanID := w3cSpan, spSampled := True\<rparr>"] w3c_valid
    by (simp add: zeroSpan_def)
qed

definition claimInv :: "'m claimProxy \<Rightarrow> bool" where
  "claimInv p \<longleftrightarrow> cpOpened p = cpEnded p @ (case cpOpen p of None \<Rightarrow> [] | Some m \<Rightarrow> [m])
     \<and> cpOpened p = cpDelivered p @ (case cpPhase p of Sending m \<Rightarrow> [m] | _ \<Rightarrow> [])
     \<and> (case cpPhase p of Sending m \<Rightarrow> cpOpen p = Some m | Closed \<Rightarrow> cpOpen p = None | _ \<Rightarrow> True)
     \<and> (case cpHandler p of Working m \<Rightarrow> m \<in> set (cpDelivered p) | _ \<Rightarrow> True)"

lemma endOpen_simps [simp]:
  "cpOpened (endOpen p) = cpOpened p" "cpDelivered (endOpen p) = cpDelivered p" "cpHandler (endOpen p) = cpHandler p"
  "cpPhase (endOpen p) = cpPhase p" "cpSource (endOpen p) = cpSource p" "cpOpen (endOpen p) = None"
  "cpEnded (endOpen p) = cpEnded p @ (case cpOpen p of None \<Rightarrow> [] | Some m \<Rightarrow> [m])"
  by (simp_all add: endOpen_def split: option.splits)

lemma claimInv_step: "claimStep p q \<Longrightarrow> claimInv p \<Longrightarrow> claimInv q"
  by (erule claimStepE) (auto simp: claimInv_def split: proxyPhase.splits handlerPhase.splits)

lemma claimReach_inv: "claimReach p \<Longrightarrow> claimInv p"
  by (induction rule: claimReach.induct) (auto simp: claimInv_step, simp add: claimInv_def claimStart_def)

text \<open>
  C9: every message of a claim is one span.  In every interleaving of the broker, the proxy and the
  handler, the spans opened are those of the messages handed over, in order, and of the one being
  handed over; each but the open one has ended once; and when the proxy is done all have ended.
\<close>

theorem claim_spans_balanced:
  assumes "claimReach p"
  shows "cpOpened p = cpEnded p @ (case cpOpen p of None \<Rightarrow> [] | Some m \<Rightarrow> [m])
    \<and> cpOpened p = cpDelivered p @ (case cpPhase p of Sending m \<Rightarrow> [m] | _ \<Rightarrow> [])
    \<and> (case cpPhase p of Closed \<Rightarrow> cpEnded p = cpDelivered p | _ \<Rightarrow> True)"
  using claimReach_inv [OF assms] by (auto simp: claimInv_def split: proxyPhase.splits)

text \<open>A run: two messages waiting, the first handed over, the second taken from the source.\<close>

definition secondTaken :: "string claimProxy" where
  "secondTaken = \<lparr>cpSource = [], cpSourceClosed = False, cpPhase = Sending ''m2'', cpOpen = Some ''m2'', cpHandler = Working ''m1'',
     cpOpened = [''m1'', ''m2''], cpEnded = [''m1''], cpDelivered = [''m1'']\<rparr>"

lemma secondTaken_reach: "claimReach secondTaken"
proof -
  have 1: "claimReach (claimStart\<lparr>cpSource := [''m1'', ''m2'']\<rparr>)"
    using step [OF step [OF start arrive [of _ "''m1''"]] arrive [of _ "''m2''"]] by (simp add: claimStart_def)
  have 2: "claimReach (claimStart\<lparr>cpSource := [''m2''], cpOpen := Some ''m1'', cpOpened := [''m1''], cpPhase := Sending ''m1''\<rparr>)"
    using step [OF 1 receive [of _ "''m1''" "[''m2'']"]] by (simp add: claimStart_def endOpen_def)
  have 3: "claimReach (claimStart\<lparr>cpSource := [''m2''], cpOpen := Some ''m1'', cpOpened := [''m1''], cpDelivered := [''m1''], cpHandler := Working ''m1''\<rparr>)"
    using step [OF 2 deliver [of _ "''m1''"]] by (simp add: claimStart_def)
  show ?thesis
    using step [OF 3 receive [of _ "''m2''" "[]"]] by (simp add: claimStart_def endOpen_def secondTaken_def)
qed

theorem claim_spans_balanced_witness:
  "cpOpened secondTaken = cpEnded secondTaken @ [''m2'']"
  using claim_spans_balanced [OF secondTaken_reach] by (simp add: secondTaken_def)

text \<open>
  With a backlog a span does not cover the work on its message.  Whenever the proxy has taken the
  next message while the handler works on one, the span of the message being worked on has already
  ended, and the span that is running is that of the message not yet handed over.
\<close>

theorem claim_span_ends_early:
  assumes "claimReach p" "cpPhase p = Sending n" "cpHandler p = Working m"
  shows "m \<in> set (cpEnded p) \<and> cpOpen p = Some n \<and> cpEnded p = cpDelivered p"
  using claimReach_inv [OF assms(1)] assms(2,3) by (auto simp: claimInv_def)

theorem claim_span_ends_early_witness:
  "''m1'' \<in> set (cpEnded secondTaken) \<and> cpHandler secondTaken = Working ''m1''"
  using claim_span_ends_early [OF secondTaken_reach, of "''m2''" "''m1''"] by (simp add: secondTaken_def)

end
