(* ===== verification/SaramaBatch.thy ===== *)
theory SaramaBatch
  imports Sarama
begin

text \<open>
  \<open>contrib/sarama/batch.go\<close>: the consumer that accumulates a claim into batches, and the spans of one
  batch.  Messages are pointers in Go; here a message is its identity, a natural number.
\<close>

datatype messageSpans = MessageSpansOnDemand | MessageSpansAlways | MessageSpansNever

record batchOptions =
  boGroup :: string
  boMessageSpans :: messageSpans
  boMaxRecords :: int
  boMaxBytes :: int
  boMaxWait :: int

definition batchMaxWait :: "batchOptions \<Rightarrow> int" where
  "batchMaxWait opts = (if boMaxWait opts > 0 then boMaxWait opts else 1000000000)"


subsection \<open>Accumulating a claim\<close>

text \<open>
  What the \<open>select\<close> of \<open>ConsumeClaim\<close> sees, in order; a nil message is the closed channel.  \<open>flush\<close> is
  the wrapped handler on a batch and its trigger, with the error it returns.
\<close>

datatype 'm claimEvent = Message 'm | ChannelClosed | TimerFired | SessionDone



subsection \<open>The spans of one batch\<close>

text \<open>
  \<open>Minted i\<close> is the \<open>i\<close>-th message span of the batch; a context can also carry the span of the caller
  (\<open>Ambient\<close>), the placeholder of a remote parent, which is ended from the start, or none.
\<close>

datatype spanRef = Minted nat | Ambient | RemotePlaceholder | NoSpan

datatype batchCtx = OfBatch | OfMessage spanRef

record batch =
  btPolicy :: messageSpans
  btMessages :: "nat option list"
  btContexts :: "(nat \<times> spanRef) list"
  btOpen :: "spanRef option"
  btOpenMessage :: "nat option"
  btSpans :: "spanRef list"
  btTraced :: nat
  btEnds :: "spanRef list"
  btFailed :: "spanRef list"
  btEnded :: bool

text \<open>
  What \<open>startProcessSpan\<close> leaves in the context: the new span when the client traces; otherwise the
  context it was given, with the placeholder if the message carries a valid parent.  \<open>batchEnv\<close> says
  which.
\<close>

record batchEnv =
  beTracing :: bool
  beAmbient :: bool
  beRemote :: "nat \<Rightarrow> bool"

definition contextRef :: "batchEnv \<Rightarrow> nat \<Rightarrow> nat \<Rightarrow> spanRef" where
  "contextRef E i m =
     (if beTracing E then Minted i else if beRemote E m then RemotePlaceholder
      else if beAmbient E then Ambient else NoSpan)"

text \<open>\<open>End\<close>: the spans that were still running are added to the history.\<close>

definition endRef :: "spanRef \<Rightarrow> batch \<Rightarrow> batch" where
  "endRef r b = (if r \<in> {RemotePlaceholder, NoSpan} \<or> r \<in> set (btEnds b) then b else b\<lparr>btEnds := btEnds b @ [r]\<rparr>)"

definition batchStart :: "batchEnv \<Rightarrow> nat \<Rightarrow> batch \<Rightarrow> spanRef \<times> spanRef \<times> batch" where
  "batchStart E m b = (case map_of (btContexts b) m of
     Some r \<Rightarrow> (r, r, b)
   | None \<Rightarrow>
       (let i = btTraced b; r = contextRef E i m
        in (r, Minted i, b\<lparr>btContexts := AList.update m r (btContexts b), btSpans := btSpans b @ [Minted i],
                           btTraced := Suc (btTraced b)\<rparr>)))"

definition endOpenSpan :: "batch \<Rightarrow> batch" where
  "endOpenSpan b = (case btOpen b of None \<Rightarrow> b | Some r \<Rightarrow> endRef r b)"

definition contextFor :: "batchEnv \<Rightarrow> nat option \<Rightarrow> batch \<Rightarrow> batchCtx \<times> batch" where
  "contextFor E mo b = (case mo of
     None \<Rightarrow> (OfBatch, b)
   | Some m \<Rightarrow>
       (case map_of (btContexts b) m of
          Some r \<Rightarrow> (OfMessage r, b)
        | None \<Rightarrow>
            if btPolicy b = MessageSpansNever then (OfBatch, b)
            else (let b1 = (if btOpenMessage b \<noteq> Some m then (endOpenSpan b)\<lparr>btOpen := None, btOpenMessage := None\<rparr> else b)
                  in case batchStart E m b1 of (r, s, b2) \<Rightarrow>
                       (OfMessage r, b2\<lparr>btOpen := Some s, btOpenMessage := Some m\<rparr>))))"

text \<open>One iteration of \<open>Each\<close>; \<open>fails m\<close> says that the function returns an error on \<open>m\<close>.\<close>

definition eachOne :: "batchEnv \<Rightarrow> (nat \<Rightarrow> bool) \<Rightarrow> nat \<Rightarrow> batch \<Rightarrow> bool \<times> batch" where
  "eachOne E fails m b =
     (if btPolicy b = MessageSpansNever then (fails m, b)
      else (let b1 = (if btOpenMessage b = Some m then b\<lparr>btOpen := None, btOpenMessage := None\<rparr> else b)
            in case batchStart E m b1 of (_, s, b2) \<Rightarrow>
                 (fails m, endRef s (if fails m then b2\<lparr>btFailed := btFailed b2 @ [s]\<rparr> else b2))))"

fun eachFrom :: "batchEnv \<Rightarrow> (nat \<Rightarrow> bool) \<Rightarrow> nat option list \<Rightarrow> batch \<Rightarrow> bool \<times> batch" where
  "eachFrom E fails [] b = (False, b)"
| "eachFrom E fails (None # ms) b = eachFrom E fails ms b"
| "eachFrom E fails (Some m # ms) b = (case eachOne E fails m b of
     (True, b') \<Rightarrow> (True, b')
   | (False, b') \<Rightarrow> eachFrom E fails ms b')"

definition batchEnd :: "batch \<Rightarrow> batch" where
  "batchEnd b = (if btEnded b then b
     else (fold endRef (btSpans b) b)\<lparr>btOpen := None, btOpenMessage := None, btEnded := True\<rparr>)"

text \<open>The handler: the calls it makes on the batch, in order.\<close>

datatype batchCall = ContextFor "nat option" | Each "nat \<Rightarrow> bool"

fun batchCallStep :: "batchEnv \<Rightarrow> batchCall \<Rightarrow> batch \<Rightarrow> batch" where
  "batchCallStep E (ContextFor mo) b = snd (contextFor E mo b)"
| "batchCallStep E (Each fails) b = snd (eachFrom E fails (btMessages b) b)"

definition startAll :: "batchEnv \<Rightarrow> batch \<Rightarrow> batch" where
  "startAll E b = (if btPolicy b = MessageSpansAlways
     then fold (\<lambda>mo b. case mo of None \<Rightarrow> b | Some m \<Rightarrow> snd (snd (batchStart E m b))) (btMessages b) b else b)"

definition batchRun :: "batchEnv \<Rightarrow> batchCall list \<Rightarrow> batch \<Rightarrow> batch" where
  "batchRun E calls b = batchEnd (fold (batchCallStep E) calls (startAll E b))"

definition newBatch :: "messageSpans \<Rightarrow> nat option list \<Rightarrow> batch" where
  "newBatch policy ms = \<lparr>btPolicy = policy, btMessages = ms, btContexts = [], btOpen = None, btOpenMessage = None,
     btSpans = [], btTraced = 0, btEnds = [], btFailed = [], btEnded = False\<rparr>"

text \<open>The batch span itself, on the messages of the claim.\<close>

definition batchBytes :: "consumerMessage list \<Rightarrow> int" where
  "batchBytes ms = sum_list (map (int \<circ> length \<circ> cmValue) ms)"

definition newBatchSpan ::
  "client option \<Rightarrow> batchOptions \<Rightarrow> entropyStamp \<Rightarrow> ctx \<Rightarrow> consumerMessage list \<Rightarrow> span option" where
  "newBatchSpan co opts en c ms =
     (if ms = [] then None
      else (let first = hd ms; s = snd (startMessagingSpan co c
                \<lparr>msSystem = ''kafka'', msOperation = operationProcess, msDestination = cmTopic first, msServer = [],
                 msPartition = cmPartition first, msOffset = - 1, msBodySize = batchBytes ms, msBody = [],
                 msMessageID = [], msConsumerGroup = boGroup opts\<rparr> (esNow en) (esTrace en) (esSpan en))
            in Some (setAttribute ''messaging.kafka.offset.last'' (itoa (cmOffset (last ms)))
                 (setAttribute ''messaging.kafka.offset.first'' (itoa (cmOffset first))
                   (setAttribute ''messaging.batch.message_count'' (itoa (int (length ms)))
                     (s\<lparr>spName := ''PROCESS '' @ cmTopic first @ '' BATCH''\<rparr>))))))"

text \<open>
  \<open>flush\<close> adds why the batch closed.  When the handler is done the batch span gets its outcome, a panic
  with the text of the recovered value, and the number of message spans minted; \<open>start\<close> refers a message
  span to the batch span, which is in another trace.
\<close>

definition flushBatchSpan ::
  "client option \<Rightarrow> batchOptions \<Rightarrow> entropyStamp \<Rightarrow> ctx \<Rightarrow> consumerMessage list \<Rightarrow> string \<Rightarrow> span option" where
  "flushBatchSpan co opts en c ms trigger =
     map_option (setAttribute ''messaging.batch.trigger'' trigger) (newBatchSpan co opts en c ms)"

datatype batchOutcome = BatchReturned "string option" | BatchPanicked string

definition endBatchSpan :: "batchOutcome \<Rightarrow> nat \<Rightarrow> span \<Rightarrow> span" where
  "endBatchSpan outcome traced s =
     setAttribute ''messaging.batch.traced_message_count'' (itoa (int traced))
       (case outcome of
          BatchPanicked text \<Rightarrow> setAttribute ''error.message'' (''panic: '' @ text) (setStatus ''error'' s)
        | BatchReturned err \<Rightarrow> markError err s)"

definition indexOfMessage :: "nat option list \<Rightarrow> nat \<Rightarrow> int" where
  "indexOfMessage ms m = (case find (\<lambda>(_, x). x = Some m) (enumerate 0 ms) of Some (i, _) \<Rightarrow> int i | None \<Rightarrow> - 1)"

definition batchReference :: "int \<Rightarrow> span option \<Rightarrow> span \<Rightarrow> span" where
  "batchReference i batchSpan s =
     (let s1 = setAttribute ''messaging.batch.index'' (itoa i) s
      in case batchSpan of None \<Rightarrow> s1
         | Some b \<Rightarrow> setAttribute ''messaging.batch.span_id'' (spSpanID b) (setAttribute ''messaging.batch.trace_id'' (spTraceID b) s1))"

text \<open>A first occurrence is found, also when a message is listed twice.\<close>

lemma indexOfMessage_first:
  "indexOfMessage ms m = (if Some m \<in> set ms then int (length (takeWhile (\<lambda>x. x \<noteq> Some m) ms)) else - 1)"
proof -
  have "find (\<lambda>(_, x). x = Some m) (enumerate n ms)
      = (if Some m \<in> set ms then Some (n + length (takeWhile (\<lambda>x. x \<noteq> Some m) ms), Some m) else None)" for n
    by (induction ms arbitrary: n) auto
  then show ?thesis by (simp add: indexOfMessage_def)
qed

subsection \<open>Results: accumulation\<close>


definition messagesOf :: "'m claimEvent list \<Rightarrow> 'm list" where
  "messagesOf es = List.map_filter (\<lambda>e. case e of Message m \<Rightarrow> Some m | _ \<Rightarrow> None) es"

lemma messagesOf_simps [simp]:
  "messagesOf [] = []" "messagesOf (Message m # es) = m # messagesOf es"
  "messagesOf (ChannelClosed # es) = messagesOf es" "messagesOf (TimerFired # es) = messagesOf es"
  "messagesOf (SessionDone # es) = messagesOf es"
  by (simp_all add: messagesOf_def map_filter_simps)





subsection \<open>Results: spans\<close>

definition batchInv :: "batch \<Rightarrow> bool" where
  "batchInv b \<longleftrightarrow> btSpans b = map Minted [0..<btTraced b] \<and> wf_map (btContexts b)
     \<and> length (btContexts b) = btTraced b \<and> distinct (btEnds b)
     \<and> list_all (\<lambda>c. snd c \<in> set (btSpans b)) (btContexts b) \<and> set (btEnds b) \<subseteq> set (btSpans b)
     \<and> set_option (btOpen b) \<subseteq> set (btSpans b) \<and> \<not> btEnded b"

lemma endRef_fields [simp]:
  "btSpans (endRef r b) = btSpans b" "btTraced (endRef r b) = btTraced b" "btContexts (endRef r b) = btContexts b"
  "btOpen (endRef r b) = btOpen b" "btOpenMessage (endRef r b) = btOpenMessage b" "btPolicy (endRef r b) = btPolicy b"
  "btMessages (endRef r b) = btMessages b" "btEnded (endRef r b) = btEnded b"
  by (simp_all add: endRef_def)

lemma endRef_ends: "set (btEnds (endRef r b)) = set (btEnds b) \<union> ({r} - {RemotePlaceholder, NoSpan})"
  by (auto simp: endRef_def)

lemma endRef_distinct: "distinct (btEnds b) \<Longrightarrow> distinct (btEnds (endRef r b))"
  by (simp add: endRef_def)

lemma batchInv_end: "batchInv b \<Longrightarrow> r \<in> set (btSpans b) \<Longrightarrow> batchInv (endRef r b)"
  by (auto simp: batchInv_def endRef_ends endRef_distinct)

lemma batchInv_start:
  assumes "batchInv b" "beTracing E" "batchStart E m b = (r, s, b')"
  shows "batchInv b' \<and> s \<in> set (btSpans b') \<and> btPolicy b' = btPolicy b \<and> btMessages b' = btMessages b"
proof (cases "map_of (btContexts b) m")
  case None
  then have "m \<notin> fst ` set (btContexts b)" using map_of_None_iff by metis
  then show ?thesis
    using None assms update_new [OF None, of "Minted (btTraced b)"]
    by (auto simp: batchStart_def batchInv_def Let_def contextRef_def wf_map_def list_all_iff) force
next
  case (Some x)
  then have "(m, x) \<in> set (btContexts b)" by (rule map_of_SomeD)
  then show ?thesis using Some assms by (fastforce simp: batchStart_def batchInv_def list_all_iff)
qed

lemma batchInv_closed: "batchInv b \<Longrightarrow> batchInv (b\<lparr>btOpen := None, btOpenMessage := None\<rparr>)"
  by (auto simp: batchInv_def)

lemma batchInv_opened: "batchInv b \<Longrightarrow> r \<in> set (btSpans b) \<Longrightarrow> batchInv (b\<lparr>btOpen := Some r, btOpenMessage := x\<rparr>)"
  by (auto simp: batchInv_def)

lemma batchInv_failed: "batchInv b \<Longrightarrow> batchInv (b\<lparr>btFailed := x\<rparr>)"
  by (auto simp: batchInv_def)

lemma batchInv_endOpen: "batchInv b \<Longrightarrow> batchInv (endOpenSpan b)"
  by (auto simp: endOpenSpan_def batchInv_end batchInv_def [of b] split: option.split)

lemma endOpenSpan_policy [simp]: "btPolicy (endOpenSpan b) = btPolicy b"
  by (simp add: endOpenSpan_def split: option.split)

text \<open>The invariant with the policy: a batch that mints no message span has none.\<close>

definition batchGood :: "messageSpans \<Rightarrow> batch \<Rightarrow> bool" where
  "batchGood policy b \<longleftrightarrow> batchInv b \<and> btPolicy b = policy \<and> (if policy = MessageSpansNever then btTraced b = 0 else True)"

lemma batchGood_start:
  assumes "batchGood policy b" "beTracing E" "policy \<noteq> MessageSpansNever" "batchStart E m b = (r, s, b')"
  shows "batchGood policy b' \<and> s \<in> set (btSpans b')"
  using batchInv_start [OF _ assms(2,4)] assms(1,3) by (simp add: batchGood_def)

lemma batchGood_contextFor:
  assumes "batchGood policy b" "beTracing E"
  shows "batchGood policy (snd (contextFor E mo b))"
proof (cases "policy = MessageSpansNever \<or> mo = None \<or> (\<exists>m r. mo = Some m \<and> map_of (btContexts b) m = Some r)")
  case True
  then show ?thesis using assms(1) by (auto simp: contextFor_def batchGood_def split: option.splits)
next
  case False
  then obtain m where m: "mo = Some m" "map_of (btContexts b) m = None" "policy \<noteq> MessageSpansNever" by auto
  define b1 where "b1 = (if btOpenMessage b \<noteq> Some m then (endOpenSpan b)\<lparr>btOpen := None, btOpenMessage := None\<rparr> else b)"
  have b1: "batchGood policy b1"
    using assms(1) m(3) by (simp add: b1_def batchGood_def batchInv_closed batchInv_endOpen)
  obtain r s b2 where b2: "batchStart E m b1 = (r, s, b2)" by (cases "batchStart E m b1")
  have "snd (contextFor E mo b) = b2\<lparr>btOpen := Some s, btOpenMessage := Some m\<rparr>"
    using m b2 assms(1) unfolding b1_def by (simp add: contextFor_def batchGood_def)
  then show ?thesis
    using batchGood_start [OF b1 assms(2) m(3) b2] by (simp add: batchGood_def batchInv_opened)
qed

lemma batchGood_eachOne:
  assumes "batchGood policy b" "beTracing E"
  shows "batchGood policy (snd (eachOne E fails m b))"
proof (cases "policy = MessageSpansNever")
  case True
  then show ?thesis using assms(1) by (simp add: eachOne_def batchGood_def)
next
  case False
  define b1 where "b1 = (if btOpenMessage b = Some m then b\<lparr>btOpen := None, btOpenMessage := None\<rparr> else b)"
  have b1: "batchGood policy b1" using assms(1) by (simp add: b1_def batchGood_def batchInv_closed)
  obtain r s b2 where b2: "batchStart E m b1 = (r, s, b2)" by (cases "batchStart E m b1")
  have "snd (eachOne E fails m b) = endRef s (if fails m then b2\<lparr>btFailed := btFailed b2 @ [s]\<rparr> else b2)"
    using False b2 assms(1) unfolding b1_def by (simp add: eachOne_def batchGood_def)
  then show ?thesis
    using batchGood_start [OF b1 assms(2) False b2] by (simp add: batchGood_def batchInv_end batchInv_failed)
qed

lemma batchGood_eachFrom: "batchGood policy b \<Longrightarrow> beTracing E \<Longrightarrow> batchGood policy (snd (eachFrom E fails ms b))"
proof (induction E fails ms b rule: eachFrom.induct)
  case (3 E fails m ms b)
  then show ?case using batchGood_eachOne [of policy b E fails m] by (auto split: prod.splits bool.splits)
qed simp_all

lemma batchGood_step: "batchGood policy b \<Longrightarrow> beTracing E \<Longrightarrow> batchGood policy (batchCallStep E call b)"
  by (cases call) (simp_all add: batchGood_contextFor batchGood_eachFrom)

lemma batchGood_calls: "batchGood policy b \<Longrightarrow> beTracing E \<Longrightarrow> batchGood policy (fold (batchCallStep E) calls b)"
  by (induction calls arbitrary: b) (simp_all add: batchGood_step)

lemma batchGood_startAll: "batchGood policy b \<Longrightarrow> beTracing E \<Longrightarrow> batchGood policy (startAll E b)"
proof -
  assume b: "batchGood policy b" and E: "beTracing E"
  have "batchGood policy (fold (\<lambda>mo b. case mo of None \<Rightarrow> b | Some m \<Rightarrow> snd (snd (batchStart E m b))) ms b)"
    if "policy \<noteq> MessageSpansNever" for ms
    using b
  proof (induction ms arbitrary: b)
    case (Cons mo ms)
    show ?case
    proof (cases mo)
      case (Some m)
      obtain r s b' where "batchStart E m b = (r, s, b')" by (cases "batchStart E m b")
      with batchGood_start [OF Cons.prems E that this] Some Cons.IH show ?thesis by simp
    qed (use Cons in simp)
  qed simp
  then show ?thesis using b by (auto simp: startAll_def batchGood_def)
qed

lemma fold_endRef:
  "distinct (btEnds b) \<Longrightarrow> list_all (\<lambda>r. r \<notin> {RemotePlaceholder, NoSpan}) rs \<Longrightarrow>
   distinct (btEnds (fold endRef rs b)) \<and> set (btEnds (fold endRef rs b)) = set (btEnds b) \<union> set rs
   \<and> btSpans (fold endRef rs b) = btSpans b \<and> btTraced (fold endRef rs b) = btTraced b
   \<and> btContexts (fold endRef rs b) = btContexts b"
  by (induction rs arbitrary: b) (auto simp: endRef_distinct endRef_ends)

lemma batchGood_new: "batchGood policy (newBatch policy ms)"
  by (simp add: batchGood_def batchInv_def newBatch_def)

text \<open>
  C11: no message span of a batch is left open or ended twice.  With tracing on, whatever the handler
  asks of the batch, each message has at most one span, every span minted has ended exactly once when
  the flush returns, and under \<open>MessageSpansNever\<close> none is minted.
\<close>

theorem batch_spans_closed:
  assumes "beTracing E"
  shows "let b = batchRun E calls (newBatch policy ms) in
    btSpans b = map Minted [0..<btTraced b] \<and> distinct (btEnds b) \<and> set (btEnds b) = set (btSpans b)
    \<and> wf_map (btContexts b) \<and> length (btContexts b) = btTraced b
    \<and> (if policy = MessageSpansNever then btTraced b = 0 else True)"
proof -
  define b where "b = fold (batchCallStep E) calls (startAll E (newBatch policy ms))"
  have good: "batchGood policy b"
    unfolding b_def by (intro batchGood_calls batchGood_startAll batchGood_new assms)
  then have "distinct (btEnds b)" "btSpans b = map Minted [0..<btTraced b]" "set (btEnds b) \<subseteq> set (btSpans b)"
    by (auto simp: batchGood_def batchInv_def)
  moreover from this have "list_all (\<lambda>r. r \<notin> {RemotePlaceholder, NoSpan}) (btSpans b)" by (simp add: list_all_iff)
  ultimately show ?thesis
    using good fold_endRef [of b "btSpans b"]
    unfolding batchRun_def b_def [symmetric] Let_def
    by (simp add: batchEnd_def batchGood_def batchInv_def Un_absorb1)
qed

definition tracedEnv :: batchEnv where
  "tracedEnv = \<lparr>beTracing = True, beAmbient = True, beRemote = (\<lambda>_. True)\<rparr>"

theorem batch_spans_closed_witness:
  "set (btEnds (batchRun tracedEnv [ContextFor (Some 4), Each (\<lambda>m. m = 9)] (newBatch MessageSpansOnDemand [Some 4, None, Some 9])))
     = {Minted 0, Minted 1}"
proof -
  let ?b = "batchRun tracedEnv [ContextFor (Some 4), Each (\<lambda>m. m = 9)] (newBatch MessageSpansOnDemand [Some 4, None, Some 9])"
  have "set (btEnds ?b) = set (btSpans ?b)"
    using batch_spans_closed [of tracedEnv "[ContextFor (Some 4), Each (\<lambda>m. m = 9)]" MessageSpansOnDemand "[Some 4, None, Some 9]"]
    by (simp add: tracedEnv_def Let_def)
  also have "btSpans ?b = [Minted 0, Minted 1]"
    by (simp add: tracedEnv_def batchRun_def newBatch_def startAll_def contextFor_def eachOne_def batchStart_def
        contextRef_def endRef_def endOpenSpan_def batchEnd_def Let_def)
  finally show ?thesis by simp
qed

text \<open>
  Without tracing, \<open>Each\<close> can end the span of its caller.  Under \<open>MessageSpansAlways\<close> the message is
  started before the handler runs; \<open>Each\<close> then looks the span up in the context, which on a client
  that does not trace still carries the caller's span, and ends that one.
\<close>

theorem each_ends_callers_span:
  "btEnds (batchRun \<lparr>beTracing = False, beAmbient = True, beRemote = (\<lambda>_. False)\<rparr> [Each (\<lambda>_. False)]
     (newBatch MessageSpansAlways [Some 7])) = [Ambient, Minted 0]"
  by (simp add: batchRun_def newBatch_def startAll_def eachOne_def batchStart_def contextRef_def endRef_def
      batchEnd_def Let_def)

end
