(* ===== verification/KafkaFlow.thy ===== *)
theory KafkaFlow
  imports Sarama SpanIdentity
begin

text \<open>
  The two ends of a topic together: a message published through the instrumented producer of one
  process and picked up by the instrumented consumer of another.  With the rest of the producer's
  methods, which all go through the two of \<open>Sarama\<close>.
\<close>

subsection \<open>Wrapping\<close>

text \<open>\<open>client\<close>: the caller's client, or the process default.\<close>

definition resolveClient :: "'c option \<Rightarrow> 'c option \<Rightarrow> 'c option" where
  "resolveClient dflt co = (case co of None \<Rightarrow> dflt | Some cl \<Rightarrow> Some cl)"

text \<open>\<open>WrapSyncProducer\<close> and \<open>WrapConsumerGroupHandler\<close>: the client and the text the wrapper keeps.\<close>

record 'c wrappedProducer =
  wpClient :: "'c option"
  wpBrokers :: string

definition wrapSyncProducer :: "'c option \<Rightarrow> 'c option \<Rightarrow> string list \<Rightarrow> 'c wrappedProducer" where
  "wrapSyncProducer dflt co brokers = \<lparr>wpClient = resolveClient dflt co, wpBrokers = joinStr '','' brokers\<rparr>"

record 'c wrappedHandler =
  whClient :: "'c option"
  whGroup :: string

definition wrapConsumerGroupHandler :: "'c option \<Rightarrow> 'c option \<Rightarrow> string \<Rightarrow> 'c wrappedHandler" where
  "wrapConsumerGroupHandler dflt co grp = \<lparr>whClient = resolveClient dflt co, whGroup = grp\<rparr>"

text \<open>
  \<open>ConsumeClaim\<close> hands the claim on with the handler and the session of its spans; what the wrapped handler
  does with it is the argument \<open>consume\<close>, and its error is the result.
\<close>

record ('s, 'm, 'c) instrumentedClaim =
  icClaim :: 'm
  icHandler :: "'c wrappedHandler"
  icSession :: 's

definition groupConsumeClaim ::
  "('s \<Rightarrow> ('s, 'm, 'c) instrumentedClaim \<Rightarrow> 'p \<Rightarrow> string option \<times> 'p) \<Rightarrow> 'c wrappedHandler \<Rightarrow> 's \<Rightarrow> 'm \<Rightarrow> 'p
    \<Rightarrow> string option \<times> 'p" where
  "groupConsumeClaim consume wh session claim p =
     consume session \<lparr>icClaim = claim, icHandler = wh, icSession = session\<rparr> p"

text \<open>
  \<open>SendMessage\<close> and \<open>SendMessages\<close>: under \<open>context.Background()\<close>.  A nil message goes to the wrapped
  producer as it is, without a span.
\<close>

definition sendMessageOrNil ::
  "client wrappedProducer \<Rightarrow> entropyStamp \<Rightarrow> (producerMessage option \<Rightarrow> 'p \<Rightarrow> (int \<times> int \<times> string option) \<times> 'p)
    \<Rightarrow> ctx \<Rightarrow> producerMessage option \<Rightarrow> 'p \<Rightarrow> (int \<times> int \<times> string option) \<times> span option \<times> 'p" where
  "sendMessageOrNil wp en send c mo p =
     (case mo of
        None \<Rightarrow> (case send None p of (r, p') \<Rightarrow> (r, None, p'))
      | Some m \<Rightarrow> (case sendMessageContext (wpClient wp) (wpBrokers wp) en (\<lambda>m. send (Some m)) c m p of
                     (r, s, p') \<Rightarrow> (r, Some s, p')))"

definition sendMessage ::
  "client wrappedProducer \<Rightarrow> entropyStamp \<Rightarrow> (producerMessage option \<Rightarrow> 'p \<Rightarrow> (int \<times> int \<times> string option) \<times> 'p)
    \<Rightarrow> producerMessage option \<Rightarrow> 'p \<Rightarrow> (int \<times> int \<times> string option) \<times> span option \<times> 'p" where
  "sendMessage wp en send mo p = sendMessageOrNil wp en send None mo p"

definition sendMessages ::
  "client wrappedProducer \<Rightarrow> (nat \<Rightarrow> entropyStamp) \<Rightarrow> (producerMessage option list \<Rightarrow> 'p \<Rightarrow> string option \<times> 'p)
    \<Rightarrow> producerMessage option list \<Rightarrow> 'p \<Rightarrow> string option \<times> span list \<times> 'p" where
  "sendMessages wp en send ms p = sendMessagesContext (wpClient wp) (wpBrokers wp) en send None ms p"

text \<open>\<open>startProcessSpan\<close> with its guard, and the handler's \<open>start\<close>, which drops the context.\<close>

definition startProcessOrNil ::
  "(f64 \<Rightarrow> int) \<Rightarrow> entropyStamp \<Rightarrow> client option \<Rightarrow> string \<Rightarrow> ctx \<Rightarrow> consumerMessage option \<Rightarrow> ctx \<times> span option" where
  "startProcessOrNil spill en co grp c mo =
     (case mo of None \<Rightarrow> (c, None)
      | Some m \<Rightarrow> (case startProcessSpan spill en co grp c m of (c', s) \<Rightarrow> (c', Some s)))"

definition handlerStart ::
  "(f64 \<Rightarrow> int) \<Rightarrow> entropyStamp \<Rightarrow> client wrappedHandler \<Rightarrow> ctx \<Rightarrow> consumerMessage option \<Rightarrow> span option" where
  "handlerStart spill en wh c mo = snd (startProcessOrNil spill en (whClient wh) (whGroup wh) c mo)"

subsection \<open>The attributes of a message\<close>

text \<open>At most 13 attributes come from a message, so the cap of 64 does not cut the wait off.\<close>

definition attrsWithin :: "nat \<Rightarrow> span \<Rightarrow> bool" where
  "attrsWithin n s \<longleftrightarrow> length (spAttributes s) \<le> n"

lemma attrsWithin_set: "attrsWithin n s \<Longrightarrow> attrsWithin (Suc n) (setAttribute k v s)"
  using length_update_le [of k v "spAttributes s"] by (simp add: setAttribute_def attrsWithin_def)

lemma attrsWithin_when: "attrsWithin n s \<Longrightarrow> attrsWithin (Suc n) (setWhen b k v s)"
  using attrsWithin_set [of n s] by (simp add: setWhen_def) (simp add: attrsWithin_def)

lemma attrsWithin_attributes: "attrsWithin 0 s \<Longrightarrow> attrsWithin 10 (messageAttributes m s)"
proof -
  assume "attrsWithin 0 s"
  then have "attrsWithin (Suc (Suc (Suc (Suc (Suc (Suc (Suc (Suc (Suc (Suc 0)))))))))) (messageAttributes m s)"
    unfolding messageAttributes_def comp_def by (intro attrsWithin_when attrsWithin_set)
  moreover have "Suc (Suc (Suc (Suc (Suc (Suc (Suc (Suc (Suc (Suc 0))))))))) = 10" by simp
  ultimately show ?thesis by (simp only:)
qed

lemma attrsWithin_Suc: "attrsWithin n s \<Longrightarrow> attrsWithin (Suc n) s"
  by (simp add: attrsWithin_def)

lemma attrsWithin_body: "attrsWithin n s \<Longrightarrow> attrsWithin (Suc (Suc (Suc n))) (applyMessagingBody co body s)"
  by (auto simp: applyMessagingBody_def storeBody_def Let_def split: option.split
      intro: attrsWithin_set attrsWithin_Suc)

abbreviation waitKey :: string where
  "waitKey \<equiv> ''messaging.message.queue_time_ms''"

lemma waitKey_set: "k \<noteq> waitKey \<Longrightarrow> map_of (spAttributes (setAttribute k v s)) waitKey = map_of (spAttributes s) waitKey"
  by (simp add: setAttribute_def)

lemma waitKey_when: "k \<noteq> waitKey \<Longrightarrow> map_of (spAttributes (setWhen b k v s)) waitKey = map_of (spAttributes s) waitKey"
  by (simp add: setWhen_def waitKey_set)

lemma waitKey_message:
  "map_of (spAttributes (applyMessagingBody co body (messageAttributes m s))) waitKey = map_of (spAttributes s) waitKey"
  by (simp add: applyMessagingBody_def storeBody_def messageAttributes_def Let_def waitKey_set waitKey_when split: option.split)

lemma setAttribute_waitKey:
  "attrsWithin 13 s \<Longrightarrow> map_of (spAttributes (setAttribute waitKey v s)) waitKey = Some v"
  by (simp add: setAttribute_def attrsWithin_def maxAttributes_def)

subsection \<open>The span of a message\<close>

lemma startMessagingSpan_live:
  assumes "cfgEnabled (clCfg cl)" "cfgAPMEnabled (clCfg cl)"
  obtains s s0 where "startMessagingSpan (Some cl) c m now rnd16 rnd8 = (Some s, s)"
    "startSpan (Some cl) c (messagingSpanName m) now rnd16 rnd8 = (Some s0, s0)"
    "spanIdentity s = spanIdentity s0" "attrsWithin 13 s" "map_of (spAttributes s) waitKey = None"
proof -
  obtain s0 where s0: "startSpan (Some cl) c (messagingSpanName m) now rnd16 rnd8 = (Some s0, s0)" "spAttributes s0 = []"
    using assms by (auto simp: startSpan_def Let_def zeroSpan_def split: option.split)
  let ?s = "applyMessagingBody (Some cl) (msBody m) (messageAttributes m s0)"
  have "attrsWithin 0 s0" using s0 by (simp add: attrsWithin_def)
  from attrsWithin_body [OF attrsWithin_attributes [OF this]] have "attrsWithin 13 ?s" by simp
  moreover have "spanIdentity ?s = spanIdentity s0" by (simp add: identity)
  moreover have "map_of (spAttributes ?s) waitKey = None" using s0 by (simp add: waitKey_message)
  ultimately show thesis
    using s0 assms by (intro that [of ?s s0]) (simp_all add: startMessagingSpan_def Let_def)
qed

text \<open>The span of a message that carries a valid parent.\<close>

lemma startProcessSpan_live:
  assumes "cfgEnabled (clCfg cl)" "cfgAPMEnabled (clCfg cl)" "extractContext (cmHeaders cm) = (r, stamp)" "remoteValid r"
  obtains s where "startProcessSpan spill en (Some cl) grp c cm = (Some s, s)" "attrsWithin 14 s"
    "spTraceID s = rcTraceID r" "spParentID s = rcSpanID r" "spSampled s = rcSampled r"
    "spTracestate s = rcTracestate r" "spBaggage s = rcBaggage r"
    "map_of (spAttributes s) waitKey = map_option itoa (waitMilliseconds spill stamp (esStamp en))"
proof -
  define p where "p = zeroSpan\<lparr>spTraceID := rcTraceID r, spSpanID := rcSpanID r, spSampled := rcSampled r,
    spTracestate := rcTracestate r, spBaggage := rcBaggage r, spStartedAt := esNow en, spEnded := True\<rparr>"
  have ctx: "contextWithRemoteContext (esNow en) c r = Some p"
    using assms(4) by (simp add: contextWithRemoteContext_def p_def)
  have tp: "spTraceID p \<noteq> []" using assms(4) by (simp add: p_def remoteValid_def)
  define ms where "ms = \<lparr>msSystem = ''kafka'', msOperation = operationProcess, msDestination = cmTopic cm, msServer = [],
    msPartition = cmPartition cm, msOffset = cmOffset cm, msBodySize = int (length (cmValue cm)),
    msBody = consumeBody (Some cl) (cmValue cm), msMessageID = cmKey cm, msConsumerGroup = grp\<rparr>"
  obtain u u0 where b: "startMessagingSpan (Some cl) (Some p) ms (esNow en) (esTrace en) (esSpan en) = (Some u, u)"
    "startSpan (Some cl) (Some p) (messagingSpanName ms) (esNow en) (esTrace en) (esSpan en) = (Some u0, u0)"
    "spanIdentity u = spanIdentity u0" "attrsWithin 13 u" "map_of (spAttributes u) waitKey = None"
    using startMessagingSpan_live [OF assms(1,2)] .
  have "spTraceID u0 = rcTraceID r" "spParentID u0 = rcSpanID r" "spSampled u0 = rcSampled r"
    "spTracestate u0 = rcTracestate r" "spBaggage u0 = rcBaggage r"
    using b(2) startSpan_child [OF assms(1,2) tp] by (auto simp: Let_def p_def)
  then have u: "spTraceID u = rcTraceID r" "spParentID u = rcSpanID r" "spSampled u = rcSampled r"
    "spTracestate u = rcTracestate r" "spBaggage u = rcBaggage r"
    using b(3) by (simp_all add: spanIdentity_def)
  let ?w = "waitMilliseconds spill stamp (esStamp en)"
  define v where "v = (case ?w of None \<Rightarrow> u | Some w \<Rightarrow> setAttribute waitKey (itoa w) u)"
  have "startProcessSpan spill en (Some cl) grp c cm = (Some v, v)"
    by (simp add: startProcessSpan_def assms(3) ctx b(1) [unfolded ms_def] v_def Let_def assms(1,2) split: option.split)
  moreover have "spanIdentity v = spanIdentity u"
    by (simp add: v_def spanIdentity_setAttribute split: option.split)
  moreover have "map_of (spAttributes v) waitKey = map_option itoa ?w"
    using b(5) setAttribute_waitKey [OF b(4)] by (simp add: v_def split: option.split)
  moreover have "attrsWithin 14 v"
    using attrsWithin_set [OF b(4)] attrsWithin_Suc [OF b(4)] by (simp add: v_def split: option.split)
  ultimately show thesis using u by (intro that [of v]) (simp_all add: spanIdentity_def)
qed

text \<open>
  C14: a message is one trace across the broker.  A message published by one live client and picked up,
  headers unchanged, by another, none of the four headers set by the caller: the span of the consumer
  is a child of the span of the producer, in its trace, under its sampling decision and with its
  tracestate and baggage normalised; and it carries the wait between the producer's stamp and the
  consumer's clock, if that wait is known, and no wait otherwise.
\<close>

theorem publish_consume_one_trace:
  assumes "list_all (\<lambda>key. absent key (pmHeaders m)) contextKeys"
    and "cfgEnabled (clCfg clA)" "cfgAPMEnabled (clCfg clA)" "cfgEnabled (clCfg clB)" "cfgAPMEnabled (clCfg clB)"
    and "preparePublish (Some clA) brokers enA c m = (published, m')"
    and "validIds (spTraceID published) (spSpanID published)"
    and "cmHeaders cm = map Some (pmHeaders m')"
  shows "case startProcessSpan spill enB (Some clB) grp c2 cm of (c', s) \<Rightarrow>
    c' = Some s \<and> spTraceID s = spTraceID published \<and> spParentID s = spSpanID published \<and> spSampled s = spSampled published
    \<and> spTracestate s = normalizeTracestate (spTracestate published) \<and> spBaggage s = normalizeBaggage (spBaggage published)
    \<and> map_of (spAttributes s) waitKey = map_option itoa (waitMilliseconds spill (formatEnqueuedAt (esStamp enA)) (esStamp enB))"
proof -
  obtain s s0 where a: "startMessagingSpan (Some clA) c (publishSpan (Some clA) brokers m) (esNow enA) (esTrace enA) (esSpan enA) = (Some s, s)"
    using startMessagingSpan_live [OF assms(2,3)] .
  then have pub: "published = s" "pmHeaders m' = inject (Some s) (formatEnqueuedAt (esStamp enA)) (pmHeaders m)"
    using assms(6) by (auto simp: preparePublish_def)
  define r where "r = \<lparr>rcTraceID = spTraceID s, rcSpanID = spSpanID s, rcSampled = spSampled s,
    rcTracestate = normalizeTracestate (spTracestate s), rcBaggage = normalizeBaggage (spBaggage s)\<rparr>"
  have ext: "extractContext (cmHeaders cm) = (r, formatEnqueuedAt (esStamp enA))"
    using kafka_context_roundtrip [OF assms(1), of s] assms(7,8) pub by (simp add: r_def)
  have valid: "remoteValid r"
    using assms(7) pub by (auto simp: r_def remoteValid_def validIds_def lowerHex_def)
  obtain v where "startProcessSpan spill enB (Some clB) grp c2 cm = (Some v, v)" "attrsWithin 14 v"
    "spTraceID v = rcTraceID r" "spParentID v = rcSpanID r" "spSampled v = rcSampled r"
    "spTracestate v = rcTracestate r" "spBaggage v = rcBaggage r"
    "map_of (spAttributes v) waitKey = map_option itoa (waitMilliseconds spill (formatEnqueuedAt (esStamp enA)) (esStamp enB))"
    using startProcessSpan_live [OF assms(4,5) ext valid] .
  then show ?thesis by (simp add: r_def pub)
qed

definition kafkaStamp :: "int \<Rightarrow> bytes \<Rightarrow> entropyStamp" where
  "kafkaStamp t rnd8 = \<lparr>esNow = t, esTrace = ''ABCDEFGHIJKLMNOP'', esSpan = rnd8, esStamp = t\<rparr>"

definition kafkaMessage :: producerMessage where
  "kafkaMessage = \<lparr>pmTopic = ''orders'', pmKey = None, pmValue = None, pmHeaders = [(''Content-Type'', ''json'')]\<rparr>"

definition kafkaPublished :: "span \<times> producerMessage" where
  "kafkaPublished = preparePublish (Some liveClient) [] (kafkaStamp 1700000000000000000 ''ABCDEFGH'') None kafkaMessage"

definition kafkaConsumed :: consumerMessage where
  "kafkaConsumed = \<lparr>cmTopic = ''orders'', cmKey = [], cmValue = [], cmPartition = 0, cmOffset = 7,
     cmHeaders = map Some (pmHeaders (snd kafkaPublished))\<rparr>"

theorem publish_consume_one_trace_witness:
  "case startProcessSpan (\<lambda>_. 0) (kafkaStamp 1700000000250000000 ''HGFEDCBA'') (Some liveClient) ''g'' None kafkaConsumed of (c', s) \<Rightarrow>
     spTraceID s = hexEncode ''ABCDEFGHIJKLMNOP'' \<and> spParentID s = hexEncode ''ABCDEFGH''"
proof -
  have live: "cfgEnabled (clCfg liveClient)" "cfgAPMEnabled (clCfg liveClient)"
    by (simp_all add: liveClient_def liveConfig_def)
  have abs: "list_all (\<lambda>key. absent key (pmHeaders kafkaMessage)) contextKeys"
    by (simp add: contextKeys_def absent_def equalFold_ascii asciiLower_def kafkaMessage_def)
  obtain s s0 where s: "startMessagingSpan (Some liveClient) None (publishSpan (Some liveClient) [] kafkaMessage) 1700000000000000000
      ''ABCDEFGHIJKLMNOP'' ''ABCDEFGH'' = (Some s, s)"
    "startSpan (Some liveClient) None (messagingSpanName (publishSpan (Some liveClient) [] kafkaMessage)) 1700000000000000000
      ''ABCDEFGHIJKLMNOP'' ''ABCDEFGH'' = (Some s0, s0)" "spanIdentity s = spanIdentity s0"
    using startMessagingSpan_live [OF live] by blast
  have "spTraceID s0 = hexEncode ''ABCDEFGHIJKLMNOP''" "spSpanID s0 = hexEncode ''ABCDEFGH''"
    using s(2) live by (auto simp: startSpan_def Let_def newTraceID_def newSpanID_def)
  then have ids: "spTraceID (fst kafkaPublished) = hexEncode ''ABCDEFGHIJKLMNOP''" "spSpanID (fst kafkaPublished) = hexEncode ''ABCDEFGH''"
    using s(1,3) by (simp_all add: kafkaPublished_def preparePublish_def kafkaStamp_def spanIdentity_def)
  have v: "validIds (hexEncode ''ABCDEFGHIJKLMNOP'') (hexEncode ''ABCDEFGH'')"
    using lowerHex_hexEncode [of "''ABCDEFGHIJKLMNOP''" 16] lowerHex_hexEncode [of "''ABCDEFGH''" 8]
    by (simp add: validIds_def) (simp add: allZero_def hexEncode_def hexLower_def charOf_eq)
  have p: "preparePublish (Some liveClient) [] (kafkaStamp 1700000000000000000 ''ABCDEFGH'') None kafkaMessage
      = (fst kafkaPublished, snd kafkaPublished)" by (simp add: kafkaPublished_def)
  show ?thesis
    using publish_consume_one_trace [OF abs live live p, of kafkaConsumed "\<lambda>_. 0" "kafkaStamp 1700000000250000000 ''HGFEDCBA''" "''g''" None]
      ids v by (simp add: kafkaConsumed_def case_prod_unfold)
qed

end
