(* ===== verification/BatchFlow.thy ===== *)
theory BatchFlow
  imports SaramaBatch KafkaFlow
begin

text \<open>
  A flush with its real spans.  \<open>SaramaBatch\<close> counts the spans of a batch by reference; here a \<open>Batch\<close>
  holds the contexts and the spans themselves, as \<open>ContextFor\<close>, \<open>Each\<close> and \<open>start\<close> make them from the
  messages.  It refines the counting one, and adds what a handler can do with the contexts: keep the
  trace of each message through the flush.
\<close>

text \<open>
  Messages are pointers: \<open>lvMessages\<close> names them and the heap \<open>nat \<Rightarrow> consumerMessage\<close> reads them.  A context is
  kept with the reference of the span in it.  \<open>lvEnds\<close> and \<open>lvFailed\<close> are the calls of \<open>End\<close> that ended a
  span and the errors recorded, in order.
\<close>

record liveBatch =
  lvClient :: "client option"
  lvOptions :: batchOptions
  lvMessages :: "nat option list"
  lvSpan :: "span option"
  lvCtx :: ctx
  lvParent :: ctx
  lvOpen :: "spanRef option"
  lvOpenMessage :: "nat option"
  lvContexts :: "(nat \<times> spanRef \<times> ctx) list"
  lvSpans :: "span list"
  lvEnds :: "spanRef list"
  lvFailed :: "(spanRef \<times> string) list"
  lvEnded :: bool

text \<open>
  What a flush reads from outside: the messages, the clock and random source of the \<open>i\<close>-th message span,
  and the float conversion of \<open>waitMilliseconds\<close>.
\<close>

record flushEnv =
  fvMessage :: "nat \<Rightarrow> consumerMessage"
  fvStamp :: "nat \<Rightarrow> entropyStamp"
  fvSpill :: "f64 \<Rightarrow> int"

definition liveBytes :: "flushEnv \<Rightarrow> nat option list \<Rightarrow> int" where
  "liveBytes F ms = batchBytes (map (fvMessage F) (List.map_filter id ms))"

text \<open>
  \<open>newBatch\<close>: \<open>None\<close> is the panic of a nil first or last message, which is read without the guard the
  rest of the file has.
\<close>

definition bareBatch :: "client option \<Rightarrow> batchOptions \<Rightarrow> ctx \<Rightarrow> nat option list \<Rightarrow> liveBatch" where
  "bareBatch co opts c ms = \<lparr>lvClient = co, lvOptions = opts, lvMessages = ms, lvSpan = None, lvCtx = c, lvParent = c,
     lvOpen = None, lvOpenMessage = None, lvContexts = [], lvSpans = [], lvEnds = [], lvFailed = [], lvEnded = False\<rparr>"

definition newLiveBatch ::
  "flushEnv \<Rightarrow> entropyStamp \<Rightarrow> client option \<Rightarrow> batchOptions \<Rightarrow> ctx \<Rightarrow> nat option list \<Rightarrow> liveBatch option" where
  "newLiveBatch F en co opts c ms =
     (if ms = [] then Some (bareBatch co opts c ms)
      else (case (hd ms, last ms) of
          (Some f, Some l) \<Rightarrow>
            (let first = fvMessage F f in
             case startMessagingSpan co c
                \<lparr>msSystem = ''kafka'', msOperation = operationProcess, msDestination = cmTopic first, msServer = [],
                 msPartition = cmPartition first, msOffset = - 1, msBodySize = liveBytes F ms, msBody = [],
                 msMessageID = [], msConsumerGroup = boGroup opts\<rparr> (esNow en) (esTrace en) (esSpan en) of (c', s0) \<Rightarrow>
               (let s = setAttribute ''messaging.kafka.offset.last'' (itoa (cmOffset (fvMessage F l)))
                   (setAttribute ''messaging.kafka.offset.first'' (itoa (cmOffset first))
                     (setAttribute ''messaging.batch.message_count'' (itoa (int (length ms)))
                       (s0\<lparr>spName := ''PROCESS '' @ cmTopic first @ '' BATCH''\<rparr>)))
                in Some ((bareBatch co opts c ms)\<lparr>lvSpan := Some s, lvCtx := (if tracingOn co then Some s else c')\<rparr>)))
        | _ \<Rightarrow> None))"

text \<open>The accessors; \<open>Batch.SetAttribute\<close> writes to the batch span.\<close>

definition batchMessages :: "liveBatch option \<Rightarrow> nat option list" where
  "batchMessages bo = (case bo of None \<Rightarrow> [] | Some b \<Rightarrow> lvMessages b)"

definition batchLen :: "liveBatch option \<Rightarrow> nat" where
  "batchLen bo = (case bo of None \<Rightarrow> 0 | Some b \<Rightarrow> length (lvMessages b))"

definition batchContext :: "liveBatch option \<Rightarrow> ctx" where
  "batchContext bo = (case bo of None \<Rightarrow> None | Some b \<Rightarrow> lvCtx b)"


subsection \<open>Message spans\<close>

text \<open>Which span the context of a message carries; the counting batch asks only for this.\<close>

definition flushRefs :: "flushEnv \<Rightarrow> liveBatch \<Rightarrow> batchEnv" where
  "flushRefs F b = \<lparr>beTracing = tracingOn (lvClient b), beAmbient = (lvParent b \<noteq> None),
     beRemote = (\<lambda>m. remoteValid (fst (extractContext (cmHeaders (fvMessage F m)))))\<rparr>"

text \<open>The context and the span \<open>start\<close> makes of a message.\<close>

definition messageContext ::
  "(f64 \<Rightarrow> int) \<Rightarrow> entropyStamp \<Rightarrow> client option \<Rightarrow> string \<Rightarrow> ctx \<Rightarrow> int \<Rightarrow> span option \<Rightarrow> consumerMessage \<Rightarrow> ctx \<times> span" where
  "messageContext spill en co grp parent i batchSpan m =
     (case startProcessSpan spill en co grp parent m of (c, s) \<Rightarrow>
       (let s' = batchReference i batchSpan s in (if tracingOn co then Some s' else c, s')))"

text \<open>\<open>start\<close>: the context, the span as a reference, and the batch.\<close>

definition liveStart :: "flushEnv \<Rightarrow> nat \<Rightarrow> liveBatch \<Rightarrow> ctx \<times> spanRef \<times> liveBatch" where
  "liveStart F m b = (case map_of (lvContexts b) m of
     Some (r, c) \<Rightarrow> (c, r, b)
   | None \<Rightarrow>
       (let i = length (lvSpans b) in
        case messageContext (fvSpill F) (fvStamp F i) (lvClient b) (boGroup (lvOptions b)) (lvParent b)
            (indexOfMessage (lvMessages b) m) (lvSpan b) (fvMessage F m) of (c, s) \<Rightarrow>
          (c, Minted i, b\<lparr>lvContexts := AList.update m (contextRef (flushRefs F b) i m, c) (lvContexts b),
                          lvSpans := lvSpans b @ [s]\<rparr>)))"

definition liveEnd :: "spanRef \<Rightarrow> liveBatch \<Rightarrow> liveBatch" where
  "liveEnd r b = (if r \<in> {RemotePlaceholder, NoSpan} \<or> r \<in> set (lvEnds b) then b else b\<lparr>lvEnds := lvEnds b @ [r]\<rparr>)"

definition liveContextFor :: "flushEnv \<Rightarrow> nat option \<Rightarrow> liveBatch \<Rightarrow> ctx \<times> liveBatch" where
  "liveContextFor F mo b = (case mo of
     None \<Rightarrow> (lvCtx b, b)
   | Some m \<Rightarrow> (case map_of (lvContexts b) m of
       Some (r, c) \<Rightarrow> (c, b)
     | None \<Rightarrow>
         if boMessageSpans (lvOptions b) = MessageSpansNever then (lvCtx b, b)
         else (let b1 = (if lvOpenMessage b \<noteq> Some m
                 then (case lvOpen b of None \<Rightarrow> b | Some r \<Rightarrow> liveEnd r b)\<lparr>lvOpen := None, lvOpenMessage := None\<rparr> else b)
               in case liveStart F m b1 of (c, s, b2) \<Rightarrow> (c, b2\<lparr>lvOpen := Some s, lvOpenMessage := Some m\<rparr>))))"

text \<open>
  One iteration of \<open>Each\<close>, and \<open>Each\<close>; \<open>fn\<close> is the error of the function on a message, which it is called on
  with the context \<open>start\<close> gives.
\<close>

definition liveEachOne :: "flushEnv \<Rightarrow> (nat \<Rightarrow> string option) \<Rightarrow> nat \<Rightarrow> liveBatch \<Rightarrow> string option \<times> liveBatch" where
  "liveEachOne F fn m b =
     (if boMessageSpans (lvOptions b) = MessageSpansNever then (fn m, b)
      else (let b1 = (if lvOpenMessage b = Some m then b\<lparr>lvOpen := None, lvOpenMessage := None\<rparr> else b)
            in case liveStart F m b1 of (_, s, b2) \<Rightarrow>
              (case fn m of None \<Rightarrow> (None, liveEnd s b2)
               | Some msg \<Rightarrow> (Some msg, liveEnd s (b2\<lparr>lvFailed := lvFailed b2 @ [(s, msg)]\<rparr>)))))"

fun liveEachFrom :: "flushEnv \<Rightarrow> (nat \<Rightarrow> string option) \<Rightarrow> nat option list \<Rightarrow> liveBatch \<Rightarrow> string option \<times> liveBatch" where
  "liveEachFrom F fn [] b = (None, b)"
| "liveEachFrom F fn (None # ms) b = liveEachFrom F fn ms b"
| "liveEachFrom F fn (Some m # ms) b = (case liveEachOne F fn m b of
     (Some msg, b') \<Rightarrow> (Some msg, b')
   | (None, b') \<Rightarrow> liveEachFrom F fn ms b')"

definition liveEach :: "flushEnv \<Rightarrow> (nat \<Rightarrow> string option) \<Rightarrow> liveBatch option \<Rightarrow> string option \<times> liveBatch option" where
  "liveEach F fn bo = (case bo of None \<Rightarrow> (None, None)
     | Some b \<Rightarrow> (case liveEachFrom F fn (lvMessages b) b of (e, b') \<Rightarrow> (e, Some b')))"

text \<open>The spans a run starts with, what the handler does, and the end of the batch.\<close>

definition liveStartAll :: "flushEnv \<Rightarrow> liveBatch \<Rightarrow> liveBatch" where
  "liveStartAll F b = (if boMessageSpans (lvOptions b) = MessageSpansAlways
     then fold (\<lambda>mo b. case mo of None \<Rightarrow> b | Some m \<Rightarrow> snd (snd (liveStart F m b))) (lvMessages b) b else b)"

datatype liveCall = AskContext "nat option" | ForEach "nat \<Rightarrow> string option"

fun liveCallStep :: "flushEnv \<Rightarrow> liveCall \<Rightarrow> liveBatch \<Rightarrow> liveBatch" where
  "liveCallStep F (AskContext mo) b = snd (liveContextFor F mo b)"
| "liveCallStep F (ForEach fn) b = snd (liveEachFrom F fn (lvMessages b) b)"








subsection \<open>Results: the spans of a flush are those counted\<close>

definition counting :: "liveBatch \<Rightarrow> batch" where
  "counting b = \<lparr>btPolicy = boMessageSpans (lvOptions b), btMessages = lvMessages b,
     btContexts = map (\<lambda>(m, r, c). (m, r)) (lvContexts b), btOpen = lvOpen b, btOpenMessage = lvOpenMessage b,
     btSpans = map Minted [0..<length (lvSpans b)], btTraced = length (lvSpans b), btEnds = lvEnds b,
     btFailed = map fst (lvFailed b), btEnded = lvEnded b\<rparr>"

fun countCall :: "liveCall \<Rightarrow> batchCall" where
  "countCall (AskContext mo) = ContextFor mo"
| "countCall (ForEach fn) = Each (\<lambda>m. fn m \<noteq> None)"

text \<open>What stays: the client, the parent context, the messages and the batch span.\<close>

definition flushOf :: "liveBatch \<Rightarrow> client option \<times> batchOptions \<times> nat option list \<times> ctx \<times> span option" where
  "flushOf b = (lvClient b, lvOptions b, lvMessages b, lvParent b, lvSpan b)"

lemma flushRefs_cong: "flushOf b = flushOf b' \<Longrightarrow> flushRefs F b = flushRefs F b'"
  by (simp add: flushOf_def flushRefs_def)

lemma map_of_counting: "map_of (map (\<lambda>(m, r, c). (m, r)) xs) m = map_option fst (map_of xs m)"
  by (induction xs) auto

lemma update_counting: "map (\<lambda>(m, r, c). (m, r)) (AList.update m (r, c) xs) = AList.update m r (map (\<lambda>(m, r, c). (m, r)) xs)"
  by (induction xs) auto

named_theorems sim "a live step and the counting step"

lemma sim_end [sim]: "counting (liveEnd r b) = endRef r (counting b)" "flushOf (liveEnd r b) = flushOf b"
  by (simp_all add: counting_def liveEnd_def endRef_def flushOf_def)

lemma sim_open [sim]:
  "counting (b\<lparr>lvOpen := ro, lvOpenMessage := mo\<rparr>) = (counting b)\<lparr>btOpen := ro, btOpenMessage := mo\<rparr>"
  "flushOf (b\<lparr>lvOpen := ro, lvOpenMessage := mo\<rparr>) = flushOf b"
  by (simp_all add: counting_def flushOf_def)

lemma sim_failed [sim]:
  "counting (b\<lparr>lvFailed := lvFailed b @ [(r, msg)]\<rparr>) = (counting b)\<lparr>btFailed := btFailed (counting b) @ [r]\<rparr>"
  "flushOf (b\<lparr>lvFailed := fs\<rparr>) = flushOf b"
  by (simp_all add: counting_def flushOf_def)

lemma sim_start:
  assumes "liveStart F m b = (c, s, b')"
  shows "\<exists>r. batchStart (flushRefs F b) m (counting b) = (r, s, counting b')" "flushOf b' = flushOf b"
  using assms
  by (auto simp: liveStart_def batchStart_def counting_def flushOf_def map_of_counting update_counting Let_def
      split: option.splits prod.splits)

lemma sim_contextFor:
  "counting (snd (liveContextFor F mo b)) = snd (contextFor (flushRefs F b) mo (counting b))"
  "flushOf (snd (liveContextFor F mo b)) = flushOf b"
proof -
  have "counting (snd (liveContextFor F mo b)) = snd (contextFor (flushRefs F b) mo (counting b))
    \<and> flushOf (snd (liveContextFor F mo b)) = flushOf b"
  proof (cases "mo = None \<or> boMessageSpans (lvOptions b) = MessageSpansNever \<or> (\<exists>m rc. mo = Some m \<and> map_of (lvContexts b) m = Some rc)")
    case True
    then show ?thesis
      by (auto simp: liveContextFor_def contextFor_def counting_def map_of_counting split: option.splits)
  next
    case False
    then obtain m where m: "mo = Some m" "map_of (lvContexts b) m = None" "boMessageSpans (lvOptions b) \<noteq> MessageSpansNever"
      by (cases mo; cases "map_of (lvContexts b) (the mo)") auto
    define b1 where "b1 = (if lvOpenMessage b \<noteq> Some m
      then (case lvOpen b of None \<Rightarrow> b | Some r \<Rightarrow> liveEnd r b)\<lparr>lvOpen := None, lvOpenMessage := None\<rparr> else b)"
    obtain c s b2 where s: "liveStart F m b1 = (c, s, b2)" by (cases "liveStart F m b1")
    have b1: "counting b1 = (if btOpenMessage (counting b) \<noteq> Some m
        then (endOpenSpan (counting b))\<lparr>btOpen := None, btOpenMessage := None\<rparr> else counting b)" "flushOf b1 = flushOf b"
      by (auto simp: b1_def endOpenSpan_def sim split: option.split) (simp_all add: counting_def)
    have live: "liveContextFor F mo b = (c, b2\<lparr>lvOpen := Some s, lvOpenMessage := Some m\<rparr>)"
      using m s by (simp add: liveContextFor_def b1_def Let_def)
    obtain r where r: "batchStart (flushRefs F b1) m (counting b1) = (r, s, counting b2)" "flushOf b2 = flushOf b1"
      using sim_start [OF s] by blast
    have "map_of (btContexts (counting b)) m = None" "btPolicy (counting b) \<noteq> MessageSpansNever"
      using m by (simp_all add: counting_def map_of_counting)
    then show ?thesis
      using m(1) r b1 live flushRefs_cong [OF b1(2), of F] by (simp add: contextFor_def Let_def sim)
  qed
  then show "counting (snd (liveContextFor F mo b)) = snd (contextFor (flushRefs F b) mo (counting b))"
    "flushOf (snd (liveContextFor F mo b)) = flushOf b" by blast+
qed

lemma sim_eachOne:
  assumes "liveEachOne F fn m b = (e, b')"
  shows "eachOne (flushRefs F b) (\<lambda>m. fn m \<noteq> None) m (counting b) = (e \<noteq> None, counting b')" "flushOf b' = flushOf b"
proof -
  have "eachOne (flushRefs F b) (\<lambda>m. fn m \<noteq> None) m (counting b) = (e \<noteq> None, counting b') \<and> flushOf b' = flushOf b"
  proof (cases "boMessageSpans (lvOptions b) = MessageSpansNever")
    case True
    then show ?thesis using assms by (auto simp: liveEachOne_def eachOne_def counting_def)
  next
    case False
    define b1 where "b1 = (if lvOpenMessage b = Some m then b\<lparr>lvOpen := None, lvOpenMessage := None\<rparr> else b)"
    obtain c s b2 where s: "liveStart F m b1 = (c, s, b2)" by (cases "liveStart F m b1")
    have b1: "counting b1 = (if btOpenMessage (counting b) = Some m then (counting b)\<lparr>btOpen := None, btOpenMessage := None\<rparr> else counting b)"
      "flushOf b1 = flushOf b"
      by (auto simp: b1_def sim) (simp_all add: counting_def)
    obtain r where r: "batchStart (flushRefs F b1) m (counting b1) = (r, s, counting b2)" "flushOf b2 = flushOf b1"
      using sim_start [OF s] by blast
    have "btPolicy (counting b) \<noteq> MessageSpansNever" using False by (simp add: counting_def)
    then show ?thesis
      using assms False s r b1 flushRefs_cong [OF b1(2), of F]
      by (auto simp: liveEachOne_def eachOne_def Let_def sim b1_def [symmetric] split: option.splits)
  qed
  then show "eachOne (flushRefs F b) (\<lambda>m. fn m \<noteq> None) m (counting b) = (e \<noteq> None, counting b')" "flushOf b' = flushOf b" by blast+
qed

lemma sim_eachFrom:
  "eachFrom (flushRefs F b) (\<lambda>m. fn m \<noteq> None) ms (counting b) = (case liveEachFrom F fn ms b of (e, b') \<Rightarrow> (e \<noteq> None, counting b'))
    \<and> flushOf (snd (liveEachFrom F fn ms b)) = flushOf b"
proof (induction F fn ms b rule: liveEachFrom.induct)
  case (3 F fn m ms b)
  obtain e b' where e: "liveEachOne F fn m b = (e, b')" by force
  note one = sim_eachOne [OF e]
  show ?case
    using 3 e one flushRefs_cong [OF one(2), of F] by (cases e) auto
qed simp_all

lemma sim_step:
  "counting (liveCallStep F call b) = batchCallStep (flushRefs F b) (countCall call) (counting b)"
  "flushOf (liveCallStep F call b) = flushOf b"
proof -
  have "btMessages (counting b) = lvMessages b" by (simp add: counting_def)
  then have "counting (liveCallStep F call b) = batchCallStep (flushRefs F b) (countCall call) (counting b)
    \<and> flushOf (liveCallStep F call b) = flushOf b"
  proof (cases call)
    case (ForEach fn)
    then show ?thesis
      using sim_eachFrom [of F b fn "lvMessages b"] \<open>btMessages (counting b) = lvMessages b\<close> by (auto split: prod.splits)
  qed (simp add: sim_contextFor)
  then show "counting (liveCallStep F call b) = batchCallStep (flushRefs F b) (countCall call) (counting b)"
    "flushOf (liveCallStep F call b) = flushOf b" by blast+
qed

lemma sim_calls:
  "counting (fold (liveCallStep F) calls b) = fold (batchCallStep (flushRefs F b)) (map countCall calls) (counting b)
    \<and> flushOf (fold (liveCallStep F) calls b) = flushOf b"
proof (induction calls arbitrary: b)
  case (Cons call calls)
  have "flushRefs F (liveCallStep F call b) = flushRefs F b" using sim_step(2) by (rule flushRefs_cong)
  then show ?case using Cons [of "liveCallStep F call b"] by (simp add: sim_step)
qed simp

lemma sim_startAll:
  "counting (liveStartAll F b) = startAll (flushRefs F b) (counting b)" "flushOf (liveStartAll F b) = flushOf b"
proof -
  let ?live = "\<lambda>mo b. case mo of None \<Rightarrow> b | Some m \<Rightarrow> snd (snd (liveStart F m b))"
  let ?count = "\<lambda>E mo b. case mo of None \<Rightarrow> b | Some m \<Rightarrow> snd (snd (batchStart E m b))"
  have step: "counting (fold ?live ms b) = fold (?count E) ms (counting b) \<and> flushOf (fold ?live ms b) = flushOf b"
    if "flushRefs F b = E" for ms E
    using that
  proof (induction ms arbitrary: b)
    case (Cons mo ms)
    show ?case
    proof (cases mo)
      case (Some m)
      obtain c s b' where s: "liveStart F m b = (c, s, b')" by (cases "liveStart F m b")
      obtain r where r: "batchStart (flushRefs F b) m (counting b) = (r, s, counting b')" "flushOf b' = flushOf b"
        using sim_start [OF s] by blast
      from flushRefs_cong [OF r(2), of F] Cons.prems have "flushRefs F b' = E" by simp
      from Cons.IH [OF this] show ?thesis using Some s r Cons.prems by simp
    qed (use Cons in simp)
  qed simp
  from step [OF refl, of "lvMessages b"] show "counting (liveStartAll F b) = startAll (flushRefs F b) (counting b)"
    "flushOf (liveStartAll F b) = flushOf b"
    by (simp_all add: liveStartAll_def startAll_def) (auto simp: counting_def)
qed



lemma newLiveBatch_some:
  "ms \<noteq> [] \<Longrightarrow> hd ms = Some f \<Longrightarrow> last ms = Some l \<Longrightarrow> \<exists>b. newLiveBatch F en co opts c ms = Some b"
  by (simp add: newLiveBatch_def Let_def split: prod.split)


subsection \<open>Results: the traces of the messages\<close>

text \<open>The contexts a batch holds are those made of its messages.\<close>

definition madeOf :: "flushEnv \<Rightarrow> liveBatch \<Rightarrow> nat \<Rightarrow> ctx \<Rightarrow> bool" where
  "madeOf F b m c \<longleftrightarrow> (\<exists>en i. c = fst (messageContext (fvSpill F) en (lvClient b) (boGroup (lvOptions b)) (lvParent b) i
     (lvSpan b) (fvMessage F m)))"

definition contextsMade :: "flushEnv \<Rightarrow> liveBatch \<Rightarrow> bool" where
  "contextsMade F b \<longleftrightarrow> (\<forall>m r c. map_of (lvContexts b) m = Some (r, c) \<longrightarrow> madeOf F b m c)"

lemma madeOf_cong: "flushOf b = flushOf b' \<Longrightarrow> madeOf F b = madeOf F b'"
  by (simp add: madeOf_def flushOf_def fun_eq_iff)

lemma contextsMade_cong: "flushOf b' = flushOf b \<Longrightarrow> lvContexts b' = lvContexts b \<Longrightarrow> contextsMade F b \<Longrightarrow> contextsMade F b'"
  by (simp add: contextsMade_def madeOf_cong [of b' b])

lemma liveEnd_contexts: "lvContexts (liveEnd r b) = lvContexts b"
  by (simp add: liveEnd_def)

lemma made_start:
  assumes "contextsMade F b" "liveStart F m b = (c, s, b')"
  shows "contextsMade F b'" "madeOf F b' m c" "\<exists>r. map_of (lvContexts b') m = Some (r, c)"
proof -
  note same = madeOf_cong [OF sim_start(2) [OF assms(2)], of F]
  have "contextsMade F b' \<and> madeOf F b' m c \<and> (\<exists>r. map_of (lvContexts b') m = Some (r, c))"
  proof (cases "map_of (lvContexts b) m")
    case None
    have "madeOf F b m c" using None assms(2) by (auto simp: liveStart_def madeOf_def Let_def split: prod.splits) (metis fst_conv)
    moreover have "\<exists>r. lvContexts b' = AList.update m (r, c) (lvContexts b)"
      using None assms(2) by (auto simp: liveStart_def Let_def split: prod.splits)
    ultimately show ?thesis using assms(1) by (auto simp: contextsMade_def same update_conv' split: if_splits)
  next
    case (Some rc)
    then show ?thesis using assms same by (cases rc) (auto simp: liveStart_def contextsMade_def)
  qed
  then show "contextsMade F b'" "madeOf F b' m c" "\<exists>r. map_of (lvContexts b') m = Some (r, c)" by blast+
qed

lemma made_contextFor:
  assumes "contextsMade F b" "boMessageSpans (lvOptions b) \<noteq> MessageSpansNever" "liveContextFor F (Some m) b = (c, b')"
  shows "contextsMade F b'" "madeOf F b' m c" "\<exists>r. map_of (lvContexts b') m = Some (r, c)"
proof -
  have "contextsMade F b' \<and> madeOf F b' m c \<and> (\<exists>r. map_of (lvContexts b') m = Some (r, c))"
  proof (cases "map_of (lvContexts b) m")
    case None
    define b1 where "b1 = (if lvOpenMessage b \<noteq> Some m
      then (case lvOpen b of None \<Rightarrow> b | Some r \<Rightarrow> liveEnd r b)\<lparr>lvOpen := None, lvOpenMessage := None\<rparr> else b)"
    have "contextsMade F b1"
      by (rule contextsMade_cong [OF _ _ assms(1)]) (simp_all add: b1_def sim liveEnd_contexts split: option.split)
    moreover obtain s b2 where s: "liveStart F m b1 = (c, s, b2)" "b' = b2\<lparr>lvOpen := Some s, lvOpenMessage := Some m\<rparr>"
      using assms(2,3) None by (auto simp: liveContextFor_def b1_def Let_def split: prod.splits)
    ultimately have "contextsMade F b2" "madeOf F b2 m c" "\<exists>r. map_of (lvContexts b2) m = Some (r, c)"
      using made_start by blast+
    moreover have "flushOf b' = flushOf b2" "lvContexts b' = lvContexts b2" using s(2) by (simp_all add: sim)
    ultimately show ?thesis using contextsMade_cong [of b' b2 F] madeOf_cong [of b' b2 F] by simp
  next
    case (Some rc)
    then show ?thesis using assms by (cases rc) (auto simp: liveContextFor_def contextsMade_def)
  qed
  then show "contextsMade F b'" "madeOf F b' m c" "\<exists>r. map_of (lvContexts b') m = Some (r, c)" by blast+
qed

lemma made_eachFrom: "contextsMade F b \<Longrightarrow> contextsMade F (snd (liveEachFrom F fn ms b))"
proof (induction F fn ms b rule: liveEachFrom.induct)
  case (3 F fn m ms b)
  define b1 where "b1 = (if lvOpenMessage b = Some m then b\<lparr>lvOpen := None, lvOpenMessage := None\<rparr> else b)"
  have b1: "contextsMade F b1" by (rule contextsMade_cong [OF _ _ "3.prems"]) (simp_all add: b1_def sim)
  obtain c s b2 where s: "liveStart F m b1 = (c, s, b2)" by (cases "liveStart F m b1")
  have b2: "contextsMade F b2" using made_start(1) [OF b1 s] .
  have "contextsMade F (snd (liveEachOne F fn m b))"
    using "3.prems" s
    by (auto simp: liveEachOne_def b1_def [symmetric] Let_def sim liveEnd_contexts split: option.split
        intro!: contextsMade_cong [OF _ _ b2])
  then show ?case using 3 by (auto split: prod.splits option.splits)
qed simp_all

lemma made_calls: "contextsMade F b \<Longrightarrow> contextsMade F (fold (liveCallStep F) calls b)"
proof (induction calls arbitrary: b)
  case (Cons call calls)
  have "contextsMade F (liveCallStep F call b)"
  proof (cases call)
    case (AskContext mo)
    consider "mo = None" | m where "mo = Some m" "boMessageSpans (lvOptions b) = MessageSpansNever"
      | m where "mo = Some m" "boMessageSpans (lvOptions b) \<noteq> MessageSpansNever" by (cases mo) auto
    then show ?thesis
    proof cases
      case 3
      then show ?thesis using AskContext made_contextFor(1) [OF Cons.prems] by (cases "liveContextFor F mo b") auto
    qed (use AskContext Cons.prems in \<open>auto simp: liveContextFor_def split: option.splits\<close>)
  qed (simp add: made_eachFrom Cons.prems)
  then show ?case using Cons.IH by simp
qed simp

lemma made_startAll: "contextsMade F b \<Longrightarrow> contextsMade F (liveStartAll F b)"
proof -
  have "contextsMade F b \<Longrightarrow> contextsMade F (fold (\<lambda>mo b. case mo of None \<Rightarrow> b | Some m \<Rightarrow> snd (snd (liveStart F m b))) ms b)" for ms
  proof (induction ms arbitrary: b)
    case (Cons mo ms)
    show ?case
    proof (cases mo)
      case (Some m)
      then show ?thesis using Cons made_start(1) [of F b m] by (cases "liveStart F m b") simp
    qed (use Cons in simp)
  qed simp
  then show "contextsMade F b \<Longrightarrow> contextsMade F (liveStartAll F b)" by (simp add: liveStartAll_def)
qed

text \<open>The context of a message with a valid parent, on a client that traces.\<close>

lemma messageContext_live:
  assumes "cfgEnabled (clCfg cl)" "cfgAPMEnabled (clCfg cl)" "extractContext (cmHeaders cm) = (r, stamp)" "remoteValid r"
  shows "\<exists>s. fst (messageContext spill en (Some cl) grp parent i batchSpan cm) = Some s
    \<and> spTraceID s = rcTraceID r \<and> spParentID s = rcSpanID r \<and> spSampled s = rcSampled r
    \<and> spTracestate s = rcTracestate r \<and> spBaggage s = rcBaggage r
    \<and> (case batchSpan of None \<Rightarrow> True | Some bs \<Rightarrow> map_of (spAttributes s) ''messaging.batch.trace_id'' = Some (spTraceID bs)
        \<and> map_of (spAttributes s) ''messaging.batch.span_id'' = Some (spSpanID bs))"
proof -
  obtain s where s: "startProcessSpan spill en (Some cl) grp parent cm = (Some s, s)" "attrsWithin 14 s"
    "spTraceID s = rcTraceID r" "spParentID s = rcSpanID r" "spSampled s = rcSampled r"
    "spTracestate s = rcTracestate r" "spBaggage s = rcBaggage r"
    using startProcessSpan_live [OF assms] .
  let ?s1 = "setAttribute ''messaging.batch.index'' (itoa i) s"
  have 15: "length (spAttributes ?s1) \<le> 15" using attrsWithin_set [OF s(2)] by (simp add: attrsWithin_def)
  moreover have "length (AList.update k v (spAttributes ?s1)) \<le> 16" for k v
    using length_update_le [of k v "spAttributes ?s1"] 15 by linarith
  then have "\<not> 64 \<le> length (AList.update k v (spAttributes ?s1))" for k v using le_trans [of 64 _ 16] by fastforce
  ultimately have "map_of (spAttributes (batchReference i (Some bs) s)) ''messaging.batch.trace_id'' = Some (spTraceID bs)"
    "map_of (spAttributes (batchReference i (Some bs) s)) ''messaging.batch.span_id'' = Some (spSpanID bs)" for bs
    unfolding batchReference_def Let_def option.case
    by (simp_all add: setAttribute_def [of "''messaging.batch.span_id''"] setAttribute_def [of "''messaging.batch.trace_id''"]
        maxAttributes_def)
  moreover have "spanIdentity (batchReference i batchSpan s) = spanIdentity s"
    by (simp add: batchReference_def Let_def identity split: option.split)
  moreover have "fst (messageContext spill en (Some cl) grp parent i batchSpan cm) = Some (batchReference i batchSpan s)"
    by (simp add: messageContext_def Let_def s(1) assms(1,2))
  ultimately show ?thesis
    using s by (intro exI [of _ "batchReference i batchSpan s"]) (auto simp: spanIdentity_def split: option.split)
qed

text \<open>
  C13: a message keeps its own trace through a flush.  Whatever the handler of a live client has asked of the
  batch before, the context that \<open>ContextFor\<close> gives it for a message that carries a valid parent holds a
  span of that message's trace, the child of the span that published it, under its sampling decision and
  with its state, and never the batch span or the span of another message; it refers to the batch
  span, and asking again gives the same context.
\<close>

theorem batch_context_keeps_trace:
  assumes "cfgEnabled (clCfg cl)" "cfgAPMEnabled (clCfg cl)" "boMessageSpans opts \<noteq> MessageSpansNever"
    and "newLiveBatch F en (Some cl) opts c ms = Some b0"
    and "extractContext (cmHeaders (fvMessage F m)) = (r, stamp)" "remoteValid r"
  shows "case liveContextFor F (Some m) (fold (liveCallStep F) calls (liveStartAll F b0)) of (c', b) \<Rightarrow>
    (case c' of None \<Rightarrow> False | Some s \<Rightarrow>
      spTraceID s = rcTraceID r \<and> spParentID s = rcSpanID r \<and> spSampled s = rcSampled r
      \<and> spTracestate s = rcTracestate r \<and> spBaggage s = rcBaggage r
      \<and> (case lvSpan b0 of None \<Rightarrow> True | Some bs \<Rightarrow> map_of (spAttributes s) ''messaging.batch.trace_id'' = Some (spTraceID bs)
          \<and> map_of (spAttributes s) ''messaging.batch.span_id'' = Some (spSpanID bs)))
    \<and> fst (liveContextFor F (Some m) b) = c'"
proof -
  let ?b = "fold (liveCallStep F) calls (liveStartAll F b0)"
  have b0: "lvClient b0 = Some cl" "lvOptions b0 = opts" "lvContexts b0 = []"
    using assms(4) by (auto simp: newLiveBatch_def bareBatch_def Let_def split: if_splits option.splits prod.splits)
  have same: "flushOf ?b = flushOf b0" using sim_calls sim_startAll(2) by metis
  have "contextsMade F ?b" by (intro made_calls made_startAll) (simp add: contextsMade_def b0)
  moreover have "boMessageSpans (lvOptions ?b) \<noteq> MessageSpansNever" using same assms(3) b0 by (simp add: flushOf_def)
  moreover obtain c' b where ask: "liveContextFor F (Some m) ?b = (c', b)" by force
  ultimately have made: "madeOf F b m c'" and again: "\<exists>r. map_of (lvContexts b) m = Some (r, c')"
    using made_contextFor by blast+
  have "flushOf b = flushOf b0" using sim_contextFor(2) [of F "Some m" ?b] ask same by simp
  then have "madeOf F b0 m c'" using made madeOf_cong [of b b0 F] by simp
  then obtain en i where "c' = fst (messageContext (fvSpill F) en (Some cl) (boGroup opts) (lvParent b0) i (lvSpan b0) (fvMessage F m))"
    using b0 by (auto simp: madeOf_def)
  moreover have "fst (liveContextFor F (Some m) b) = c'" using again by (auto simp: liveContextFor_def)
  ultimately show ?thesis
    using ask messageContext_live [OF assms(1,2,5,6), of "fvSpill F" en "boGroup opts" "lvParent b0" i "lvSpan b0"] by auto
qed

definition tracedFlush :: flushEnv where
  "tracedFlush = \<lparr>fvMessage = (\<lambda>m. \<lparr>cmTopic = ''orders'', cmKey = [], cmValue = [], cmPartition = 0, cmOffset = int m,
       cmHeaders = map Some (inject (Some (zeroSpan\<lparr>spTraceID := w3cTrace, spSpanID := w3cSpan\<rparr>)) [] [])\<rparr>),
     fvStamp = (\<lambda>_. kafkaStamp 7 ''HGFEDCBA''), fvSpill = (\<lambda>_. 0)\<rparr>"

definition liveOptions :: batchOptions where
  "liveOptions = \<lparr>boGroup = ''g'', boMessageSpans = MessageSpansOnDemand, boMaxRecords = 0, boMaxBytes = 0, boMaxWait = 0\<rparr>"

theorem batch_context_keeps_trace_witness:
  "\<exists>b0. newLiveBatch tracedFlush (kafkaStamp 5 ''ABCDEFGH'') (Some liveClient) liveOptions None [Some 0, Some 1] = Some b0
    \<and> (case liveContextFor tracedFlush (Some 1) (fold (liveCallStep tracedFlush) [AskContext (Some 0), ForEach (\<lambda>m. Some ''no'')]
          (liveStartAll tracedFlush b0)) of (c', b) \<Rightarrow>
        (case c' of None \<Rightarrow> False | Some s \<Rightarrow> spTraceID s = w3cTrace \<and> spParentID s = w3cSpan))"
proof -
  obtain b0 where b0: "newLiveBatch tracedFlush (kafkaStamp 5 ''ABCDEFGH'') (Some liveClient) liveOptions None [Some 0, Some 1] = Some b0"
    using newLiveBatch_some [where ms = "[Some 0, Some 1]" and f = 0 and l = 1] by fastforce
  have live: "cfgEnabled (clCfg liveClient)" "cfgAPMEnabled (clCfg liveClient)" "boMessageSpans liveOptions \<noteq> MessageSpansNever"
    by (simp_all add: liveClient_def liveConfig_def liveOptions_def)
  let ?sp = "zeroSpan\<lparr>spTraceID := w3cTrace, spSpanID := w3cSpan\<rparr>"
  have none: "list_all (\<lambda>key. absent key []) contextKeys" by (simp add: contextKeys_def absent_def)
  have "validIds (spTraceID ?sp) (spSpanID ?sp)" using w3c_valid by simp
  from kafka_context_roundtrip [OF none this, of "[]"]
  have ext: "extractContext (cmHeaders (fvMessage tracedFlush 1)) =
    (\<lparr>rcTraceID = w3cTrace, rcSpanID = w3cSpan, rcSampled = spSampled ?sp, rcTracestate = normalizeTracestate (spTracestate ?sp),
      rcBaggage = normalizeBaggage (spBaggage ?sp)\<rparr>, [])"
    by (simp add: tracedFlush_def)
  have "remoteValid \<lparr>rcTraceID = w3cTrace, rcSpanID = w3cSpan, rcSampled = spSampled ?sp, rcTracestate = normalizeTracestate (spTracestate ?sp),
      rcBaggage = normalizeBaggage (spBaggage ?sp)\<rparr>"
    using w3c_valid by (auto simp: remoteValid_def validIds_def lowerHex_def)
  from batch_context_keeps_trace [OF live b0 ext this, of "[AskContext (Some 0), ForEach (\<lambda>m. Some ''no'')]"] b0
  show ?thesis by (auto split: prod.splits option.splits)
qed

end
