(* ===== verification/Operation.thy ===== *)
theory Operation
  imports Messaging
begin

text \<open>
  \<open>operation.go\<close> and \<open>fs.go\<close>: work run under a span.  The wrapped function works on a state \<open>'p\<close> and
  either returns, with or without an error, or panics; it sees the context and the \<open>pprof\<close> labels it
  runs under.
\<close>

datatype goResult = Returned "string option" | Panicked string

type_synonym 'p work = "ctx \<Rightarrow> attrs \<Rightarrow> 'p \<Rightarrow> goResult \<times> 'p"

definition labelSet :: "attrs \<Rightarrow> attrs" where
  "labelSet labels = filter (\<lambda>(k, v). k \<noteq> [] \<and> v \<noteq> []) labels"

text \<open>\<open>Do\<close>: the labels of the goroutine are extended for the time of the call.\<close>

definition doLabels :: "attrs \<Rightarrow> 'p work \<Rightarrow> 'p work" where
  "doLabels labels fn c current p =
     (if labels = [] then fn c current p else fn c (mergeInto (labelSet labels) current) p)"

text \<open>\<open>DoErr\<close>: the work of \<open>Do\<close> here answers with its error anyway.\<close>

definition doErr :: "attrs \<Rightarrow> 'p work \<Rightarrow> 'p work" where
  "doErr labels fn = doLabels labels fn"

definition runOutcome :: "goResult \<Rightarrow> span \<Rightarrow> span" where
  "runOutcome r s = (case r of Returned err \<Rightarrow> markError err s | Panicked _ \<Rightarrow> s)"

definition runLabels :: "string \<Rightarrow> span \<Rightarrow> attrs" where
  "runLabels name s = [(''job'', name), (''trace_id'', spTraceID s), (''span_id'', spSpanID s)]"

text \<open>\<open>Run\<close>: the result of the work, and the span as it was ended, if one was started.\<close>

definition runWork ::
  "client option \<Rightarrow> string \<Rightarrow> int \<Rightarrow> bytes \<Rightarrow> bytes \<Rightarrow> 'p work \<Rightarrow> ctx \<Rightarrow> attrs \<Rightarrow> 'p \<Rightarrow> goResult \<times> span option \<times> 'p" where
  "runWork co name now rnd16 rnd8 fn c labels p =
     (case co of None \<Rightarrow> (case fn c labels p of (r, p') \<Rightarrow> (r, None, p'))
      | Some cl \<Rightarrow>
          if \<not> cfgEnabled (clCfg cl) then (case fn c labels p of (r, p') \<Rightarrow> (r, None, p'))
          else if \<not> cfgAPMEnabled (clCfg cl)
          then (case (if cfgProfilerEnabled (clCfg cl) then doErr [(''job'', name)] fn c labels p else fn c labels p)
                of (r, p') \<Rightarrow> (r, None, p'))
          else (case startSpan co c name now rnd16 rnd8 of (c', s) \<Rightarrow>
            (case (if cfgProfilerEnabled (clCfg cl) then doErr (runLabels name s) fn c' labels p else fn c' labels p)
             of (r, p') \<Rightarrow> (r, Some (runOutcome r s), p'))))"

text \<open>\<open>Bind\<close> captures client, context and name; the bound work runs when it is called.\<close>

definition bindWork ::
  "client option \<Rightarrow> ctx \<Rightarrow> string \<Rightarrow> int \<Rightarrow> bytes \<Rightarrow> bytes \<Rightarrow> 'p work \<Rightarrow> attrs \<Rightarrow> 'p \<Rightarrow> goResult \<times> span option \<times> 'p" where
  "bindWork co c name now rnd16 rnd8 fn labels p =
     (if (case co of None \<Rightarrow> True | Some cl \<Rightarrow> \<not> cfgEnabled (clCfg cl))
      then (case fn c labels p of (r, p') \<Rightarrow> (r, None, p'))
      else runWork co name now rnd16 rnd8 fn c labels p)"

definition annotate :: "attrs \<Rightarrow> ctx \<Rightarrow> ctx" where
  "annotate m c = map_option (fold (\<lambda>(k, v). setAttribute k v) m) c"

subsection \<open>Files\<close>

text \<open>
  \<open>filepath.Abs\<close> depends on the working directory and is the argument \<open>absPath\<close>, \<open>None\<close> on an error;
  the separator is the slash.
\<close>

definition maxFilePathLength :: nat where
  "maxFilePathLength = 1024"

definition resolveFilePath :: "(string \<Rightarrow> string option) \<Rightarrow> string \<Rightarrow> string" where
  "resolveFilePath absPath path =
     (let trimmed = trimSpace path in
      if trimmed = [] then []
      else (let full = (if hasPrefix trimmed ''/'' then trimmed
                        else (case absPath trimmed of None \<Rightarrow> trimmed | Some a \<Rightarrow> a))
            in if length full > maxFilePathLength then take maxFilePathLength full else full))"

text \<open>\<open>filepath.Base\<close>.\<close>

definition dropTrailingSlashes :: "string \<Rightarrow> string" where
  "dropTrailingSlashes s = rev (dropWhile (\<lambda>c. c = CHR ''/'') (rev s))"

definition filepathBase :: "string \<Rightarrow> string" where
  "filepathBase path =
     (if path = [] then ''.''
      else (let p = dropTrailingSlashes path;
                b = (case lastIndexByte p (CHR ''/'') of None \<Rightarrow> p | Some i \<Rightarrow> drop (Suc i) p)
            in if b = [] then ''/'' else b))"

definition fileSpanName :: "unicodeTables \<Rightarrow> string \<Rightarrow> string \<Rightarrow> string" where
  "fileSpanName U operation path =
     (let v = toUpper U (trimSpace operation); verb = (if v = [] then ''FILE'' else v); base = filepathBase (trimSpace path)
      in if base = [] \<or> base = ''.'' \<or> base = ''/'' then verb else verb @ '' '' @ base)"

definition decorateFile :: "(string \<Rightarrow> string option) \<Rightarrow> string \<Rightarrow> string \<Rightarrow> span \<Rightarrow> span" where
  "decorateFile absPath operation path s =
     (let s0 = setAttribute ''span.kind'' ''client'' s;
          s1 = (if operation \<noteq> [] then setAttribute ''file.operation'' operation s0 else s0);
          resolved = resolveFilePath absPath path
      in if resolved = [] then s1
         else setAttribute ''url.full'' (''file://'' @ resolved) (setAttribute ''file.path'' resolved s1))"

definition fileOutcome :: "string option \<Rightarrow> span \<Rightarrow> span" where
  "fileOutcome err s = (case err of None \<Rightarrow> s
     | Some msg \<Rightarrow> setAttribute ''exception.message'' msg (setAttribute ''error'' ''true'' (setStatus ''error'' s)))"

record fileEnv =
  feTables :: unicodeTables
  feAbs :: "string \<Rightarrow> string option"
  feNow :: int
  feTrace :: bytes
  feSpan :: bytes

text \<open>
  \<open>file\<close>: the work answers with its error and, when it knows it, the size to record.  All the helpers
  are this body with an operation of their own.
\<close>

definition fileSpanned ::
  "fileEnv \<Rightarrow> client option \<Rightarrow> ctx \<Rightarrow> string \<Rightarrow> string \<Rightarrow> (ctx \<Rightarrow> 'p \<Rightarrow> string option \<times> int option \<times> 'p) \<Rightarrow> 'p
    \<Rightarrow> string option \<times> span \<times> 'p" where
  "fileSpanned E co c operation path fn p =
     (case startSpan co c (fileSpanName (feTables E) operation path) (feNow E) (feTrace E) (feSpan E) of (c', s0) \<Rightarrow>
       (let s = decorateFile (feAbs E) operation path s0 in
        case fn (if tracingOn co then Some s else c') p of (err, sz, p') \<Rightarrow>
          (err, fileOutcome err (case sz of None \<Rightarrow> s | Some n \<Rightarrow> setAttribute ''file.size'' (itoa n) s), p')))"

text \<open>\<open>File\<close>: any work as one file operation.\<close>

definition spannedFile ::
  "fileEnv \<Rightarrow> client option \<Rightarrow> ctx \<Rightarrow> string \<Rightarrow> string \<Rightarrow> (ctx \<Rightarrow> 'p \<Rightarrow> string option \<times> 'p) \<Rightarrow> 'p
    \<Rightarrow> string option \<times> span option \<times> 'p" where
  "spannedFile E co c operation path fn p =
     (if co = None then (case fn c p of (err, p') \<Rightarrow> (err, None, p'))
      else (case fileSpanned E co c operation path (\<lambda>c' q. case fn c' q of (err, q') \<Rightarrow> (err, None, q')) p of
        (err, s, p') \<Rightarrow> (err, Some s, p')))"

text \<open>\<open>os.ReadFile\<close>, \<open>os.WriteFile\<close>, \<open>io.Copy\<close>, \<open>os.Stat\<close> and \<open>os.Remove\<close> are arguments.\<close>

definition spannedReadFile ::
  "fileEnv \<Rightarrow> client option \<Rightarrow> ctx \<Rightarrow> (string \<Rightarrow> 'p \<Rightarrow> (bytes \<times> string option) \<times> 'p) \<Rightarrow> string \<Rightarrow> 'p
    \<Rightarrow> (bytes \<times> string option) \<times> span option \<times> 'p" where
  "spannedReadFile E co c read path p =
     (if co = None then (case read path p of (r, p') \<Rightarrow> (r, None, p'))
      else (case fileSpanned E co c ''read'' path (\<lambda>_ q. case read path (snd q) of ((out, err), q') \<Rightarrow>
              (err, if err = None then Some (int (length out)) else None, (out, q'))) ([], p) of
        (err, s, (out, p')) \<Rightarrow> ((out, err), Some s, p')))"

definition spannedWriteFile ::
  "fileEnv \<Rightarrow> client option \<Rightarrow> ctx \<Rightarrow> (string \<Rightarrow> bytes \<Rightarrow> 'p \<Rightarrow> string option \<times> 'p) \<Rightarrow> string \<Rightarrow> bytes \<Rightarrow> 'p
    \<Rightarrow> string option \<times> span option \<times> 'p" where
  "spannedWriteFile E co c writeFile path body p =
     (if co = None then (case writeFile path body p of (err, p') \<Rightarrow> (err, None, p'))
      else (case fileSpanned E co c ''write'' path (\<lambda>_ q. case writeFile path body q of (err, q') \<Rightarrow>
              (err, Some (int (length body)), q')) p of (err, s, p') \<Rightarrow> (err, Some s, p')))"

definition spannedCopy ::
  "fileEnv \<Rightarrow> client option \<Rightarrow> ctx \<Rightarrow> ('p \<Rightarrow> (int \<times> string option) \<times> 'p) \<Rightarrow> string \<Rightarrow> 'p
    \<Rightarrow> (int \<times> string option) \<times> span option \<times> 'p" where
  "spannedCopy E co c copy path p =
     (if co = None then (case copy p of (r, p') \<Rightarrow> (r, None, p'))
      else (case fileSpanned E co c ''copy'' path (\<lambda>_ q. case copy (snd q) of ((moved, err), q') \<Rightarrow>
              (err, Some moved, (moved, q'))) (0, p) of (err, s, (moved, p')) \<Rightarrow> ((moved, err), Some s, p')))"

record fileInfo =
  fiSize :: int
  fiDir :: bool

definition spannedStat ::
  "fileEnv \<Rightarrow> client option \<Rightarrow> ctx \<Rightarrow> (string \<Rightarrow> 'p \<Rightarrow> (fileInfo option \<times> string option) \<times> 'p) \<Rightarrow> string \<Rightarrow> 'p
    \<Rightarrow> (fileInfo option \<times> string option) \<times> span option \<times> 'p" where
  "spannedStat E co c stat path p =
     (if co = None then (case stat path p of (r, p') \<Rightarrow> (r, None, p'))
      else (case fileSpanned E co c ''stat'' path (\<lambda>_ q. case stat path (snd q) of ((info, err), q') \<Rightarrow>
              (err, case info of Some i \<Rightarrow> if err = None \<and> \<not> fiDir i then Some (fiSize i) else None | None \<Rightarrow> None, (info, q')))
              (None, p) of (err, s, (info, p')) \<Rightarrow> ((info, err), Some s, p')))"

definition spannedRemove ::
  "fileEnv \<Rightarrow> client option \<Rightarrow> ctx \<Rightarrow> (string \<Rightarrow> 'p \<Rightarrow> string option \<times> 'p) \<Rightarrow> string \<Rightarrow> 'p \<Rightarrow> string option \<times> span option \<times> 'p" where
  "spannedRemove E co c remove path p =
     (if co = None then (case remove path p of (err, p') \<Rightarrow> (err, None, p'))
      else (case fileSpanned E co c ''remove'' path (\<lambda>_ q. case remove path q of (err, q') \<Rightarrow> (err, None, q')) p of
        (err, s, p') \<Rightarrow> (err, Some s, p')))"

text \<open>
  \<open>instrumentedFS.Open\<close>: \<open>open\<close> of the wrapped file system gives a file \<open>'f\<close> or an error; \<open>stat\<close> is
  \<open>Stat\<close> of an opened file, \<open>None\<close> on an error.
\<close>

definition fsOpen ::
  "fileEnv \<Rightarrow> client \<Rightarrow> (string \<Rightarrow> 'p \<Rightarrow> ('f option \<times> string option) \<times> 'p) \<Rightarrow> ('f \<Rightarrow> fileInfo option) \<Rightarrow> string \<Rightarrow> 'p
    \<Rightarrow> ('f option \<times> string option) \<times> span \<times> 'p" where
  "fsOpen E cl opn stat name p =
     (case fileSpanned E (Some cl) None ''open'' name (\<lambda>_ q. case opn name (snd q) of ((file, err), q') \<Rightarrow>
          (err,
           case (err, file) of (None, Some f) \<Rightarrow> (case stat f of Some i \<Rightarrow> if fiDir i then None else Some (fiSize i) | None \<Rightarrow> None)
             | _ \<Rightarrow> None,
           (file, q'))) (None, p) of
       (err, s, (file, p')) \<Rightarrow>
         (case file of
            None \<Rightarrow> (case opn name p' of (r, p'') \<Rightarrow> (r, s, p''))
          | Some f \<Rightarrow> ((Some f, None), s, p')))"

text \<open>\<open>FS\<close>: the opens of the wrapped file system, or the file system itself for a nil client or file system.\<close>

definition clientFS ::
  "fileEnv \<Rightarrow> client option \<Rightarrow> (string \<Rightarrow> 'p \<Rightarrow> ('f option \<times> string option) \<times> 'p) option \<Rightarrow> ('f \<Rightarrow> fileInfo option)
    \<Rightarrow> (string \<Rightarrow> 'p \<Rightarrow> ('f option \<times> string option) \<times> span option \<times> 'p) option" where
  "clientFS E co fsys stat = (case fsys of None \<Rightarrow> None
     | Some opn \<Rightarrow> Some (\<lambda>name p. case co of
         None \<Rightarrow> (case opn name p of (r, p') \<Rightarrow> (r, None, p'))
       | Some cl \<Rightarrow> (case fsOpen E cl opn stat name p of (r, s, p') \<Rightarrow> (r, Some s, p'))))"

subsection \<open>The process-wide client\<close>

text \<open>The functions of the package are the methods of \<open>Default()\<close>.\<close>

definition runDefault ::
  "client option \<Rightarrow> string \<Rightarrow> int \<Rightarrow> bytes \<Rightarrow> bytes \<Rightarrow> 'p work \<Rightarrow> ctx \<Rightarrow> attrs \<Rightarrow> 'p \<Rightarrow> goResult \<times> span option \<times> 'p" where
  "runDefault deflt = runWork (defaultOr deflt)"

definition bindDefault ::
  "client option \<Rightarrow> ctx \<Rightarrow> string \<Rightarrow> int \<Rightarrow> bytes \<Rightarrow> bytes \<Rightarrow> 'p work \<Rightarrow> attrs \<Rightarrow> 'p \<Rightarrow> goResult \<times> span option \<times> 'p" where
  "bindDefault deflt = bindWork (defaultOr deflt)"

definition fileDefault ::
  "fileEnv \<Rightarrow> client option \<Rightarrow> ctx \<Rightarrow> string \<Rightarrow> string \<Rightarrow> (ctx \<Rightarrow> 'p \<Rightarrow> string option \<times> 'p) \<Rightarrow> 'p
    \<Rightarrow> string option \<times> span option \<times> 'p" where
  "fileDefault E deflt = spannedFile E (defaultOr deflt)"

definition readFileDefault ::
  "fileEnv \<Rightarrow> client option \<Rightarrow> ctx \<Rightarrow> (string \<Rightarrow> 'p \<Rightarrow> (bytes \<times> string option) \<times> 'p) \<Rightarrow> string \<Rightarrow> 'p
    \<Rightarrow> (bytes \<times> string option) \<times> span option \<times> 'p" where
  "readFileDefault E deflt = spannedReadFile E (defaultOr deflt)"

definition writeFileDefault ::
  "fileEnv \<Rightarrow> client option \<Rightarrow> ctx \<Rightarrow> (string \<Rightarrow> bytes \<Rightarrow> 'p \<Rightarrow> string option \<times> 'p) \<Rightarrow> string \<Rightarrow> bytes \<Rightarrow> 'p
    \<Rightarrow> string option \<times> span option \<times> 'p" where
  "writeFileDefault E deflt = spannedWriteFile E (defaultOr deflt)"

definition copyDefault ::
  "fileEnv \<Rightarrow> client option \<Rightarrow> ctx \<Rightarrow> ('p \<Rightarrow> (int \<times> string option) \<times> 'p) \<Rightarrow> string \<Rightarrow> 'p
    \<Rightarrow> (int \<times> string option) \<times> span option \<times> 'p" where
  "copyDefault E deflt = spannedCopy E (defaultOr deflt)"

definition statDefault ::
  "fileEnv \<Rightarrow> client option \<Rightarrow> ctx \<Rightarrow> (string \<Rightarrow> 'p \<Rightarrow> (fileInfo option \<times> string option) \<times> 'p) \<Rightarrow> string \<Rightarrow> 'p
    \<Rightarrow> (fileInfo option \<times> string option) \<times> span option \<times> 'p" where
  "statDefault E deflt = spannedStat E (defaultOr deflt)"

definition removeDefault ::
  "fileEnv \<Rightarrow> client option \<Rightarrow> ctx \<Rightarrow> (string \<Rightarrow> 'p \<Rightarrow> string option \<times> 'p) \<Rightarrow> string \<Rightarrow> 'p \<Rightarrow> string option \<times> span option \<times> 'p" where
  "removeDefault E deflt = spannedRemove E (defaultOr deflt)"

subsection \<open>Results\<close>

definition runsLabelled :: "client option \<Rightarrow> bool" where
  "runsLabelled co = (case co of None \<Rightarrow> False | Some cl \<Rightarrow> cfgEnabled (clCfg cl) \<and> cfgProfilerEnabled (clCfg cl))"

text \<open>
  \<open>Run\<close> never changes what the work does or returns.  The work is called exactly once, and its result
  (a panic included) and the state it leaves are those of \<open>Run\<close>; it runs in the context of the new span
  exactly when the client is enabled with APM, in the caller's own context otherwise, and under the job's
  labels exactly when profiling is on.  A span is ended in the first case and in no other.
\<close>

theorem run_transparent:
  "(case runWork co name now rnd16 rnd8 fn c labels p of (r, s, p') \<Rightarrow> (r, p', s \<noteq> None))
   = (case startSpan co c name now rnd16 rnd8 of (c', s0) \<Rightarrow>
      case fn (if tracingOn co then c' else c)
              (if runsLabelled co
               then mergeInto (labelSet (if tracingOn co then runLabels name s0 else [(''job'', name)])) labels
               else labels) p
      of (r, p') \<Rightarrow> (r, p', tracingOn co))"
  by (auto simp: runWork_def doErr_def doLabels_def tracingOn_def runsLabelled_def runLabels_def split: prod.splits option.splits)

lemma startSpan_status:
  "tracingOn co \<Longrightarrow> spStatus (snd (startSpan co c name now rnd16 rnd8)) = ''ok''"
  by (auto simp: tracingOn_def startSpan_def Let_def split: option.splits)

lemma runOutcome_status:
  "spStatus (runOutcome r s) = (case r of Returned (Some _) \<Rightarrow> ''error'' | _ \<Rightarrow> spStatus s)"
  by (simp add: runOutcome_def markError_def setStatus_def setAttribute_def split: goResult.splits option.splits)

text \<open>
  A job that panics is recorded as a success.  \<open>Run\<close> sets the error status from the returned error
  only, which is nil while a panic unwinds: whenever a span is recorded its status is \<open>error\<close> if the
  work returned an error, and \<open>ok\<close> if it returned none or panicked.
\<close>

theorem panic_recorded_as_ok:
  "(case runWork co name now rnd16 rnd8 fn c labels p of (r, s, _) \<Rightarrow>
      map_option spStatus s
      = (if tracingOn co then Some (case r of Returned (Some _) \<Rightarrow> ''error'' | Returned None \<Rightarrow> ''ok'' | Panicked _ \<Rightarrow> ''ok'')
         else None))"
  using startSpan_status [of co c name now rnd16 rnd8]
  by (auto simp: runWork_def tracingOn_def runOutcome_status split: prod.splits option.splits goResult.splits)

lemma fileSpanned_plain:
  "\<exists>s. fileSpanned E co c operation path (\<lambda>_. g) p = (fst (g p), s, snd (snd (g p)))"
  by (auto simp: fileSpanned_def Let_def split: prod.splits)

text \<open>
  \<open>File\<close> runs its work once, in the context of the new span when there is one, and returns its error.
\<close>

theorem file_transparent:
  "case spannedFile E co c operation path fn p of (err, s, p') \<Rightarrow>
     \<exists>c'. fn c' p = (err, p') \<and> (s \<noteq> None \<longleftrightarrow> co \<noteq> None) \<and> (if tracingOn co then c' \<noteq> None else c' = c)"
  by (auto simp: spannedFile_def fileSpanned_def Let_def startSpan_def tracingOn_def split: prod.splits option.splits)

text \<open>
  The file helpers return what the operation returned.  Whatever the client and the span, \<open>ReadFile\<close>,
  \<open>WriteFile\<close>, \<open>Copy\<close>, \<open>Stat\<close> and \<open>Remove\<close> make the one call they wrap, and its value, its error and
  its effect reach the caller unchanged, the partial data of a failing read or copy included.
\<close>

theorem file_helpers_transparent:
  "(case spannedReadFile E co c rd path p of (r, _, p') \<Rightarrow> (r, p')) = rd path p
   \<and> (case spannedWriteFile E co c wr path body p of (r, _, p') \<Rightarrow> (r, p')) = wr path body p
   \<and> (case spannedCopy E co c cp path p of (r, _, p') \<Rightarrow> (r, p')) = cp p
   \<and> (case spannedStat E co c st path p of (r, _, p') \<Rightarrow> (r, p')) = st path p
   \<and> (case spannedRemove E co c rm path p of (r, _, p') \<Rightarrow> (r, p')) = rm path p"
proof (intro conjI)
  show "(case spannedReadFile E co c rd path p of (r, _, p') \<Rightarrow> (r, p')) = rd path p"
    using fileSpanned_plain [of E co c "''read''" path
        "\<lambda>q. case rd path (snd q) of ((out, err), q') \<Rightarrow> (err, if err = None then Some (int (length out)) else None, (out, q'))"
        "([], p)"]
    by (auto simp: spannedReadFile_def split: prod.splits)
  show "(case spannedWriteFile E co c wr path body p of (r, _, p') \<Rightarrow> (r, p')) = wr path body p"
    using fileSpanned_plain [of E co c "''write''" path
        "\<lambda>q. case wr path body q of (err, q') \<Rightarrow> (err, Some (int (length body)), q')" p]
    by (auto simp: spannedWriteFile_def split: prod.splits)
  show "(case spannedCopy E co c cp path p of (r, _, p') \<Rightarrow> (r, p')) = cp p"
    using fileSpanned_plain [of E co c "''copy''" path
        "\<lambda>q. case cp (snd q) of ((moved, err), q') \<Rightarrow> (err, Some moved, (moved, q'))" "(0, p)"]
    by (auto simp: spannedCopy_def split: prod.splits)
  show "(case spannedStat E co c st path p of (r, _, p') \<Rightarrow> (r, p')) = st path p"
    using fileSpanned_plain [of E co c "''stat''" path
        "\<lambda>q. case st path (snd q) of ((info, err), q') \<Rightarrow>
           (err, case info of Some i \<Rightarrow> if err = None \<and> \<not> fiDir i then Some (fiSize i) else None | None \<Rightarrow> None, (info, q'))"
        "(None, p)"]
    by (auto simp: spannedStat_def split: prod.splits)
  show "(case spannedRemove E co c rm path p of (r, _, p') \<Rightarrow> (r, p')) = rm path p"
    using fileSpanned_plain [of E co c "''remove''" path "\<lambda>q. case rm path q of (err, q') \<Rightarrow> (err, None, q')" p]
    by (auto simp: spannedRemove_def split: prod.splits)
qed

text \<open>
  A program that never starts a client is not touched.  Work handed to \<open>Run\<close> or to a bound function runs
  as it is, in the context and under the labels of its caller, and no span is started.
\<close>

theorem unstarted_run_is_bare:
  "runDefault None name now rnd16 rnd8 fn c labels p = (case fn c labels p of (r, p') \<Rightarrow> (r, None, p'))
   \<and> bindDefault None c name now rnd16 rnd8 fn labels p = (case fn c labels p of (r, p') \<Rightarrow> (r, None, p'))"
  by (simp add: runDefault_def runWork_def bindDefault_def bindWork_def)

text \<open>
  A failing \<open>Open\<close> is tried twice.  The span records the first attempt; the caller gets the second
  one's file or error, so a file system that recovers in between hands out a file under a span that
  says the open failed.
\<close>

theorem fs_open_retries:
  "(let flaky = (\<lambda>(name :: string) (n :: nat). ((if n = 0 then (None, Some ''busy'') else (Some ''data'', None)), Suc n));
        r = fsOpen E liveClient flaky (\<lambda>_. None) ''a.txt'' 0
    in fst r = (Some ''data'', None) \<and> spStatus (fst (snd r)) = ''error'' \<and> snd (snd r) = 2)"
  by (simp add: fsOpen_def fileSpanned_def Let_def startSpan_def liveClient_def liveConfig_def zeroConfig_def
      fileOutcome_def setStatus_def setAttribute_def decorateFile_def)

end
