(* ===== verification/Aws.thy ===== *)
theory Aws
  imports Messaging Redact
begin

text \<open>
  \<open>contrib/awsv2/awsv2.go\<close>: the spans of AWS API calls.  The SDK's middleware stack, its retryer and the
  wire are the arguments of the two middlewares; the masking of free text is modelled in full.
\<close>

subsection \<open>Masking\<close>

text \<open>
  The expression \<open>(?i)(X-Amz-(?:Signature|Credential|Security-Token)=)[^&\s"'\\]+\<close>.  Folding takes the
  long s (C5 BF) for an s and the Kelvin sign (E2 84 AA) for a k.
\<close>

definition foldLetter :: "char \<Rightarrow> string \<Rightarrow> (string \<times> string) option" where
  "foldLetter p s = (case s of [] \<Rightarrow> None
     | c # cs \<Rightarrow>
        if asciiLower c = asciiLower p then Some ([c], cs)
        else if asciiLower p = CHR ''s'' \<and> hasPrefix s [CHR 0xC5, CHR 0xBF] then Some ([CHR 0xC5, CHR 0xBF], drop 2 s)
        else if asciiLower p = CHR ''k'' \<and> hasPrefix s [CHR 0xE2, CHR 0x84, CHR 0xAA]
        then Some ([CHR 0xE2, CHR 0x84, CHR 0xAA], drop 3 s)
        else None)"

fun foldPrefix :: "string \<Rightarrow> string \<Rightarrow> (string \<times> string) option" where
  "foldPrefix [] s = Some ([], s)"
| "foldPrefix (p # ps) s = (case foldLetter p s of None \<Rightarrow> None
     | Some (m, r) \<Rightarrow> (case foldPrefix ps r of None \<Rightarrow> None | Some (ms, r') \<Rightarrow> Some (m @ ms, r')))"

definition sigParams :: "string list" where
  "sigParams = [''X-Amz-Signature'', ''X-Amz-Credential'', ''X-Amz-Security-Token'']"

definition sigValueChar :: "char \<Rightarrow> bool" where
  "sigValueChar c \<longleftrightarrow> c \<notin> {CHR ''&'', CHR 0x09, CHR 0x0A, CHR 0x0C, CHR 0x0D, CHR '' '', CHR 0x22, CHR 0x27, CHR 0x5C}"

text \<open>A match at the front of the text: the captured parameter and what follows it, a value of one byte at least.\<close>

definition sigMatch :: "string \<Rightarrow> string \<Rightarrow> (string \<times> string) option" where
  "sigMatch s param = (case foldPrefix (param @ ''='') s of None \<Rightarrow> None
     | Some (m, r) \<Rightarrow> if r \<noteq> [] \<and> sigValueChar (hd r) then Some (m, r) else None)"

definition sigAt :: "string \<Rightarrow> (string \<times> string) option" where
  "sigAt s = (case List.map_filter (sigMatch s) sigParams of [] \<Rightarrow> None | x # _ \<Rightarrow> Some x)"

lemma foldLetter_split: "foldLetter p s = Some (m, r) \<Longrightarrow> s = m @ r \<and> m \<noteq> []"
  by (auto simp: foldLetter_def hasPrefix_iff split: list.splits if_splits)

lemma foldPrefix_split: "foldPrefix ps s = Some (m, r) \<Longrightarrow> s = m @ r"
  by (induction ps arbitrary: s m) (auto split: option.splits prod.splits dest!: foldLetter_split)

lemma sigAt_cases:
  assumes "sigAt s = Some (m, r)"
  obtains param where "param \<in> set sigParams" "foldPrefix (param @ ''='') s = Some (m, r)" "r \<noteq> []" "sigValueChar (hd r)"
proof -
  have "(m, r) \<in> set (List.map_filter (sigMatch s) sigParams)"
    using assms by (auto simp: sigAt_def split: list.splits)
  then obtain param where "param \<in> set sigParams" "sigMatch s param = Some (m, r)"
    by (auto simp: map_filter_def)
  then show thesis using that by (auto simp: sigMatch_def split: option.splits if_splits)
qed

lemma sigAt_split: "sigAt s = Some (m, r) \<Longrightarrow> s = m @ r \<and> r \<noteq> []"
  using foldPrefix_split by (metis sigAt_cases)

text \<open>\<open>ReplaceAllString\<close> with the parameter kept and the mask of an empty value.\<close>

function maskSigV4 :: "string \<Rightarrow> string" where
  "maskSigV4 s = (case s of [] \<Rightarrow> []
     | c # cs \<Rightarrow> (case sigAt s of
           None \<Rightarrow> c # maskSigV4 cs
         | Some (m, r) \<Rightarrow> m @ maskValue [] @ maskSigV4 (dropWhile sigValueChar r)))"
  by pat_completeness auto
termination
proof (relation "measure length", goal_cases)
  case (3 s c cs x m r)
  then have s: "s = m @ r" "r \<noteq> []" "sigValueChar (hd r)" using sigAt_split sigAt_cases by metis+
  then have "length (dropWhile sigValueChar r) < length r"
    by (cases r) (auto simp: le_imp_less_Suc length_dropWhile_le)
  then show ?case using s by simp
qed simp_all

declare maskSigV4.simps [simp del]















lemma maskSigV4_Nil [simp]: "maskSigV4 [] = []"
  by (simp add: maskSigV4.simps [of "[]"])



lemma sigAt_Nil [simp]: "sigAt [] = None"
  using sigAt_split [of "[]"] by (cases "sigAt []") auto










subsection \<open>The middlewares\<close>

text \<open>
  \<open>describeTarget\<close> reads the operation's input by reflection: pointers, structures by field name,
  strings, and anything else.
\<close>

datatype goValue = GoString string | GoPtr "goValue option" | GoStruct "(string \<times> goValue) list" | GoOther





text \<open>A URL as the SDK has it parsed; \<open>awPath\<close> is its escaped path.\<close>

record awsUrl =
  awScheme :: string
  awHost :: string
  awPath :: string
  awQuery :: string











text \<open>
  \<open>Instrument\<close> on the ids of a stack's Initialize and Deserialize steps: a step refuses an id it already
  holds, and the refusal is ignored.  \<open>None\<close> stands for a nil or disabled client.
\<close>

definition addAfter :: "string \<Rightarrow> string list \<Rightarrow> string list" where
  "addAfter i ids = (if i \<in> set ids then ids else ids @ [i])"

definition addBefore :: "string \<Rightarrow> string list \<Rightarrow> string list" where
  "addBefore i ids = (if i \<in> set ids then ids else i # ids)"

definition instrument :: "client option \<Rightarrow> string list \<times> string list \<Rightarrow> string list \<times> string list" where
  "instrument co st =
     (if (case co of None \<Rightarrow> True | Some cl \<Rightarrow> \<not> cfgEnabled (clCfg cl) \<or> \<not> cfgAPMEnabled (clCfg cl)) then st
      else (addAfter ''ChronosSpan'' (fst st), addBefore ''ChronosResponse'' (snd st)))"

subsection \<open>What a call's span says\<close>



















text \<open>
  Wiring twice is wiring once.  Applying \<open>Instrument\<close> to a stack it has already been applied to, with
  the same client, changes nothing: each of the two middlewares is there once, so a call has one span.
\<close>

theorem instrument_idempotent:
  "instrument co (instrument co st) = instrument co st
   \<and> (if distinct (fst st) \<and> distinct (snd st) then distinct (fst (instrument co st)) \<and> distinct (snd (instrument co st)) else True)"
  by (simp add: instrument_def addAfter_def addBefore_def)

end
